(* ===== verification/Prelude.thy ===== *)
theory Prelude
  imports Main "HOL-Library.Char_ord" "HOL-Library.List_Lexorder" "HOL-Library.Multiset"
begin

text \<open>
  Shared vocabulary of the development: the error-threading combinators used for every
  fallible step of the pipeline (\<open>sbind\<close>, \<open>foldM\<close>, \<open>mapM\<close>), the decimal printing and
  reading of numbers that JavaScript performs whenever a number meets a string
  (\<open>show_nat\<close>, \<open>show_int\<close> and their inverses), and the ``push if not already present''
  idiom (\<open>push_new\<close>) that the source writes as \<^verbatim>\<open>if (xs.indexOf(x) === -1) xs.push(x)\<close>.
  The lemmas here are the ones the component theories share; they are declared into
  the collection \<open>pipeline_simps\<close> or \<open>[simp]\<close> so that component proofs stay short.
\<close>

named_theorems pipeline_simps "evaluation rules of the modelled pipeline steps"

section \<open>Errors as values\<close>

definition sbind :: "'e + 'a \<Rightarrow> ('a \<Rightarrow> 'e + 'b) \<Rightarrow> 'e + 'b" where
  "sbind m f = (case m of Inl e \<Rightarrow> Inl e | Inr a \<Rightarrow> f a)"

lemma sbind_Inl [simp]: "sbind (Inl e) f = Inl e"
  and sbind_Inr [simp]: "sbind (Inr a) f = f a"
  by (simp_all add: sbind_def)

lemma sbind_eq_Inr: "sbind m f = Inr b \<longleftrightarrow> (\<exists>a. m = Inr a \<and> f a = Inr b)"
  by (cases m) simp_all

lemma sbind_eq_Inl: "sbind m f = Inl e \<longleftrightarrow> m = Inl e \<or> (\<exists>a. m = Inr a \<and> f a = Inl e)"
  by (cases m) simp_all

text \<open>A JavaScript \<^verbatim>\<open>for\<close>/\<^verbatim>\<open>forEach\<close> loop whose body may throw: the first error ends it.\<close>

fun foldM :: "('a \<Rightarrow> 's \<Rightarrow> 'e + 's) \<Rightarrow> 'a list \<Rightarrow> 's \<Rightarrow> 'e + 's" where
  "foldM f [] s = Inr s"
| "foldM f (x # xs) s = sbind (f x s) (foldM f xs)"

fun mapM :: "('a \<Rightarrow> 'e + 'b) \<Rightarrow> 'a list \<Rightarrow> 'e + 'b list" where
  "mapM f [] = Inr []"
| "mapM f (x # xs) = sbind (f x) (\<lambda>y. sbind (mapM f xs) (\<lambda>ys. Inr (y # ys)))"

lemma foldM_append:
  "foldM f (xs @ ys) s = sbind (foldM f xs s) (foldM f ys)"
  by (induction xs arbitrary: s) (simp_all add: sbind_def split: sum.splits)

text \<open>An invariant kept by every successful iteration holds after a successful loop.\<close>

lemma foldM_invariant:
  assumes step: "\<And>x s s'. x \<in> set xs \<Longrightarrow> P s \<Longrightarrow> f x s = Inr s' \<Longrightarrow> P s'"
    and start: "P s"
    and run: "foldM f xs s = Inr s'"
  shows "P s'"
  using assms
proof (induction xs arbitrary: s)
  case Nil
  then show ?case by simp
next
  case (Cons x xs)
  from Cons.prems(3) obtain t where t: "f x s = Inr t" and rest: "foldM f xs t = Inr s'"
    by (auto simp: sbind_eq_Inr)
  have "P t" using Cons.prems(1) [of x s t] Cons.prems(2) t by simp
  have step': "\<And>y u u'. y \<in> set xs \<Longrightarrow> P u \<Longrightarrow> f y u = Inr u' \<Longrightarrow> P u'"
    using Cons.prems(1) by (meson list.set_intros(2))
  show ?case by (rule Cons.IH [OF step' \<open>P t\<close> rest])
qed

text \<open>
  A loop each of whose iterations appends one output related to its input produces one
  output per input, in order.
\<close>

lemma foldM_snoc_rel:
  assumes "\<And>x s s'. x \<in> set xs \<Longrightarrow> f x s = Inr s' \<Longrightarrow> \<exists>y. g s' = g s @ [y] \<and> R x y"
    and "foldM f xs s = Inr s'"
  shows "\<exists>ys. g s' = g s @ ys \<and> list_all2 R xs ys"
  using assms
proof (induction xs arbitrary: s)
  case Nil
  then show ?case by simp
next
  case (Cons x xs)
  from Cons.prems(2) obtain t where t: "f x s = Inr t" and rest: "foldM f xs t = Inr s'"
    by (auto simp: sbind_eq_Inr)
  from Cons.prems(1) [OF _ t] obtain y where y: "g t = g s @ [y]" "R x y" by auto
  from Cons.IH [OF _ rest] Cons.prems(1) obtain ys where "g s' = g t @ ys" "list_all2 R xs ys"
    by (meson list.set_intros(2))
  with y show ?case by (intro exI [of _ "y # ys"]) simp
qed

text \<open>A loop whose iterations never fail returns.\<close>

lemma foldM_total:
  assumes "\<And>x s. x \<in> set xs \<Longrightarrow> P s \<Longrightarrow> \<exists>s'. f x s = Inr s' \<and> P s'"
    and "P s"
  shows "\<exists>s'. foldM f xs s = Inr s' \<and> P s'"
  using assms
proof (induction xs arbitrary: s)
  case Nil
  then show ?case by simp
next
  case (Cons x xs)
  then obtain t where "f x s = Inr t" and "P t" by fastforce
  with Cons.IH [of t] Cons.prems(1) show ?case by simp
qed

lemma mapM_Inr_length: "mapM f xs = Inr ys \<Longrightarrow> length ys = length xs"
  by (induction xs arbitrary: ys) (auto simp: sbind_eq_Inr)

lemma mapM_map: "(\<And>x. x \<in> set xs \<Longrightarrow> f x = Inr (g x)) \<Longrightarrow> mapM f xs = Inr (map g xs)"
  by (induction xs) simp_all

lemma mapM_map_comp:
  "(\<And>y. y \<in> set ys \<Longrightarrow> f (h y) = Inr (g y)) \<Longrightarrow> mapM f (map h ys) = Inr (map g ys)"
  by (induction ys) simp_all

lemma mapM_total: "(\<And>x. x \<in> set xs \<Longrightarrow> \<exists>y. f x = Inr y) \<Longrightarrow> \<exists>ys. mapM f xs = Inr ys"
  by (induction xs) fastforce+

lemma mapM_Inr_mem: "mapM f xs = Inr ys \<Longrightarrow> x \<in> set xs \<Longrightarrow> \<exists>y\<in>set ys. f x = Inr y"
  by (induction xs arbitrary: ys) (auto simp: sbind_eq_Inr)

lemma mapM_concat_Inr:
  "mapM f xs = Inr ys \<Longrightarrow> mapM f xs' = Inr ys' \<Longrightarrow> mapM f (xs @ xs') = Inr (ys @ ys')"
  by (induction xs arbitrary: ys) (auto simp: sbind_eq_Inr)

lemma mapM_Inr_iff: "mapM f xs = Inr ys \<longleftrightarrow> list_all2 (\<lambda>x y. f x = Inr y) xs ys"
proof (induction xs arbitrary: ys)
  case (Cons x xs)
  then show ?case by (cases ys) (auto simp: sbind_eq_Inr)
qed auto

lemma mapM_Inl: "mapM f xs = Inl e \<Longrightarrow> \<exists>x\<in>set xs. f x = Inl e"
  by (induction xs) (auto simp: sbind_eq_Inl)

text \<open>A map whose function may give no result: no result for the list if none for an element.\<close>

fun omap :: "('a \<Rightarrow> 'b option) \<Rightarrow> 'a list \<Rightarrow> 'b list option" where
  "omap f [] = Some []"
| "omap f (x # xs) = (case f x of None \<Rightarrow> None | Some y \<Rightarrow> map_option (Cons y) (omap f xs))"

lemma omap_Some_iff: "omap f xs = Some ys \<longleftrightarrow> list_all2 (\<lambda>x y. f x = Some y) xs ys"
proof (induction xs arbitrary: ys)
  case (Cons x xs)
  then show ?case by (cases ys) (auto split: option.splits)
qed auto

lemma list_all2_set_right: "list_all2 P xs ys \<Longrightarrow> y \<in> set ys \<Longrightarrow> \<exists>x\<in>set xs. P x y"
  by (induction xs ys rule: list_all2_induct) auto

lemma omap_None_iff: "omap f xs = None \<longleftrightarrow> (\<exists>x\<in>set xs. f x = None)"
  by (induction xs) (auto split: option.splits)

lemma omap_map_comp:
  "(\<And>y. y \<in> set ys \<Longrightarrow> f (h y) = Some (g y)) \<Longrightarrow> omap f (map h ys) = Some (map g ys)"
  by (induction ys) simp_all

text \<open>Related lists: every element of the first with a property has a partner with another.\<close>

lemma list_all2_filter_length:
  assumes "list_all2 R xs ys" and "\<And>x y. R x y \<Longrightarrow> P x \<Longrightarrow> Q y"
  shows "length (filter P xs) \<le> length (filter Q ys)"
  using assms(1)
proof (induction rule: list_all2_induct)
  case (Cons x xs y ys)
  then show ?case using assms(2) [of x y] by auto
qed simp

section \<open>Decimal digits\<close>

definition digit_char :: "nat \<Rightarrow> char" where
  "digit_char d = ''0123456789'' ! d"

definition is_digit :: "char \<Rightarrow> bool" where
  "is_digit c \<longleftrightarrow> CHR ''0'' \<le> c \<and> c \<le> CHR ''9''"

definition digit_val :: "char \<Rightarrow> nat" where
  "digit_val c = of_char c - 48"

lemma digit_char_facts:
  assumes "d < 10"
  shows "digit_val (digit_char d) = d \<and> is_digit (digit_char d) \<and> digit_char d \<noteq> CHR ''-''"
proof -
  from assms have "d \<in> {0, 1, 2, 3, 4, 5, 6, 7, 8, 9}" by auto
  then show ?thesis by (auto simp: digit_char_def digit_val_def is_digit_def less_eq_char_def)
qed

lemma digit_val_char [simp]: "d < 10 \<Longrightarrow> digit_val (digit_char d) = d"
  and is_digit_char [simp]: "d < 10 \<Longrightarrow> is_digit (digit_char d)"
  and digit_char_not_minus [simp]: "d < 10 \<Longrightarrow> digit_char d \<noteq> CHR ''-''"
  by (simp_all add: digit_char_facts)

text \<open>\<^verbatim>\<open>String(n)\<close> for a non-negative integer: its decimal digits, no leading zeros.\<close>

fun show_nat :: "nat \<Rightarrow> string" where
  "show_nat n = (if n < 10 then [digit_char n] else show_nat (n div 10) @ [digit_char (n mod 10)])"

declare show_nat.simps [simp del]

lemma show_nat_digit: "n < 10 \<Longrightarrow> show_nat n = [digit_char n]"
  by (simp add: show_nat.simps)

definition read_nat :: "string \<Rightarrow> nat" where
  "read_nat s = foldl (\<lambda>acc c. 10 * acc + digit_val c) 0 s"

lemma show_nat_ne [simp]: "show_nat n \<noteq> []"
  by (subst show_nat.simps) simp

lemma show_nat_digits: "c \<in> set (show_nat n) \<Longrightarrow> is_digit c"
proof (induction n rule: show_nat.induct)
  case (1 n)
  then show ?case
    by (cases "n < 10") (auto simp: show_nat.simps [of n])
qed

lemma show_nat_no_minus [simp]: "CHR ''-'' \<notin> set (show_nat n)"
  using show_nat_digits [of "CHR ''-''" n] by (auto simp: is_digit_def less_eq_char_def)

lemma read_nat_snoc: "read_nat (s @ [c]) = 10 * read_nat s + digit_val c"
  by (simp add: read_nat_def)

theorem read_show_nat [simp]: "read_nat (show_nat n) = n"
proof (induction n rule: show_nat.induct)
  case (1 n)
  show ?case
  proof (cases "n < 10")
    case True
    then show ?thesis by (simp add: show_nat.simps [of n] read_nat_def)
  next
    case False
    with "1.IH" have "read_nat (show_nat (n div 10)) = n div 10" by simp
    with False show ?thesis by (simp add: show_nat.simps [of n] read_nat_snoc)
  qed
qed

lemma show_nat_inject [simp]: "show_nat m = show_nat n \<longleftrightarrow> m = n"
  by (metis read_show_nat)

text \<open>\<^verbatim>\<open>String(i)\<close> for an integer.\<close>

definition show_int :: "int \<Rightarrow> string" where
  "show_int i = (if i < 0 then CHR ''-'' # show_nat (nat (- i)) else show_nat (nat i))"

definition read_int :: "string \<Rightarrow> int" where
  "read_int s = (case s of c # r \<Rightarrow> if c = CHR ''-'' then - int (read_nat r) else int (read_nat s)
                         | [] \<Rightarrow> 0)"

lemma show_nat_hd_not_minus: "show_nat n = c # r \<Longrightarrow> c \<noteq> CHR ''-''"
  using show_nat_no_minus [of n] by (metis list.set_intros(1))

theorem read_show_int [simp]: "read_int (show_int i) = i"
proof (cases "i < 0")
  case True
  then show ?thesis by (simp add: show_int_def read_int_def)
next
  case False
  obtain c r where cr: "show_nat (nat i) = c # r"
    by (cases "show_nat (nat i)") simp_all
  then have "c \<noteq> CHR ''-''" by (rule show_nat_hd_not_minus)
  moreover have "read_nat (c # r) = nat i" using cr by (metis read_show_nat)
  ultimately show ?thesis using False cr by (simp add: show_int_def read_int_def)
qed

lemma show_int_inject [simp]: "show_int i = show_int j \<longleftrightarrow> i = j"
  by (metis read_show_int)

lemma show_int_digit: "0 \<le> i \<Longrightarrow> i < 10 \<Longrightarrow> show_int i = [digit_char (nat i)]"
  by (simp add: show_int_def show_nat_digit)

lemma show_int_ne [simp]: "show_int i \<noteq> []"
  by (simp add: show_int_def)

lemma show_int_nonneg [simp]: "0 \<le> i \<Longrightarrow> show_int i = show_nat (nat i)"
  by (simp add: show_int_def)

text \<open>A number printed before a \<open>-\<close> separator can be read back whatever follows.\<close>

lemma show_nat_append_not_minus [simp]:
  "show_nat n @ z \<noteq> CHR ''-'' # w" "CHR ''-'' # w \<noteq> show_nat n @ z"
  by (cases "show_nat n"; auto dest: show_nat_hd_not_minus)+

lemma takeWhile_show_nat: "takeWhile (\<lambda>c. c \<noteq> CHR ''-'') (show_nat n @ z) =
    show_nat n @ takeWhile (\<lambda>c. c \<noteq> CHR ''-'') z"
  by (rule takeWhile_append2) auto

lemma show_nat_sep_inject:
  assumes "show_nat m @ CHR ''-'' # x = show_nat n @ CHR ''-'' # y"
  shows "m = n"
proof -
  have "takeWhile (\<lambda>c. c \<noteq> CHR ''-'') (show_nat m @ CHR ''-'' # x) =
        takeWhile (\<lambda>c. c \<noteq> CHR ''-'') (show_nat n @ CHR ''-'' # y)" by (simp only: assms)
  then show ?thesis by (simp add: takeWhile_show_nat)
qed

lemma show_int_sep_inject: "show_int i @ CHR ''-'' # x = show_int j @ CHR ''-'' # y \<Longrightarrow> i = j"
  by (auto simp: show_int_def split: if_splits dest!: show_nat_sep_inject)

text \<open>
  A property name that is a canonical array index (the decimal form of a number below
  \<open>2^32 - 1\<close>): JavaScript orders such keys first, ascending, in \<^verbatim>\<open>Object.keys\<close>.
\<close>

definition array_index :: "string \<Rightarrow> nat option" where
  "array_index s =
     (if s \<noteq> [] \<and> (\<forall>c\<in>set s. is_digit c) \<and> show_nat (read_nat s) = s \<and> read_nat s < 4294967295
      then Some (read_nat s) else None)"

lemma array_index_show_nat [simp]:
  "array_index (show_nat n) = (if n < 4294967295 then Some n else None)"
  by (auto simp: array_index_def show_nat_digits)

lemma array_index_Some: "array_index s = Some n \<Longrightarrow> s = show_nat n"
  by (auto simp: array_index_def split: if_splits)

section \<open>Push if absent\<close>

text \<open>
  \<^verbatim>\<open>if (xs.indexOf(x) === -1) xs.push(x)\<close> on values compared by equality: the list keeps
  the first occurrence of each value, in the order first seen.
\<close>

definition push_new :: "'a \<Rightarrow> 'a list \<Rightarrow> 'a list" where
  "push_new x xs = (if x \<in> set xs then xs else xs @ [x])"

lemma set_push_new [simp]: "set (push_new x xs) = insert x (set xs)"
  by (auto simp: push_new_def)

lemma distinct_push_new [simp]: "distinct (push_new x xs) \<longleftrightarrow> distinct xs"
  by (simp add: push_new_def)

text \<open>
  \<open>remdups\<close> of the library keeps the last occurrence; the source keeps the first, which is
  \<open>dedup\<close>.
\<close>

definition dedup :: "'a list \<Rightarrow> 'a list" where
  "dedup xs = rev (remdups (rev xs))"

lemma set_dedup [simp]: "set (dedup xs) = set xs"
  and distinct_dedup [simp]: "distinct (dedup xs)"
  and dedup_Nil [simp]: "dedup [] = []"
  by (simp_all add: dedup_def)

lemma dedup_snoc: "dedup (xs @ [x]) = push_new x (dedup xs)"
  by (simp add: dedup_def push_new_def)

lemma dedup_distinct: "distinct xs \<Longrightarrow> dedup xs = xs"
  by (simp add: dedup_def distinct_remdups_id)

lemma fold_push_new: "fold push_new ys (dedup xs) = dedup (xs @ ys)"
proof (induction ys arbitrary: xs)
  case Nil
  then show ?case by simp
next
  case (Cons y ys)
  have "fold push_new (y # ys) (dedup xs) = fold push_new ys (dedup (xs @ [y]))"
    by (simp add: dedup_snoc)
  also have "\<dots> = dedup (xs @ y # ys)" using Cons.IH [of "xs @ [y]"] by simp
  finally show ?case .
qed

section \<open>Association lists with JavaScript property order\<close>

text \<open>
  \<^verbatim>\<open>o[k] = v\<close> on a JavaScript object: an existing key keeps its place, a new key goes
  last; \<^verbatim>\<open>delete o[k]\<close> removes it.
\<close>

definition aset :: "('k \<times> 'v) list \<Rightarrow> 'k \<Rightarrow> 'v \<Rightarrow> ('k \<times> 'v) list" where
  "aset ps k v =
     (if k \<in> set (map fst ps) then map (\<lambda>(k', v'). if k' = k then (k', v) else (k', v')) ps
      else ps @ [(k, v)])"

definition adelete :: "('k \<times> 'v) list \<Rightarrow> 'k \<Rightarrow> ('k \<times> 'v) list" where
  "adelete ps k = filter (\<lambda>(k', v'). k' \<noteq> k) ps"

lemma map_of_map_upd:
  "map_of (map (\<lambda>(k', v'). if k' = k then (k', v) else (k', v')) ps) x =
     (if x = k \<and> x \<in> set (map fst ps) then Some v else map_of ps x)"
  by (induction ps) (force simp: image_iff)+

lemma map_of_aset [simp]: "map_of (aset ps k v) x = (if x = k then Some v else map_of ps x)"
proof (cases "k \<in> set (map fst ps)")
  case True
  then show ?thesis by (simp add: aset_def map_of_map_upd)
next
  case False
  then have "map_of ps k = None" by (simp add: map_of_eq_None_iff)
  with False show ?thesis by (auto simp: aset_def map_add_def split: option.splits)
qed

lemma map_of_adelete [simp]: "map_of (adelete ps k) x = (if x = k then None else map_of ps x)"
  by (induction ps) (auto simp: adelete_def)

lemma keys_aset:
  "map fst (aset ps k v) = (if k \<in> set (map fst ps) then map fst ps else map fst ps @ [k])"
  by (induction ps) (auto simp: aset_def)

lemma keys_adelete: "map fst (adelete ps k) = filter (\<lambda>k'. k' \<noteq> k) (map fst ps)"
  by (induction ps) (auto simp: adelete_def)

lemma image_fst_aset [simp]: "fst ` set (aset ps k v) = insert k (fst ` set ps)"
proof -
  have "fst ` set (aset ps k v) = set (map fst (aset ps k v))" by (simp only: set_map)
  also have "\<dots> = set (if k \<in> set (map fst ps) then map fst ps else map fst ps @ [k])"
    by (simp only: keys_aset)
  also have "\<dots> = insert k (fst ` set ps)" by auto
  finally show ?thesis .
qed

lemma image_fst_adelete [simp]: "fst ` set (adelete ps k) = fst ` set ps - {k}"
proof -
  have "fst ` set (adelete ps k) = set (map fst (adelete ps k))" by (simp only: set_map)
  also have "\<dots> = set (filter (\<lambda>k'. k' \<noteq> k) (map fst ps))" by (simp only: keys_adelete)
  also have "\<dots> = fst ` set ps - {k}" by auto
  finally show ?thesis .
qed

lemma distinct_keys_aset [simp]: "distinct (map fst ps) \<Longrightarrow> distinct (map fst (aset ps k v))"
  by (simp add: keys_aset)

lemma distinct_keys_adelete [simp]: "distinct (map fst ps) \<Longrightarrow> distinct (map fst (adelete ps k))"
  by (simp add: keys_adelete)


text \<open>
  The value a run of assignments \<^verbatim>\<open>o[k] = v\<close> leaves at a key: that of the last
  assignment to it.
\<close>

definition last_value :: "('k \<times> 'v) list \<Rightarrow> 'k \<Rightarrow> 'v" where
  "last_value ps k = snd (last (filter (\<lambda>p. fst p = k) ps))"

lemma last_value_snoc [simp]: "last_value (ps @ [(k, v)]) x = (if x = k then v else last_value ps x)"
  by (simp add: last_value_def)

text \<open>
  An object built by assignments from \<^verbatim>\<open>{}\<close> holds one key per assigned key, in the order
  of first assignment, with the last value assigned to it.
\<close>

lemma fold_aset_last:
  "fold (\<lambda>(k, v) m. aset m k v) ps [] = map (\<lambda>k. (k, last_value ps k)) (dedup (map fst ps))"
proof (induction ps rule: rev_induct)
  case (snoc p ps)
  obtain k v where p: "p = (k, v)" by (cases p)
  show ?case
  proof (cases "k \<in> set (map fst ps)")
    case True
    then show ?thesis using snoc p by (simp add: aset_def dedup_snoc push_new_def comp_def image_image)
  next
    case False
    then have "\<forall>x\<in>set (dedup (map fst ps)). x \<noteq> k" by auto
    then show ?thesis using snoc p False by (simp add: aset_def dedup_snoc push_new_def comp_def image_image)
  qed
qed simp

end
