(* ===== verification/JsValue.thy ===== *)
theory JsValue
  imports Prelude
begin

text \<open>
  The JavaScript the pipeline runs on, as far as the source relies on it: the string
  built-ins it calls (\<^verbatim>\<open>split\<close>, \<^verbatim>\<open>join\<close>, \<^verbatim>\<open>replace\<close>, \<^verbatim>\<open>trim\<close>,
  \<^verbatim>\<open>toLowerCase\<close>, \<^verbatim>\<open>isNaN\<close> on strings), the values that flow through it (\<open>jval\<close>:
  database rows, parsed JSON, object literals), truthiness, strict equality, string
  conversion, the binary \<^verbatim>\<open>+\<close>, property access (which throws a \<^verbatim>\<open>TypeError\<close> on
  \<^verbatim>\<open>null\<close> and \<^verbatim>\<open>undefined\<close>), \<^verbatim>\<open>Object.keys\<close> and in-place object update.
  The third-party libraries (JSON, md5, moment) are not part of the repository: they are the
  fields of the record \<open>runtime\<close>, an interface every theorem is stated over, with the
  parts of moment's behaviour the claims depend on (what \<^verbatim>\<open>moment(undefined)\<close>,
  \<^verbatim>\<open>moment(null)\<close> and \<^verbatim>\<open>moment(number)\<close> return, what \<^verbatim>\<open>add(undefined)\<close> adds) written
  out from moment's source.

  Strings are byte strings (\<open>char list\<close>): \<^verbatim>\<open>length\<close> and indexing count bytes where
  JavaScript counts UTF-16 units, and white space is the ASCII white space. Numbers are
  integers or \<open>NaN\<close>; every number the code computes with (epoch seconds, months,
  days, identifiers, flags) is an integer in the source data.
\<close>

section \<open>String built-ins\<close>

text \<open>\<^verbatim>\<open>String.prototype.split(c)\<close> with a one-character separator.\<close>

fun js_split :: "char \<Rightarrow> string \<Rightarrow> string list" where
  "js_split c [] = [[]]"
| "js_split c (x # xs) = (let r = js_split c xs in if x = c then [] # r else (x # hd r) # tl r)"

text \<open>\<^verbatim>\<open>Array.prototype.join(sep)\<close> on strings.\<close>

fun js_join :: "string \<Rightarrow> string list \<Rightarrow> string" where
  "js_join sep [] = []"
| "js_join sep [x] = x"
| "js_join sep (x # y # ys) = x @ sep @ js_join sep (y # ys)"

lemma js_join_empty_sep: "js_join [] xs = concat xs"
  by (induction "[] :: string" xs rule: js_join.induct) simp_all

lemma js_split_ne [simp]: "js_split c s \<noteq> []"
  by (induction s) (simp_all add: Let_def)

lemma js_join_Cons: "xs \<noteq> [] \<Longrightarrow> js_join sep (x # xs) = x @ sep @ js_join sep xs"
  by (cases xs) simp_all

theorem js_join_split [simp]: "js_join [c] (js_split c s) = s"
proof (induction s)
  case Nil
  then show ?case by simp
next
  case (Cons x xs)
  obtain r rs where r: "js_split c xs = r # rs"
    by (cases "js_split c xs") simp_all
  with Cons.IH show ?case
    by (cases rs) (auto simp: Let_def)
qed

lemma js_split_no_sep: "c \<notin> set s \<Longrightarrow> js_split c s = [s]"
  by (induction s) (auto simp: Let_def)

lemma js_split_append_sep:
  "c \<notin> set s \<Longrightarrow> js_split c (s @ c # t) = s # js_split c t"
  by (induction s) (auto simp: Let_def)

theorem js_split_join:
  "xs \<noteq> [] \<Longrightarrow> (\<forall>x\<in>set xs. c \<notin> set x) \<Longrightarrow> js_split c (js_join [c] xs) = xs"
proof (induction xs)
  case Nil
  then show ?case by simp
next
  case (Cons x xs)
  show ?case
  proof (cases "xs = []")
    case True
    with Cons.prems show ?thesis by (simp add: js_split_no_sep)
  next
    case False
    have j: "js_join [c] (x # xs) = x @ c # js_join [c] xs"
      using False by (simp add: js_join_Cons)
    have "js_split c (js_join [c] xs) = xs" using Cons.IH False Cons.prems(2) by simp
    moreover have "c \<notin> set x" using Cons.prems(2) by simp
    ultimately show ?thesis using j by (simp add: js_split_append_sep)
  qed
qed

text \<open>\<^verbatim>\<open>String.prototype.replace(pat, rep)\<close> with a string pattern: the first occurrence only.\<close>

fun replace_first :: "string \<Rightarrow> string \<Rightarrow> string \<Rightarrow> string" where
  "replace_first pat rep [] = (if pat = [] then rep else [])"
| "replace_first pat rep (c # cs) =
     (if take (length pat) (c # cs) = pat then rep @ drop (length pat) (c # cs)
      else c # replace_first pat rep cs)"

lemma replace_first_prefix [simp]: "replace_first pat rep (pat @ s) = rep @ s"
proof (cases "pat @ s")
  case Nil
  then show ?thesis by simp
next
  case (Cons a l)
  then have "take (length pat) (a # l) = pat" "drop (length pat) (a # l) = s"
    by (metis append_eq_conv_conj)+
  with Cons show ?thesis by simp
qed

text \<open>JavaScript white space and line terminators, restricted to ASCII.\<close>

definition js_ws :: "char \<Rightarrow> bool" where
  "js_ws c \<longleftrightarrow> c \<in> set [CHR 0x09, CHR 0x0A, CHR 0x0B, CHR 0x0C, CHR 0x0D, CHR 0x20]"

definition js_trim :: "string \<Rightarrow> string" where
  "js_trim s = rev (dropWhile js_ws (rev (dropWhile js_ws s)))"

text \<open>\<^verbatim>\<open>String.prototype.toLowerCase\<close>, restricted to ASCII letters.\<close>

definition ascii_lower :: "char \<Rightarrow> char" where
  "ascii_lower c = (if CHR ''A'' \<le> c \<and> c \<le> CHR ''Z'' then char_of (of_char c + (32::nat)) else c)"

definition js_lower :: "string \<Rightarrow> string" where
  "js_lower s = map ascii_lower s"

subsection \<open>Numeric strings\<close>

text \<open>
  \<^verbatim>\<open>isNaN(s)\<close> for a string \<open>s\<close> is true exactly when \<open>s\<close> is not a
  \<^emph>\<open>StringNumericLiteral\<close> of ECMA-262 (\<section>7.1.4.1.1): optional white space around
  nothing at all, \<^verbatim>\<open>Infinity\<close>, a signed decimal literal with optional fraction and
  exponent, or an unsigned binary, octal or hexadecimal integer literal.
\<close>

definition is_hex :: "char \<Rightarrow> bool" where
  "is_hex c \<longleftrightarrow> is_digit c \<or> c \<in> set ''abcdefABCDEF''"

definition digits1 :: "(char \<Rightarrow> bool) \<Rightarrow> string \<Rightarrow> bool" where
  "digits1 p s \<longleftrightarrow> s \<noteq> [] \<and> list_all p s"

fun exponent_ok :: "string \<Rightarrow> bool" where
  "exponent_ok [] = True"
| "exponent_ok (e # r) =
     (e \<in> set ''eE'' \<and>
      (case r of s # r' \<Rightarrow> if s \<in> set ''+-'' then digits1 is_digit r' else digits1 is_digit r
               | [] \<Rightarrow> False))"

definition unsigned_decimal :: "string \<Rightarrow> bool" where
  "unsigned_decimal s \<longleftrightarrow>
     s = ''Infinity'' \<or>
     (let a = takeWhile is_digit s; r = dropWhile is_digit s in
      case r of
        c # r1 \<Rightarrow>
          if c = CHR ''.'' then
            (a \<noteq> [] \<or> takeWhile is_digit r1 \<noteq> []) \<and> exponent_ok (dropWhile is_digit r1)
          else a \<noteq> [] \<and> exponent_ok r
      | [] \<Rightarrow> a \<noteq> [])"

definition signed_decimal :: "string \<Rightarrow> bool" where
  "signed_decimal s \<longleftrightarrow>
     (case s of c # r \<Rightarrow> if c \<in> set ''+-'' then unsigned_decimal r else unsigned_decimal s
              | [] \<Rightarrow> False)"

definition non_decimal :: "string \<Rightarrow> bool" where
  "non_decimal s \<longleftrightarrow>
     (case s of
        z # x # ds \<Rightarrow> z = CHR ''0'' \<and>
          (if x \<in> set ''bB'' then digits1 (\<lambda>c. c \<in> set ''01'') ds
           else if x \<in> set ''oO'' then digits1 (\<lambda>c. c \<in> set ''01234567'') ds
           else if x \<in> set ''xX'' then digits1 is_hex ds
           else False)
      | _ \<Rightarrow> False)"

definition js_numeric_string :: "string \<Rightarrow> bool" where
  "js_numeric_string s \<longleftrightarrow>
     (let t = js_trim s in t = [] \<or> signed_decimal t \<or> non_decimal t)"

definition js_isNaN_string :: "string \<Rightarrow> bool" where
  "js_isNaN_string s \<longleftrightarrow> \<not> js_numeric_string s"

lemma digits_numeric:
  "digits1 is_digit s \<Longrightarrow> js_numeric_string s"
proof -
  assume d: "digits1 is_digit s"
  then have ws: "list_all (\<lambda>c. \<not> js_ws c) s"
    by (auto simp: digits1_def list_all_iff is_digit_def js_ws_def less_eq_char_def)
  then have "dropWhile js_ws s = s" and "dropWhile js_ws (rev s) = rev s"
    by (cases s, simp_all add: list_all_iff, cases "rev s", auto simp: list_all_iff)
  then have t: "js_trim s = s" by (simp add: js_trim_def)
  from d have tw: "takeWhile is_digit s = s" and dw: "dropWhile is_digit s = []"
    by (simp_all add: digits1_def list_all_iff)
  have "unsigned_decimal s"
    unfolding unsigned_decimal_def Let_def tw dw using d by (simp add: digits1_def)
  moreover obtain c r where "s = c # r" using d by (cases s) (auto simp: digits1_def)
  moreover have "c \<notin> set ''+-''"
    using d \<open>s = c # r\<close> by (auto simp: digits1_def is_digit_def less_eq_char_def)
  ultimately show ?thesis using t by (simp add: js_numeric_string_def signed_decimal_def)
qed

lemma show_nat_numeric [simp]: "js_numeric_string (show_nat n)"
  by (rule digits_numeric) (auto simp: digits1_def list_all_iff show_nat_digits)

section \<open>Values\<close>

text \<open>
  The values that reach the code: \<^verbatim>\<open>undefined\<close>, \<^verbatim>\<open>null\<close>, booleans, numbers
  (\<open>JNaN\<close> is \<^verbatim>\<open>NaN\<close>), strings, \<^verbatim>\<open>Date\<close> objects as the MySQL driver returns
  them for date columns (their time value in milliseconds; \<open>None\<close> is an invalid date),
  arrays and plain objects. An object is its list of own properties in insertion order.
\<close>

datatype jval =
    JUndef
  | JNull
  | JBool bool
  | JNum int
  | JNaN
  | JStr string
  | JDate "int option"
  | JArr "jval list"
  | JObj "(string \<times> jval) list"

type_synonym jobj = "(string \<times> jval) list"

text \<open>The exceptions the code can raise (or rethrow) on its fatal paths.\<close>

datatype js_error =
    TypeError string
  | JsonSyntaxError string
  | NotUniqueHash string
  | RangeError string
  | SqlError string

text \<open>
  The libraries the source calls, as an interface: \<^verbatim>\<open>JSON.parse\<close> (\<open>None\<close> is a
  \<^verbatim>\<open>SyntaxError\<close>), \<^verbatim>\<open>JSON.stringify\<close>, the \<^verbatim>\<open>md5\<close> package, the conversion of a
  string to a number (\<open>None\<close> is \<^verbatim>\<open>NaN\<close>), \<^verbatim>\<open>Date.prototype.toString\<close>, and
  the parts of moment that depend on the calendar, the clock or on string parsing.
\<close>

record runtime =
  json_parse :: "string \<Rightarrow> jval option"
  json_stringify :: "jval \<Rightarrow> string"
  md5 :: "string \<Rightarrow> string"
  string_to_number :: "string \<Rightarrow> int option"
  date_to_string :: "int option \<Rightarrow> string"
  moment_now :: int
  moment_parse :: "jval \<Rightarrow> int option"
  moment_parse_ymd :: "string \<Rightarrow> int option"
  moment_duration :: "jval \<Rightarrow> int"
  moment_add_year :: "int \<Rightarrow> int"
  moment_subtract_day :: "int \<Rightarrow> int"
  moment_iso :: "int \<Rightarrow> string"
  moment_utc_parse :: "jval \<Rightarrow> int option"
  moment_format_ymd :: "int \<Rightarrow> string"

subsection \<open>Truthiness and strict equality\<close>

fun js_truthy :: "jval \<Rightarrow> bool" where
  "js_truthy JUndef = False"
| "js_truthy JNull = False"
| "js_truthy (JBool b) = b"
| "js_truthy (JNum n) = (n \<noteq> 0)"
| "js_truthy JNaN = False"
| "js_truthy (JStr s) = (s \<noteq> [])"
| "js_truthy (JDate d) = True"
| "js_truthy (JArr xs) = True"
| "js_truthy (JObj ps) = True"

text \<open>
  \<^verbatim>\<open>===\<close>. Arrays, objects and dates compare by reference; every one the code compares
  is a separate allocation (a fresh parse result), so they are never strictly equal.
\<close>

fun js_strict_eq :: "jval \<Rightarrow> jval \<Rightarrow> bool" where
  "js_strict_eq JUndef JUndef = True"
| "js_strict_eq JNull JNull = True"
| "js_strict_eq (JBool a) (JBool b) = (a = b)"
| "js_strict_eq (JNum a) (JNum b) = (a = b)"
| "js_strict_eq (JStr a) (JStr b) = (a = b)"
| "js_strict_eq _ _ = False"

text \<open>\<^verbatim>\<open>xs.indexOf(x) !== -1\<close>, and the push-if-absent idiom over it.\<close>

definition js_includes :: "jval list \<Rightarrow> jval \<Rightarrow> bool" where
  "js_includes xs x \<longleftrightarrow> list_ex (\<lambda>y. js_strict_eq y x) xs"

definition js_push_new :: "jval \<Rightarrow> jval list \<Rightarrow> jval list" where
  "js_push_new x xs = (if js_includes xs x then xs else xs @ [x])"

lemma js_strict_eq_sym: "js_strict_eq a b = js_strict_eq b a"
  by (cases a; cases b) auto

lemma js_push_new_set: "set (js_push_new x xs) \<subseteq> insert x (set xs)"
  and js_push_new_mem: "x \<in> set (js_push_new x xs) \<or> js_includes xs x"
  by (auto simp: js_push_new_def)

text \<open>
  The list built by the idiom never holds two strictly equal values: for primitive values
  (the ones \<open>===\<close> can identify) it is free of duplicates.
\<close>

definition js_distinct :: "jval list \<Rightarrow> bool" where
  "js_distinct xs \<longleftrightarrow> (\<forall>i j. i < j \<and> j < length xs \<longrightarrow> \<not> js_strict_eq (xs ! i) (xs ! j))"

lemma js_distinct_push_new [simp]: "js_distinct xs \<Longrightarrow> js_distinct (js_push_new x xs)"
  unfolding js_distinct_def js_push_new_def js_includes_def list_ex_iff
  by (auto simp: nth_append less_Suc_eq js_strict_eq_sym)

lemma js_strict_eq_eq: "js_strict_eq a b \<Longrightarrow> a = b"
  by (cases a; cases b) auto

lemma set_js_push_new [simp]: "set (js_push_new x xs) = insert x (set xs)"
  by (auto simp: js_push_new_def js_includes_def list_ex_iff dest: js_strict_eq_eq)

lemma js_distinct_Cons:
  "js_distinct (x # xs) \<longleftrightarrow> (\<forall>y\<in>set xs. \<not> js_strict_eq x y) \<and> js_distinct xs"
proof
  assume H: "js_distinct (x # xs)"
  have "\<not> js_strict_eq x (xs ! j)" if "j < length xs" for j
    using H that unfolding js_distinct_def by (metis Suc_mono length_Cons nth_Cons_0 nth_Cons_Suc zero_less_Suc)
  moreover have "js_distinct xs"
    using H unfolding js_distinct_def by (metis Suc_mono length_Cons nth_Cons_Suc)
  ultimately show "(\<forall>y\<in>set xs. \<not> js_strict_eq x y) \<and> js_distinct xs"
    by (auto simp: in_set_conv_nth)
next
  assume A: "(\<forall>y\<in>set xs. \<not> js_strict_eq x y) \<and> js_distinct xs"
  show "js_distinct (x # xs)" unfolding js_distinct_def
  proof (intro allI impI)
    fix i j assume ij: "i < j \<and> j < length (x # xs)"
    then obtain j' where j: "j = Suc j'" "j' < length xs" by (cases j) auto
    show "\<not> js_strict_eq ((x # xs) ! i) ((x # xs) ! j)"
    proof (cases i)
      case 0
      then show ?thesis using A j nth_mem by fastforce
    next
      case (Suc i')
      then show ?thesis using A j ij unfolding js_distinct_def by auto
    qed
  qed
qed

text \<open>
  Only values strictly equal to themselves can be identified by \<^verbatim>\<open>===\<close>, and on them it
  is equality: a list is free of strictly equal pairs when those of its elements have no
  duplicates. The condition therefore depends on the multiset of the elements only.
\<close>

lemma js_distinct_filter: "js_distinct xs \<longleftrightarrow> distinct (filter (\<lambda>v. js_strict_eq v v) xs)"
proof (induction xs)
  case Nil
  then show ?case by (simp add: js_distinct_def)
next
  case (Cons x xs)
  have "(\<forall>y\<in>set xs. \<not> js_strict_eq x y) \<longleftrightarrow> (js_strict_eq x x \<longrightarrow> x \<notin> set xs)"
    by (auto dest: js_strict_eq_eq)
  then show ?case using Cons by (simp add: js_distinct_Cons)
qed

lemma js_distinct_mset: "mset xs = mset ys \<Longrightarrow> js_distinct xs \<longleftrightarrow> js_distinct ys"
  unfolding js_distinct_filter
  by (metis mset_filter mset_eq_imp_distinct_iff)

subsection \<open>Conversion to string\<close>

text \<open>
  \<^verbatim>\<open>String(v)\<close>; an array converts by \<^verbatim>\<open>join(',')\<close>, in which \<^verbatim>\<open>null\<close> and
  \<^verbatim>\<open>undefined\<close> elements become empty strings.
\<close>

fun js_to_string :: "runtime \<Rightarrow> jval \<Rightarrow> string" where
  "js_to_string rt JUndef = ''undefined''"
| "js_to_string rt JNull = ''null''"
| "js_to_string rt (JBool b) = (if b then ''true'' else ''false'')"
| "js_to_string rt (JNum n) = show_int n"
| "js_to_string rt JNaN = ''NaN''"
| "js_to_string rt (JStr s) = s"
| "js_to_string rt (JDate d) = date_to_string rt d"
| "js_to_string rt (JArr xs) =
     js_join '','' (map (\<lambda>v. if v = JUndef \<or> v = JNull then [] else js_to_string rt v) xs)"
| "js_to_string rt (JObj ps) = ''[object Object]''"

text \<open>\<^verbatim>\<open>Array.prototype.join(sep)\<close> on any values.\<close>

definition js_array_join :: "runtime \<Rightarrow> string \<Rightarrow> jval list \<Rightarrow> string" where
  "js_array_join rt sep xs =
     js_join sep (map (\<lambda>v. if v = JUndef \<or> v = JNull then [] else js_to_string rt v) xs)"

text \<open>\<^verbatim>\<open>ToPrimitive\<close>: arrays, objects and dates become their string form.\<close>

fun js_to_primitive :: "runtime \<Rightarrow> jval \<Rightarrow> jval" where
  "js_to_primitive rt (JArr xs) = JStr (js_to_string rt (JArr xs))"
| "js_to_primitive rt (JObj ps) = JStr (js_to_string rt (JObj ps))"
| "js_to_primitive rt (JDate d) = JStr (js_to_string rt (JDate d))"
| "js_to_primitive rt v = v"

text \<open>\<^verbatim>\<open>ToNumber\<close> (\<open>None\<close> is \<^verbatim>\<open>NaN\<close>), the unary \<^verbatim>\<open>+\<close>.\<close>

fun js_to_number :: "runtime \<Rightarrow> jval \<Rightarrow> int option" where
  "js_to_number rt JUndef = None"
| "js_to_number rt JNull = Some 0"
| "js_to_number rt (JBool b) = Some (if b then 1 else 0)"
| "js_to_number rt (JNum n) = Some n"
| "js_to_number rt JNaN = None"
| "js_to_number rt (JStr s) = string_to_number rt s"
| "js_to_number rt v = string_to_number rt (js_to_string rt v)"

fun is_JStr :: "jval \<Rightarrow> bool" where
  "is_JStr (JStr s) = True"
| "is_JStr v = False"

text \<open>The binary \<^verbatim>\<open>+\<close>: concatenation as soon as one operand is a string.\<close>

definition js_add :: "runtime \<Rightarrow> jval \<Rightarrow> jval \<Rightarrow> jval" where
  "js_add rt a b =
     (let pa = js_to_primitive rt a; pb = js_to_primitive rt b in
      if is_JStr pa \<or> is_JStr pb then JStr (js_to_string rt pa @ js_to_string rt pb)
      else (case (js_to_number rt pa, js_to_number rt pb) of
              (Some x, Some y) \<Rightarrow> JNum (x + y)
            | _ \<Rightarrow> JNaN))"

lemma js_to_string_primitive [simp]: "js_to_string rt (js_to_primitive rt v) = js_to_string rt v"
  by (cases v) simp_all

lemma js_add_string_right [simp]:
  "js_add rt a (JStr s) = JStr (js_to_string rt a @ s)"
  by (simp add: js_add_def Let_def)

lemma js_add_num [simp]: "js_add rt (JNum a) (JNum b) = JNum (a + b)"
  by (simp add: js_add_def)

subsection \<open>Objects\<close>

definition obj_get :: "jobj \<Rightarrow> string \<Rightarrow> jval" where
  "obj_get ps k = (case map_of ps k of Some v \<Rightarrow> v | None \<Rightarrow> JUndef)"

abbreviation obj_set :: "jobj \<Rightarrow> string \<Rightarrow> jval \<Rightarrow> jobj" where
  "obj_set \<equiv> aset"

abbreviation obj_delete :: "jobj \<Rightarrow> string \<Rightarrow> jobj" where
  "obj_delete \<equiv> adelete"

lemma obj_get_set [simp]: "obj_get (obj_set ps k v) x = (if x = k then v else obj_get ps x)"
  by (simp add: obj_get_def)

lemma obj_get_delete [simp]: "obj_get (obj_delete ps k) x = (if x = k then JUndef else obj_get ps x)"
  by (simp add: obj_get_def)


text \<open>
  \<^verbatim>\<open>Object.keys\<close> of an ordinary object: the keys that are array indices first, in
  ascending numeric order, then the other keys in insertion order.
\<close>

definition js_own_keys :: "string list \<Rightarrow> string list" where
  "js_own_keys ks =
     sort_key (\<lambda>k. the (array_index k)) (filter (\<lambda>k. array_index k \<noteq> None) ks) @
     filter (\<lambda>k. array_index k = None) ks"

lemma set_js_own_keys [simp]: "set (js_own_keys ks) = set ks"
  by (auto simp: js_own_keys_def)

lemma length_js_own_keys [simp]: "length (js_own_keys ks) = length ks"
  using sum_length_filter_compl [of "\<lambda>k. array_index k \<noteq> None" ks]
  by (simp add: js_own_keys_def)

subsection \<open>Property access\<close>

text \<open>
  \<^verbatim>\<open>v[k]\<close> and \<^verbatim>\<open>v.k\<close>: a \<^verbatim>\<open>TypeError\<close> on \<^verbatim>\<open>null\<close> and \<^verbatim>\<open>undefined\<close>;
  an own property of an object; the length or an element of an array or a string; and
  \<^verbatim>\<open>undefined\<close> on every other value. None of the property names the code reads is
  inherited from \<^verbatim>\<open>Object.prototype\<close>.
\<close>

definition js_get :: "jval \<Rightarrow> string \<Rightarrow> js_error + jval" where
  "js_get v k =
     (case v of
        JUndef \<Rightarrow> Inl (TypeError (''Cannot read properties of undefined (reading '' @ k @ '')''))
      | JNull \<Rightarrow> Inl (TypeError (''Cannot read properties of null (reading '' @ k @ '')''))
      | JObj ps \<Rightarrow> Inr (obj_get ps k)
      | JArr xs \<Rightarrow> Inr (if k = ''length'' then JNum (int (length xs))
                       else case array_index k of
                              Some i \<Rightarrow> if i < length xs then xs ! i else JUndef
                            | None \<Rightarrow> JUndef)
      | JStr s \<Rightarrow> Inr (if k = ''length'' then JNum (int (length s))
                      else case array_index k of
                             Some i \<Rightarrow> if i < length s then JStr [s ! i] else JUndef
                           | None \<Rightarrow> JUndef)
      | _ \<Rightarrow> Inr JUndef)"

lemma js_get_obj [simp]: "js_get (JObj ps) k = Inr (obj_get ps k)"
  by (simp add: js_get_def)

lemma js_get_length [simp]:
  "js_get (JArr xs) ''length'' = Inr (JNum (int (length xs)))"
  "js_get (JStr s) ''length'' = Inr (JNum (int (length s)))"
  by (simp_all add: js_get_def)

lemma js_get_arr_index [simp]:
  "i < 4294967295 \<Longrightarrow> js_get (JArr xs) (show_nat i) = Inr (if i < length xs then xs ! i else JUndef)"
proof -
  assume "i < 4294967295"
  moreover have "show_nat i \<noteq> ''length''"
    using show_nat_digits [of "CHR ''l''" i] by (auto simp: is_digit_def less_eq_char_def)
  ultimately show ?thesis by (simp add: js_get_def)
qed

lemma js_get_fails: "js_get v k = Inl e \<longleftrightarrow> (v = JUndef \<or> v = JNull) \<and>
    e = TypeError (''Cannot read properties of '' @ (if v = JNull then ''null'' else ''undefined'') @
                   '' (reading '' @ k @ '')'')"
  by (cases v) (auto simp: js_get_def)

text \<open>\<^verbatim>\<open>Object.keys(v)\<close>.\<close>

definition js_keys :: "jval \<Rightarrow> js_error + string list" where
  "js_keys v =
     (case v of
        JUndef \<Rightarrow> Inl (TypeError ''Cannot convert undefined or null to object'')
      | JNull \<Rightarrow> Inl (TypeError ''Cannot convert undefined or null to object'')
      | JObj ps \<Rightarrow> Inr (js_own_keys (map fst ps))
      | JArr xs \<Rightarrow> Inr (map show_nat [0..<length xs])
      | JStr s \<Rightarrow> Inr (map show_nat [0..<length s])
      | _ \<Rightarrow> Inr [])"

text \<open>\<^verbatim>\<open>v.forEach(...)\<close>: only arrays have the method.\<close>

definition js_elements :: "jval \<Rightarrow> js_error + jval list" where
  "js_elements v =
     (case v of JArr xs \<Rightarrow> Inr xs | _ \<Rightarrow> Inl (TypeError ''forEach is not a function''))"

text \<open>\<^verbatim>\<open>v.trim()\<close>: only strings have the method.\<close>

definition js_trim_call :: "jval \<Rightarrow> js_error + string" where
  "js_trim_call v =
     (case v of
        JStr s \<Rightarrow> Inr (js_trim s)
      | JUndef \<Rightarrow> Inl (TypeError ''Cannot read properties of undefined (reading trim)'')
      | JNull \<Rightarrow> Inl (TypeError ''Cannot read properties of null (reading trim)'')
      | _ \<Rightarrow> Inl (TypeError ''trim is not a function''))"

lemma js_trim_call_Inr [simp]: "js_trim_call v = Inr t \<longleftrightarrow> (\<exists>s. v = JStr s \<and> t = js_trim s)"
  by (cases v) (auto simp: js_trim_call_def)

lemma js_elements_Inr [simp]: "js_elements v = Inr xs \<longleftrightarrow> v = JArr xs"
  by (cases v) (auto simp: js_elements_def)

section \<open>moment\<close>

text \<open>
  A moment is its time value in milliseconds, \<open>None\<close> when it is invalid. A \<^verbatim>\<open>Date\<close>
  holds time values up to \<open>8.64 \<cdot> 10^15\<close> in magnitude.
\<close>

definition valid_time :: "int \<Rightarrow> int option" where
  "valid_time n = (if \<bar>n\<bar> \<le> 8640000000000000 then Some n else None)"

text \<open>
  \<^verbatim>\<open>moment(v)\<close>: \<^verbatim>\<open>undefined\<close>, an empty array and an empty object give the
  current time; \<^verbatim>\<open>null\<close> and the empty string an invalid moment; a number that many
  milliseconds; a date its own time value; everything else is parsed by the library.
\<close>

definition moment_from :: "int \<Rightarrow> (jval \<Rightarrow> int option) \<Rightarrow> jval \<Rightarrow> int option" where
  "moment_from now parse v =
     (case v of
        JUndef \<Rightarrow> Some now
      | JNull \<Rightarrow> None
      | JNum n \<Rightarrow> valid_time n
      | JNaN \<Rightarrow> None
      | JDate d \<Rightarrow> d
      | JStr s \<Rightarrow> if s = [] then None else parse v
      | JArr xs \<Rightarrow> if xs = [] then Some now else parse v
      | JObj ps \<Rightarrow> if ps = [] then Some now else parse v
      | JBool b \<Rightarrow> parse v)"

definition moment_of :: "runtime \<Rightarrow> jval \<Rightarrow> int option" where
  "moment_of rt v = moment_from (moment_now rt) (moment_parse rt) v"

text \<open>
  \<^verbatim>\<open>moment.utc(v)\<close> (\<^verbatim>\<open>src/import.js\<close> binds \<^verbatim>\<open>moment\<close> to it): the same cases,
  with strings that carry no offset read as UTC.
\<close>

definition moment_utc_of :: "runtime \<Rightarrow> jval \<Rightarrow> int option" where
  "moment_utc_of rt v = moment_from (moment_now rt) (moment_utc_parse rt) v"

text \<open>\<^verbatim>\<open>m.toISOString()\<close>: \<^verbatim>\<open>null\<close> (\<open>None\<close>) for an invalid moment.\<close>

definition moment_iso_of :: "runtime \<Rightarrow> int option \<Rightarrow> string option" where
  "moment_iso_of rt m = map_option (moment_iso rt) m"

text \<open>
  \<^verbatim>\<open>m.add(v)\<close> with no unit: \<^verbatim>\<open>moment.duration(v)\<close> milliseconds, where a number is
  itself and \<^verbatim>\<open>null\<close> and \<^verbatim>\<open>undefined\<close> are the zero duration; an invalid moment
  stays invalid.
\<close>

definition duration_ms :: "runtime \<Rightarrow> jval \<Rightarrow> int" where
  "duration_ms rt v = (case v of JNum n \<Rightarrow> n | JUndef \<Rightarrow> 0 | JNull \<Rightarrow> 0 | _ \<Rightarrow> moment_duration rt v)"

definition moment_add :: "runtime \<Rightarrow> jval \<Rightarrow> int option \<Rightarrow> int option" where
  "moment_add rt v m = map_option (\<lambda>t. t + duration_ms rt v) m"

lemmas js_value_simps [pipeline_simps] =
  moment_of_def moment_from_def moment_utc_of_def moment_iso_of_def duration_ms_def moment_add_def valid_time_def
  js_trim_call_def js_elements_def js_keys_def js_push_new_def js_includes_def

section \<open>A sample runtime\<close>

text \<open>
  A concrete instance of the library interface, used to evaluate the examples that
  witness the theorems: JSON text is never parsed, \<^verbatim>\<open>md5\<close> is the identity on the
  serialised entry, a year is 365 days, ISO strings are the decimal time value, the UTC
  parser of the importer (\<^verbatim>\<open>require('moment').utc\<close>) reads a non-empty digit string as a
  time value, and a formatted day is the decimal day number.
\<close>

definition sample_runtime :: runtime where
  "sample_runtime =
     \<lparr>json_parse = (\<lambda>s. None),
      json_stringify = (\<lambda>v. js_to_string \<lparr>json_parse = (\<lambda>s. None), json_stringify = (\<lambda>v. []),
                           md5 = id, string_to_number = (\<lambda>s. None), date_to_string = (\<lambda>d. []),
                           moment_now = 0, moment_parse = (\<lambda>v. None), moment_parse_ymd = (\<lambda>s. None),
                           moment_duration = (\<lambda>v. 0), moment_add_year = id,
                           moment_subtract_day = id, moment_iso = show_int,
                           moment_utc_parse = (\<lambda>v. None), moment_format_ymd = show_int\<rparr> v),
      md5 = id,
      string_to_number = (\<lambda>s. if s \<noteq> [] \<and> list_all is_digit s then Some (int (read_nat s)) else None),
      date_to_string = (\<lambda>d. ''Invalid Date''),
      moment_now = 1700000000000,
      moment_parse = (\<lambda>v. None),
      moment_parse_ymd = (\<lambda>s. if s = ''2020-1-1'' then Some 1577836800000 else None),
      moment_duration = (\<lambda>v. 0),
      moment_add_year = (\<lambda>t. t + 31536000000),
      moment_subtract_day = (\<lambda>t. t - 86400000),
      moment_iso = show_int,
      moment_utc_parse = (\<lambda>v. case v of
          JStr s \<Rightarrow> if s \<noteq> [] \<and> list_all is_digit s then Some (int (read_nat s)) else None
        | _ \<Rightarrow> None),
      moment_format_ymd = (\<lambda>t. show_int (t div 86400000))\<rparr>"

end
