(* ===== verification/QueryAssembler.thy ===== *)
theory QueryAssembler
  imports JsValue
begin

text \<open>
  The Schema Discoverer and the Query Assembler of \<^verbatim>\<open>src/export/index.js\<close>: the static
  field lists (\<^verbatim>\<open>fields\<close>), the short name of a custom-value table
  (\<^verbatim>\<open>custom_table_name\<close>), the column namespacing (\<^verbatim>\<open>custom_table_column_namespace\<close>),
  the field lists of the custom tables (\<^verbatim>\<open>custom_table_fields\<close>), the joining of a query
  array into SQL text (\<^verbatim>\<open>query\<close>), the discovery of the custom-table schema from the
  catalog results (with its specification \<open>schema_spec\<close>, the mapping re-assembled by
  table name), and the wide contact query of \<^verbatim>\<open>execute\<close>.
\<close>

section \<open>Static field lists\<close>

definition fields_names :: "string \<Rightarrow> string list option" where
  "fields_names t = map_of
     [(''contact'', [''id'', ''source'', ''first_name'', ''last_name'', ''prefix_id'', ''suffix_id'',
                     ''job_title'', ''gender_id'', ''birth_date'']),
      (''email'', [''contact_id'', ''email'']),
      (''address'', [''contact_id'', ''street_address'', ''supplemental_address_1'',
                     ''supplemental_address_2'', ''city'', ''postal_code'', ''state_province_id'',
                     ''country_id'']),
      (''phone'', [''contact_id'', ''phone'']),
      (''group_contact'', [''contact_id'', ''group_id'']),
      (''group'', [''id'', ''title'']),
      (''custom_group'', [''id'', ''name'', ''table_name''])] t"

text \<open>\<^verbatim>\<open>fields(table, tableName)\<close>: \<open>table\<close> is an array of table names or one name.\<close>

datatype field_tables = Tables "string list" | Table string

definition fields_of :: "string \<Rightarrow> js_error + string list" where
  "fields_of t = (case fields_names t of
                    Some fs \<Rightarrow> Inr fs
                  | None \<Rightarrow> Inl (TypeError ''Cannot read properties of undefined (reading forEach)''))"

fun fields :: "field_tables \<Rightarrow> string \<Rightarrow> js_error + string" where
  "fields (Tables ts) tableName =
     sbind (mapM (\<lambda>t. sbind (fields_of t)
                      (\<lambda>fs. Inr (map (\<lambda>f. t @ ''.'' @ f) (filter (\<lambda>f. f \<noteq> ''contact_id'') fs)))) ts)
       (\<lambda>outs. Inr (js_join '','' (concat outs)))"
| "fields (Table t) tableName =
     (let tn = (if tableName = [] then t else tableName) in
      sbind (fields_of t) (\<lambda>fs. Inr (js_join '','' (map (\<lambda>f. tn @ ''.'' @ f) fs))))"

text \<open>\<^verbatim>\<open>query(q)\<close>: the lines joined by newlines, with a final semicolon.\<close>

definition query_text :: "string list \<Rightarrow> string" where
  "query_text q = js_join [CHR 0x0A] q @ '';''"

section \<open>Namespacing\<close>

text \<open>
  \<^verbatim>\<open>custom_table_name(name)\<close>: drop the first occurrence of \<^verbatim>\<open>civicrm_value_\<close>, split
  at underscores, drop the last part, and join the rest with nothing between.
\<close>

definition custom_table_name :: "string \<Rightarrow> string" where
  "custom_table_name name =
     js_join [] (butlast (js_split CHR ''_'' (replace_first ''civicrm_value_'' [] name)))"

text \<open>
  \<^verbatim>\<open>custom_table_column_namespace(input)\<close> on \<^verbatim>\<open>table.column\<close>: drop the last
  underscore-separated part of the column when \<^verbatim>\<open>isNaN\<close> is false on it, and join table
  and column with a double underscore. An input without a dot has no second part, and
  \<^verbatim>\<open>undefined.split\<close> throws.
\<close>

definition strip_numeric_suffix :: "string list \<Rightarrow> string list" where
  "strip_numeric_suffix parts =
     (if \<not> js_isNaN_string (last parts) then butlast parts else parts)"

definition semantic_column :: "string \<Rightarrow> string" where
  "semantic_column column = js_join ''_'' (strip_numeric_suffix (js_split CHR ''_'' column))"

definition custom_table_column_namespace :: "string \<Rightarrow> js_error + string" where
  "custom_table_column_namespace input =
     (let x = js_split CHR ''.'' input in
      if length x < 2 then Inl (TypeError ''Cannot read properties of undefined (reading split)'')
      else Inr (x ! 0 @ ''__'' @ semantic_column (x ! 1)))"

section \<open>Custom table fields\<close>

text \<open>
  The catalog schema: custom-table name to its column names, a JavaScript object (so
  \<^verbatim>\<open>Object.keys\<close> gives the tables in property order).
\<close>

type_synonym schema = "(string \<times> jval list) list"

definition schema_tables :: "schema \<Rightarrow> string list" where
  "schema_tables sc = js_own_keys (map fst sc)"

text \<open>The \<^verbatim>\<open>name.column\<close> references of one table, its \<^verbatim>\<open>id\<close> column left out.\<close>

definition table_refs :: "runtime \<Rightarrow> string \<Rightarrow> jval list \<Rightarrow> string list" where
  "table_refs rt t cols =
     map (\<lambda>c. custom_table_name t @ ''.'' @ js_to_string rt c)
         (filter (\<lambda>c. \<not> js_strict_eq c (JStr ''id'')) cols)"

definition schema_cols :: "schema \<Rightarrow> string \<Rightarrow> jval list" where
  "schema_cols sc t = (case map_of sc t of Some cs \<Rightarrow> cs | None \<Rightarrow> [])"

definition namespaced_as :: "string \<Rightarrow> js_error + string" where
  "namespaced_as f = sbind (custom_table_column_namespace f) (\<lambda>ns. Inr (f @ '' AS '' @ ns))"

definition namespaced_full :: "string \<Rightarrow> js_error + string" where
  "namespaced_full f =
     sbind (custom_table_column_namespace f) (\<lambda>ns. Inr (hd (js_split CHR ''.'' f) @ ''.'' @ ns))"

text \<open>
  \<^verbatim>\<open>custom_table_fields(schema, custom_table, namespacing)\<close>: the references of one
  table, or of all tables when \<open>custom_table\<close> is falsy (the empty string), then
  rewritten by the namespacing mode, \<^verbatim>\<open>'as'\<close> or \<^verbatim>\<open>'full'\<close> in any case.
\<close>

definition custom_table_fields :: "runtime \<Rightarrow> schema \<Rightarrow> string \<Rightarrow> string \<Rightarrow> js_error + string" where
  "custom_table_fields rt sc custom_table namespacing =
     sbind (if custom_table \<noteq> [] then
              (case map_of sc custom_table of
                 Some cols \<Rightarrow> Inr (table_refs rt custom_table cols)
               | None \<Rightarrow> Inl (TypeError ''Cannot read properties of undefined (reading forEach)''))
            else Inr (concat (map (\<lambda>t. table_refs rt t (schema_cols sc t)) (schema_tables sc))))
       (\<lambda>output.
          sbind (if namespacing \<noteq> [] \<and> js_lower namespacing = ''as'' then mapM namespaced_as output
                 else if namespacing \<noteq> [] \<and> js_lower namespacing = ''full'' then mapM namespaced_full output
                 else Inr output)
            (\<lambda>out. Inr (js_join '','' out)))"

section \<open>Schema discovery\<close>

text \<open>
  The first two steps of \<^verbatim>\<open>execute\<close>: the custom groups are read, then one catalog
  query per group lists the columns of its table. The queued results come back in the order
  the queries were added, and the loop pairs the \<open>i\<close>-th result with the \<open>i\<close>-th group
  by position; a result with no group reads \<^verbatim>\<open>undefined.table_name\<close> and throws.
\<close>

definition custom_group_query :: "js_error + string list" where
  "custom_group_query =
     sbind (fields (Table ''custom_group'') [])
       (\<lambda>f. Inr [''SELECT '' @ f @ '' FROM `civicrm_custom_group` custom_group''])"

definition columns_query :: "runtime \<Rightarrow> jobj \<Rightarrow> string list" where
  "columns_query rt row =
     [''SELECT column_name FROM information_schema.columns WHERE table_name='' @ [CHR 0x22] @
      js_to_string rt (obj_get row ''table_name'') @ [CHR 0x22]]"

definition schema_step :: "runtime \<Rightarrow> jobj list \<Rightarrow> nat \<times> jobj list \<Rightarrow> schema \<Rightarrow> js_error + schema" where
  "schema_step rt custom_tables ir sc =
     (case ir of (i, rows) \<Rightarrow>
        if i < length custom_tables then
          Inr (aset sc (js_to_string rt (obj_get (custom_tables ! i) ''table_name''))
                       (map (\<lambda>r. obj_get r ''column_name'') rows))
        else Inl (TypeError ''Cannot read properties of undefined (reading table_name)''))"

definition discover_schema :: "runtime \<Rightarrow> jobj list \<Rightarrow> jobj list list \<Rightarrow> js_error + schema" where
  "discover_schema rt custom_tables results =
     foldM (schema_step rt custom_tables) (enumerate 0 results) []"

text \<open>
  What the discovery promises (specification 4.1): the table-to-columns mapping re-assembled
  by table name, one key per table name in the order the tables are listed, holding the
  column names of the last catalog result for that name.
\<close>

definition schema_spec :: "runtime \<Rightarrow> jobj list \<Rightarrow> jobj list list \<Rightarrow> schema" where
  "schema_spec rt custom_tables results =
     (let ps = zip (map (\<lambda>row. js_to_string rt (obj_get row ''table_name'')) custom_tables)
                   (map (map (\<lambda>r. obj_get r ''column_name'')) results) in
      map (\<lambda>k. (k, last_value ps k)) (dedup (map fst ps)))"

section \<open>The contact query\<close>

text \<open>One left outer join per custom table, keyed on its namespaced \<^verbatim>\<open>entity_id\<close>.\<close>

definition custom_join :: "runtime \<Rightarrow> schema \<Rightarrow> string \<Rightarrow> js_error + string list" where
  "custom_join rt sc t =
     (let name = custom_table_name t in
      sbind (custom_table_fields rt sc t ''as'')
        (\<lambda>tf. Inr [''LEFT OUTER JOIN (SELECT '' @ tf @ '' FROM '' @ t @ '' '' @ name @ '') '' @ name,
                   ''ON contact.id='' @ name @ ''.'' @ name @ ''__entity_id'']))"

definition membership_filter :: string where
  \<open>membership_filter =
     ''AND (membershipstatus.membershipstatus__giving_what_we_can_member="1" OR '' @
     ''membershipstatus.membershipstatus__trying_out_giving="1" OR '' @
     ''membershipstatus.membershipstatus__my_giving_user="1")''\<close>

definition contact_query_lines ::
  "runtime \<Rightarrow> string \<Rightarrow> string \<Rightarrow> string \<Rightarrow> string \<Rightarrow> string \<Rightarrow> string list list \<Rightarrow> jval \<Rightarrow> string list" where
  \<open>contact_query_lines rt core custom fe fa fp joins limit =
     [''SELECT '' @ core,
      '','' @ custom @ '' '',
      ''FROM civicrm_contact contact'',
      ''LEFT OUTER JOIN (SELECT '' @ fe @
        '' FROM `civicrm_email` email WHERE email.is_primary=1) email ON contact.id=email.contact_id'',
      ''LEFT OUTER JOIN (SELECT '' @ fa @
        '' FROM `civicrm_address` address WHERE address.is_primary=1) address ON contact.id=address.contact_id'',
      ''LEFT OUTER JOIN (SELECT '' @ fp @
        '' FROM `civicrm_phone` phone WHERE phone.is_primary=1) phone ON contact.id=phone.contact_id'']
     @ concat joins @
     [''WHERE ('', ''contact.contact_type="Individual"'', membership_filter, '')'']
     @ (if js_truthy limit then [''LIMIT '' @ js_to_string rt limit @ '' OFFSET 300''] else [])\<close>

definition contact_query :: "runtime \<Rightarrow> schema \<Rightarrow> jval \<Rightarrow> js_error + string list" where
  "contact_query rt sc limit =
     sbind (fields (Tables [''contact'', ''email'', ''address'', ''phone'']) []) (\<lambda>core.
     sbind (custom_table_fields rt sc [] ''full'') (\<lambda>custom.
     sbind (fields (Table ''email'') []) (\<lambda>fe.
     sbind (fields (Table ''address'') []) (\<lambda>fa.
     sbind (fields (Table ''phone'') []) (\<lambda>fp.
     sbind (mapM (custom_join rt sc) (schema_tables sc)) (\<lambda>joins.
     Inr (contact_query_lines rt core custom fe fa fp joins limit)))))))"

text \<open>A catalog schema with the membership-status table the row filter refers to.\<close>

definition sample_schema :: schema where
  "sample_schema =
     [(''civicrm_value_membership_status_3'',
       [JStr ''id'', JStr ''entity_id'', JStr ''giving_what_we_can_member_12'', JStr ''trying_out_giving_13''])]"

text \<open>A table with two amount columns, and a table with only its \<^verbatim>\<open>id\<close> column.\<close>

definition pledge_schema :: schema where
  "pledge_schema = [(''civicrm_value_pledge_5'', [JStr ''id'', JStr ''entity_id'', JStr ''amount_1'', JStr ''amount_2''])]"

definition id_only_schema :: schema where
  "id_only_schema = [(''civicrm_value_notes_2'', [JStr ''id''])]"

text \<open>Two custom groups listing one table, and a catalog result for each.\<close>

definition two_groups :: "jobj list" where
  "two_groups = [[(''table_name'', JStr ''civicrm_value_dates_3'')], [(''table_name'', JStr ''civicrm_value_dates_3'')]]"

definition two_results :: "jobj list list" where
  "two_results = [[[(''column_name'', JStr ''id'')]], [[(''column_name'', JStr ''id'')], [(''column_name'', JStr ''start_1'')]]]"

section \<open>Properties of the namespacing\<close>

lemma length_js_split_pos [simp]: "0 < length (js_split c s)"
  by (simp add: length_greater_0_conv)

lemma length_js_split_sep: "2 \<le> length (js_split c (a @ c # b))"
proof (induction a)
  case Nil
  then show ?case by (simp add: Let_def Suc_le_eq)
next
  case (Cons x a)
  obtain r rs where "js_split c (a @ c # b) = r # rs"
    by (cases "js_split c (a @ c # b)") simp_all
  with Cons show ?case by (auto simp: Let_def)
qed

lemma js_split_dot_ref:
  "CHR ''.'' \<notin> set a \<Longrightarrow> CHR ''.'' \<notin> set b \<Longrightarrow> js_split CHR ''.'' (a @ CHR ''.'' # b) = [a, b]"
  by (simp add: js_split_append_sep js_split_no_sep)

text \<open>The namespacing never throws on a \<^verbatim>\<open>name.column\<close> reference the code builds.\<close>

lemma namespace_total: "\<exists>r. custom_table_column_namespace (a @ CHR ''.'' # b) = Inr r"
  using length_js_split_sep [of "CHR ''.''" a b]
  by (simp add: custom_table_column_namespace_def Let_def)

lemma namespace_ref:
  "CHR ''.'' \<notin> set n \<Longrightarrow> CHR ''.'' \<notin> set c \<Longrightarrow>
   custom_table_column_namespace (n @ CHR ''.'' # c) = Inr (n @ ''__'' @ semantic_column c)"
  by (simp add: custom_table_column_namespace_def js_split_dot_ref)

lemma namespaced_ref:
  assumes "CHR ''.'' \<notin> set n" "CHR ''.'' \<notin> set c"
  shows "namespaced_as (n @ CHR ''.'' # c) = Inr (n @ ''.'' @ c @ '' AS '' @ n @ ''__'' @ semantic_column c)"
    and "namespaced_full (n @ CHR ''.'' # c) = Inr (n @ ''.'' @ n @ ''__'' @ semantic_column c)"
  using namespace_ref [OF assms] js_split_dot_ref [OF assms]
  by (simp_all add: namespaced_as_def namespaced_full_def)

lemma namespaced_total:
  "\<exists>r. namespaced_as (a @ CHR ''.'' # b) = Inr r" "\<exists>r. namespaced_full (a @ CHR ''.'' # b) = Inr r"
  using namespace_total [of a b] by (auto simp: namespaced_as_def namespaced_full_def)

lemma js_lower_modes [simp]: "js_lower ''as'' = ''as''" "js_lower ''full'' = ''full''"
  by (simp_all add: js_lower_def ascii_lower_def less_eq_char_def)

lemma table_refs_total:
  "\<exists>r. mapM namespaced_as (table_refs rt t cols) = Inr r"
  "\<exists>r. mapM namespaced_full (table_refs rt t cols) = Inr r"
  by (auto simp: table_refs_def intro!: mapM_total namespaced_total)

text \<open>The non-\<^verbatim>\<open>id\<close> columns of a table, as strings, and the alias each gets.\<close>

definition data_columns :: "runtime \<Rightarrow> jval list \<Rightarrow> string list" where
  "data_columns rt cols = map (js_to_string rt) (filter (\<lambda>c. \<not> js_strict_eq c (JStr ''id'')) cols)"

definition column_alias :: "string \<Rightarrow> string \<Rightarrow> string" where
  "column_alias t c = custom_table_name t @ ''__'' @ semantic_column c"

definition dot_free :: "runtime \<Rightarrow> schema \<Rightarrow> bool" where
  "dot_free rt sc \<longleftrightarrow>
     (\<forall>t\<in>set (map fst sc). t \<noteq> [] \<and> CHR ''.'' \<notin> set (custom_table_name t) \<and>
        (\<forall>c\<in>set (schema_cols sc t). CHR ''.'' \<notin> set (js_to_string rt c)))"

lemma table_refs_data_columns:
  "table_refs rt t cols = map (\<lambda>c. custom_table_name t @ ''.'' @ c) (data_columns rt cols)"
  by (simp add: table_refs_def data_columns_def)

lemma mapM_namespaced_as:
  "CHR ''.'' \<notin> set (custom_table_name t) \<Longrightarrow> (\<forall>c\<in>set cols. CHR ''.'' \<notin> set (js_to_string rt c)) \<Longrightarrow>
   mapM namespaced_as (table_refs rt t cols) =
     Inr (map (\<lambda>c. custom_table_name t @ ''.'' @ c @ '' AS '' @ column_alias t c) (data_columns rt cols))"
  unfolding table_refs_data_columns
  by (rule mapM_map_comp) (auto simp: data_columns_def column_alias_def namespaced_ref)

lemma mapM_namespaced_full:
  "CHR ''.'' \<notin> set (custom_table_name t) \<Longrightarrow> (\<forall>c\<in>set cols. CHR ''.'' \<notin> set (js_to_string rt c)) \<Longrightarrow>
   mapM namespaced_full (table_refs rt t cols) =
     Inr (map (\<lambda>c. custom_table_name t @ ''.'' @ column_alias t c) (data_columns rt cols))"
  unfolding table_refs_data_columns
  by (rule mapM_map_comp) (auto simp: data_columns_def column_alias_def namespaced_ref)

lemma schema_cols_Some: "t \<in> set (map fst sc) \<Longrightarrow> map_of sc t = Some (schema_cols sc t)"
  by (auto simp: schema_cols_def split: option.splits simp: map_of_eq_None_iff)

lemma mapM_concat:
  "(\<And>x. x \<in> set xs \<Longrightarrow> mapM f (g x) = Inr (h x)) \<Longrightarrow> mapM f (concat (map g xs)) = Inr (concat (map h xs))"
  by (induction xs) (simp_all add: mapM_concat_Inr)

lemma table_refs_shape: "x \<in> set (table_refs rt t cols) \<Longrightarrow> \<exists>a b. x = a @ CHR ''.'' # b"
  by (auto simp: table_refs_def)

lemma mapM_namespaced_as_total:
  assumes "\<And>x. x \<in> set xs \<Longrightarrow> \<exists>a b. x = a @ CHR ''.'' # b"
  shows "\<exists>r. mapM namespaced_as xs = Inr r"
proof (rule mapM_total)
  fix x assume "x \<in> set xs"
  with assms obtain a b where "x = a @ CHR ''.'' # b" by blast
  then show "\<exists>y. namespaced_as x = Inr y" using namespaced_total(1) by simp
qed

lemma mapM_namespaced_full_total:
  assumes "\<And>x. x \<in> set xs \<Longrightarrow> \<exists>a b. x = a @ CHR ''.'' # b"
  shows "\<exists>r. mapM namespaced_full xs = Inr r"
proof (rule mapM_total)
  fix x assume "x \<in> set xs"
  with assms obtain a b where "x = a @ CHR ''.'' # b" by blast
  then show "\<exists>y. namespaced_full x = Inr y" using namespaced_total(2) by simp
qed

lemma custom_table_fields_total:
  assumes "custom_table = [] \<or> custom_table \<in> set (map fst sc)"
  shows "\<exists>r. custom_table_fields rt sc custom_table namespacing = Inr r"
proof (cases "custom_table = []")
  case True
  let ?refs = "concat (map (\<lambda>t. table_refs rt t (schema_cols sc t)) (schema_tables sc))"
  have "\<exists>r. mapM namespaced_as ?refs = Inr r" "\<exists>r. mapM namespaced_full ?refs = Inr r"
    by (rule mapM_namespaced_as_total mapM_namespaced_full_total; auto dest: table_refs_shape)+
  with True show ?thesis by (auto simp: custom_table_fields_def)
next
  case False
  with assms have m: "map_of sc custom_table = Some (schema_cols sc custom_table)"
    by (simp add: schema_cols_Some)
  let ?refs = "table_refs rt custom_table (schema_cols sc custom_table)"
  have "\<exists>r. mapM namespaced_as ?refs = Inr r" "\<exists>r. mapM namespaced_full ?refs = Inr r"
    by (rule mapM_namespaced_as_total mapM_namespaced_full_total; auto dest: table_refs_shape)+
  with False m show ?thesis by (auto simp: custom_table_fields_def)
qed

section \<open>Properties of the custom field lists and of the contact query\<close>

lemma mapM_namespaced_full_schema:
  assumes "dot_free rt sc"
  shows "mapM namespaced_full (concat (map (\<lambda>t. table_refs rt t (schema_cols sc t)) (schema_tables sc))) =
    Inr (concat (map (\<lambda>t. map (\<lambda>c. custom_table_name t @ ''.'' @ column_alias t c)
                               (data_columns rt (schema_cols sc t))) (schema_tables sc)))"
  using assms by (intro mapM_concat mapM_namespaced_full) (auto simp: dot_free_def schema_tables_def)

lemma custom_table_fields_full:
  assumes "dot_free rt sc"
  shows "custom_table_fields rt sc [] ''full'' =
           Inr (js_join '','' (concat (map (\<lambda>t. map (\<lambda>c. custom_table_name t @ ''.'' @ column_alias t c)
                                                   (data_columns rt (schema_cols sc t)))
                                         (schema_tables sc))))"
  using mapM_namespaced_full_schema [OF assms] by (simp add: custom_table_fields_def)

lemma custom_table_fields_as:
  assumes "dot_free rt sc" and "t \<in> set (schema_tables sc)"
  shows "custom_table_fields rt sc t ''as'' =
           Inr (js_join '','' (map (\<lambda>c. custom_table_name t @ ''.'' @ c @ '' AS '' @ column_alias t c)
                                  (data_columns rt (schema_cols sc t))))"
proof -
  from assms(2) have t: "t \<in> set (map fst sc)" by (simp add: schema_tables_def)
  with assms(1) have "t \<noteq> []" "CHR ''.'' \<notin> set (custom_table_name t)"
    "\<forall>c\<in>set (schema_cols sc t). CHR ''.'' \<notin> set (js_to_string rt c)"
    by (auto simp: dot_free_def)
  with t show ?thesis
    by (simp add: custom_table_fields_def schema_cols_Some mapM_namespaced_as)
qed

text \<open>
  C24. The outer \<^verbatim>\<open>SELECT\<close> list of the custom columns (\<^verbatim>\<open>'full'\<close> mode) names, for every
  custom table and every column but \<^verbatim>\<open>id\<close>, the column \<^verbatim>\<open>name.alias\<close>; and the join
  subquery of each table (\<^verbatim>\<open>'as'\<close> mode) defines exactly those aliases, \<^verbatim>\<open>name.column AS
  alias\<close>, column by column. So every custom column the outer query reads is one its join
  provides, under the same namespaced alias.
\<close>

theorem select_list_matches_joins:
  assumes "dot_free rt sc"
  shows "custom_table_fields rt sc [] ''full'' =
           Inr (js_join '','' (concat (map (\<lambda>t. map (\<lambda>c. custom_table_name t @ ''.'' @ column_alias t c)
                                                   (data_columns rt (schema_cols sc t)))
                                         (schema_tables sc)))) \<and>
         (\<forall>t\<in>set (schema_tables sc).
            custom_table_fields rt sc t ''as'' =
              Inr (js_join '','' (map (\<lambda>c. custom_table_name t @ ''.'' @ c @ '' AS '' @ column_alias t c)
                                     (data_columns rt (schema_cols sc t)))))"
  using custom_table_fields_full [OF assms] custom_table_fields_as [OF assms] by blast

theorem select_list_matches_joins_witness:
  "dot_free sample_runtime sample_schema \<and>
   custom_table_fields sample_runtime sample_schema [] ''full'' =
     Inr (js_join '','' (concat (map (\<lambda>t. map (\<lambda>c. custom_table_name t @ ''.'' @ column_alias t c)
                                             (data_columns sample_runtime (schema_cols sample_schema t)))
                                   (schema_tables sample_schema))))"
proof -
  have d: "dot_free sample_runtime sample_schema" by code_simp
  show ?thesis using d select_list_matches_joins [OF d] by blast
qed

lemma custom_join_total: "t \<in> set (schema_tables sc) \<Longrightarrow> \<exists>r. custom_join rt sc t = Inr r"
  using custom_table_fields_total [of t sc rt "''as''"]
  by (auto simp: custom_join_def schema_tables_def Let_def)

lemma fields_core: "\<exists>f. fields (Tables [''contact'', ''email'', ''address'', ''phone'']) [] = Inr f"
  and fields_email: "\<exists>f. fields (Table ''email'') [] = Inr f"
  and fields_address: "\<exists>f. fields (Table ''address'') [] = Inr f"
  and fields_phone: "\<exists>f. fields (Table ''phone'') [] = Inr f"
  by (simp_all add: fields_of_def fields_names_def)

text \<open>
  Assembling the contact query never throws: for every catalog schema and every row limit
  the query text is produced.
\<close>

lemma contact_query_total: "\<exists>q. contact_query rt sc limit = Inr q"
proof -
  obtain core fe fa fp where
    "fields (Tables [''contact'', ''email'', ''address'', ''phone'']) [] = Inr core"
    "fields (Table ''email'') [] = Inr fe" "fields (Table ''address'') [] = Inr fa"
    "fields (Table ''phone'') [] = Inr fp"
    using fields_core fields_email fields_address fields_phone by blast
  moreover obtain custom where "custom_table_fields rt sc [] ''full'' = Inr custom"
    using custom_table_fields_total [of "[]" sc rt "''full''"] by auto
  moreover obtain joins where "mapM (custom_join rt sc) (schema_tables sc) = Inr joins"
    using mapM_total [of "schema_tables sc" "custom_join rt sc"] custom_join_total by blast
  ultimately show ?thesis by (simp add: contact_query_def)
qed

lemma contact_query_lines_split:
  "\<exists>pre post. contact_query_lines rt core custom fe fa fp joins limit = pre @ concat joins @ post"
  unfolding contact_query_lines_def by (intro exI) (rule refl)

text \<open>
  C25. Every custom table of the schema is left-outer-joined into the contact query: the
  query holds, one after the other, the line \<^verbatim>\<open>LEFT OUTER JOIN (SELECT fields FROM table
  name) name\<close> with the table's \<^verbatim>\<open>'as'\<close> field list and the line keying it on
  \<^verbatim>\<open>contact.id = name.name__entity_id\<close>, so a contact without a row in that table is kept.
\<close>

theorem contact_query_joins:
  assumes "contact_query rt sc limit = Inr q" and "t \<in> set (schema_tables sc)"
  shows "\<exists>tf pre post. custom_table_fields rt sc t ''as'' = Inr tf \<and>
           q = pre @ [''LEFT OUTER JOIN (SELECT '' @ tf @ '' FROM '' @ t @ '' '' @ custom_table_name t @ '') '' @
                        custom_table_name t,
                      ''ON contact.id='' @ custom_table_name t @ ''.'' @ custom_table_name t @ ''__entity_id''] @ post"
proof -
  from assms(1) obtain core custom fe fa fp joins where
    j: "mapM (custom_join rt sc) (schema_tables sc) = Inr joins" and
    q: "q = contact_query_lines rt core custom fe fa fp joins limit"
    by (auto simp: contact_query_def sbind_eq_Inr)
  from mapM_Inr_mem [OF j assms(2)] obtain y where y: "y \<in> set joins" and cj: "custom_join rt sc t = Inr y"
    by blast
  from cj obtain tf where tf: "custom_table_fields rt sc t ''as'' = Inr tf" and
    y_eq: "y = [''LEFT OUTER JOIN (SELECT '' @ tf @ '' FROM '' @ t @ '' '' @ custom_table_name t @ '') '' @
                  custom_table_name t,
                ''ON contact.id='' @ custom_table_name t @ ''.'' @ custom_table_name t @ ''__entity_id'']"
    by (auto simp: custom_join_def Let_def sbind_eq_Inr)
  from y obtain as bs where js: "joins = as @ y # bs" by (auto dest: split_list)
  obtain pre post where "q = pre @ concat joins @ post"
    using q contact_query_lines_split by blast
  then have "q = (pre @ concat as) @ y @ (concat bs @ post)" by (simp add: js)
  with y_eq tf show ?thesis by blast
qed

theorem contact_query_joins_witness:
  "\<exists>q tf pre post. contact_query sample_runtime sample_schema JNull = Inr q \<and>
     q = pre @ [''LEFT OUTER JOIN (SELECT '' @ tf @
                  '' FROM civicrm_value_membership_status_3 membershipstatus) membershipstatus'',
                ''ON contact.id=membershipstatus.membershipstatus__entity_id''] @ post"
proof -
  obtain q where q: "contact_query sample_runtime sample_schema JNull = Inr q"
    using contact_query_total by blast
  have t: "''civicrm_value_membership_status_3'' \<in> set (schema_tables sample_schema)" by code_simp
  have n: "custom_table_name ''civicrm_value_membership_status_3'' = ''membershipstatus''" by code_simp
  show ?thesis using contact_query_joins [OF q t] q n by auto
qed

section \<open>Where the namespacing differs from its description\<close>

text \<open>
  C32. Two columns of a table whose names differ only in their numeric suffix get the same
  alias, and the assembler does not reject the collision: the join subquery of the table
  defines that alias twice (for columns \<^verbatim>\<open>amount_1\<close> and \<^verbatim>\<open>amount_2\<close> of
  \<^verbatim>\<open>civicrm_value_pledge_5\<close>, \<^verbatim>\<open>pledge__amount\<close>), where the description promises
  collision-free names.
\<close>

theorem namespacing_collision_accepted:
  assumes "dot_free rt sc" and "t \<in> set (schema_tables sc)"
    and "i < j" and "j < length (data_columns rt (schema_cols sc t))"
    and "semantic_column (data_columns rt (schema_cols sc t) ! i) =
         semantic_column (data_columns rt (schema_cols sc t) ! j)"
  shows "\<exists>items a. custom_table_fields rt sc t ''as'' = Inr (js_join '','' items) \<and>
           items ! i = custom_table_name t @ ''.'' @ data_columns rt (schema_cols sc t) ! i @ '' AS '' @ a \<and>
           items ! j = custom_table_name t @ ''.'' @ data_columns rt (schema_cols sc t) ! j @ '' AS '' @ a"
  using custom_table_fields_as [OF assms(1,2)] assms(3-5)
  by (auto simp: column_alias_def)

theorem namespacing_collision_accepted_witness:
  "\<exists>items a. custom_table_fields sample_runtime pledge_schema ''civicrm_value_pledge_5'' ''as'' = Inr (js_join '','' items) \<and>
     items ! 1 = ''pledge.amount_1 AS '' @ a \<and> items ! 2 = ''pledge.amount_2 AS '' @ a"
proof -
  have d: "dot_free sample_runtime pledge_schema" by code_simp
  have t: "''civicrm_value_pledge_5'' \<in> set (schema_tables pledge_schema)" by code_simp
  have c: "data_columns sample_runtime (schema_cols pledge_schema ''civicrm_value_pledge_5'') =
           [''entity_id'', ''amount_1'', ''amount_2'']" by code_simp
  have n: "custom_table_name ''civicrm_value_pledge_5'' = ''pledge''" by code_simp
  have s: "semantic_column ''amount_1'' = semantic_column ''amount_2''" by code_simp
  show ?thesis using namespacing_collision_accepted [OF d t, of 1 2] c n s by simp
qed

text \<open>
  C33. The column part of an alias drops the last underscore-separated part whenever
  \<^verbatim>\<open>isNaN\<close> is false on it: not only a run of digits but any JavaScript numeric string,
  the empty string, \<^verbatim>\<open>Infinity\<close>, \<^verbatim>\<open>1e3\<close> or \<^verbatim>\<open>0x1F\<close> included.
\<close>

theorem semantic_column_suffix:
  assumes "\<forall>p\<in>set ps. CHR ''_'' \<notin> set p" and "CHR ''_'' \<notin> set s" and "ps \<noteq> []"
  shows "semantic_column (js_join ''_'' (ps @ [s])) =
           (if js_numeric_string s then js_join ''_'' ps else js_join ''_'' (ps @ [s]))"
proof -
  have "js_split CHR ''_'' (js_join ''_'' (ps @ [s])) = ps @ [s]"
    using assms by (intro js_split_join) auto
  then show ?thesis by (simp add: semantic_column_def strip_numeric_suffix_def js_isNaN_string_def)
qed

lemma numeric_strings_examples:
  "js_numeric_string [] \<and> js_numeric_string ''Infinity'' \<and> js_numeric_string ''1e3'' \<and>
   js_numeric_string ''0x1F'' \<and> js_numeric_string ''12'' \<and> \<not> js_numeric_string ''member''"
  by code_simp

theorem semantic_column_suffix_witness:
  "semantic_column (js_join ''_'' ([''pledge''] @ [''Infinity''])) = ''pledge'' \<and>
   semantic_column (js_join ''_'' ([''giving'', ''what'', ''we'', ''can'', ''member''] @ [''12''])) =
     ''giving_what_we_can_member''"
  using semantic_column_suffix [of "[''pledge'']" "''Infinity''"]
        semantic_column_suffix [of "[''giving'', ''what'', ''we'', ''can'', ''member'']" "''12''"]
        numeric_strings_examples
  by simp

text \<open>
  C34. The short name of a custom table drops the last underscore-separated part of its name
  whatever that part is, numeric or not, and joins the other parts with nothing between:
  \<^verbatim>\<open>civicrm_value_membership_status_3\<close> becomes \<^verbatim>\<open>membershipstatus\<close>, and a table without a
  numeric suffix loses a word of its name.
\<close>

theorem custom_table_name_parts:
  assumes "\<forall>p\<in>set ps. CHR ''_'' \<notin> set p" and "ps \<noteq> []"
  shows "custom_table_name (''civicrm_value_'' @ js_join ''_'' ps) = concat (butlast ps)"
  using replace_first_prefix [of "''civicrm_value_''" "[]" "js_join ''_'' ps"] assms
  by (simp add: custom_table_name_def js_split_join js_join_empty_sep)

theorem custom_table_name_parts_witness:
  "custom_table_name (''civicrm_value_'' @ js_join ''_'' [''membership'', ''status'', ''3'']) =
     ''membershipstatus'' \<and>
   custom_table_name (''civicrm_value_'' @ js_join ''_'' [''membership'', ''status'']) = ''membership''"
  using custom_table_name_parts [of "[''membership'', ''status'', ''3'']"]
        custom_table_name_parts [of "[''membership'', ''status'']"]
  by simp

text \<open>
  C35. When no custom table has a column besides \<^verbatim>\<open>id\<close> (in particular when the catalog
  has no custom tables) the select list still ends in a comma: the second line of the query is
  \<^verbatim>\<open>', '\<close>, right before \<^verbatim>\<open>FROM\<close>, so the query is not valid SQL, where the
  description requires an empty extension schema to be accepted.
\<close>

theorem empty_schema_dangling_comma:
  assumes "\<forall>t\<in>set (schema_tables sc). data_columns rt (schema_cols sc t) = []"
  shows "\<exists>q. contact_query rt sc limit = Inr q \<and> q ! 1 = '', '' \<and> q ! 2 = ''FROM civicrm_contact contact''"
proof -
  have r: "concat (map (\<lambda>t. table_refs rt t (schema_cols sc t)) (schema_tables sc)) = []"
    using assms by (simp add: table_refs_data_columns)
  have "custom_table_fields rt sc [] ''full'' = Inr []"
    by (simp add: custom_table_fields_def r)
  with contact_query_total [of rt sc limit] show ?thesis
    by (auto simp: contact_query_def contact_query_lines_def sbind_eq_Inr)
qed

theorem empty_schema_dangling_comma_witness:
  "\<exists>q. contact_query sample_runtime id_only_schema JNull = Inr q \<and> q ! 1 = '', '' \<and>
       q ! 2 = ''FROM civicrm_contact contact''"
proof -
  have "\<forall>t\<in>set (schema_tables id_only_schema). data_columns sample_runtime (schema_cols id_only_schema t) = []"
    by code_simp
  then show ?thesis by (rule empty_schema_dangling_comma)
qed

section \<open>The discovery loop\<close>

lemma foldM_schema_step:
  "n + length rs \<le> length ct \<Longrightarrow>
   foldM (schema_step rt ct) (enumerate n rs) sc =
     Inr (fold (\<lambda>(k, v) m. aset m k v)
            (zip (map (\<lambda>row. js_to_string rt (obj_get row ''table_name'')) (take (length rs) (drop n ct)))
                 (map (map (\<lambda>r. obj_get r ''column_name'')) rs)) sc)"
proof (induction rs arbitrary: n sc)
  case (Cons r rs)
  then have n: "n < length ct" by simp
  then have "drop n ct = ct ! n # drop (Suc n) ct" by (rule Cons_nth_drop_Suc [symmetric])
  then have "take (length (r # rs)) (drop n ct) = ct ! n # take (length rs) (drop (Suc n) ct)"
    by simp
  with n Cons show ?case by (simp add: schema_step_def)
qed simp

text \<open>
  C8. Equivalence of the discovery loop with its specification: given one catalog result per
  custom table, as \<^verbatim>\<open>execute\<close> issues them, the object the \<^verbatim>\<open>for\<close> loop builds is the
  mapping re-assembled by table name: the first listing of a name fixes its place, and a name
  listed twice keeps the columns of its last result.
\<close>

theorem discover_schema_equiv:
  assumes "length results = length custom_tables"
  shows "discover_schema rt custom_tables results = Inr (schema_spec rt custom_tables results)"
  using foldM_schema_step [of 0 results custom_tables rt "[]"] assms
  by (simp add: discover_schema_def schema_spec_def fold_aset_last Let_def)

theorem discover_schema_equiv_witness:
  "discover_schema sample_runtime two_groups two_results =
     Inr [(''civicrm_value_dates_3'', [JStr ''id'', JStr ''start_1''])]"
proof -
  have "length two_results = length two_groups" by (simp add: two_results_def two_groups_def)
  from discover_schema_equiv [OF this, of sample_runtime] show ?thesis
    by (simp add: schema_spec_def two_results_def two_groups_def obj_get_def last_value_def dedup_def)
qed

end
