(* ===== verification/ReferenceResolver.thy ===== *)
theory ReferenceResolver
  imports JsValue
begin

text \<open>
  The Reference Resolver: the step of \<^verbatim>\<open>execute\<close> in \<^verbatim>\<open>src/export/index.js\<close> (lines
  218--251) that replaces the coded foreign keys \<^verbatim>\<open>state_province_id\<close> and
  \<^verbatim>\<open>country_id\<close> of every contact row by the state name and the country ISO code read
  from two lookup tables. The lookup objects \<^verbatim>\<open>states\<close> and \<^verbatim>\<open>countries\<close> are built by
  \<^verbatim>\<open>forEach\<close> over the rows of the two lookup queries, assigning
  \<^verbatim>\<open>obj[row.id] = row.value\<close>: the property key is \<^verbatim>\<open>String(row.id)\<close>, and a later row
  with the same key overwrites an earlier one in place. The ids are integer columns, so a
  key never names a member of \<^verbatim>\<open>Object.prototype\<close>; the model reads only own properties.
\<close>

section \<open>Lookup tables\<close>

text \<open>\<^verbatim>\<open>const m = {}; rows.forEach(r => { m[r.id] = r.value })\<close>.\<close>

definition lookup_table :: "runtime \<Rightarrow> string \<Rightarrow> string \<Rightarrow> jobj list \<Rightarrow> jobj" where
  "lookup_table rt idk valk rows =
     fold (\<lambda>r m. obj_set m (js_to_string rt (obj_get r idk)) (obj_get r valk)) rows []"

text \<open>\<^verbatim>\<open>v || null\<close>.\<close>

definition js_or_null :: "jval \<Rightarrow> jval" where
  "js_or_null v = (if js_truthy v then v else JNull)"

text \<open>\<^verbatim>\<open>m[k] || null\<close> for a key value \<open>k\<close> read from a row.\<close>

definition resolve_code :: "runtime \<Rightarrow> jobj \<Rightarrow> jval \<Rightarrow> jval" where
  "resolve_code rt m k = js_or_null (obj_get m (js_to_string rt k))"

section \<open>The row rewrite\<close>

text \<open>
  \<^verbatim>\<open>Object.assign({}, row, {state_province: ..., country: ...})\<close>, then the two
  \<^verbatim>\<open>delete\<close>s: the row's own properties in their order, the two new ones updated in place
  or appended, the two code columns removed.
\<close>

definition resolve_row :: "runtime \<Rightarrow> jobj \<Rightarrow> jobj \<Rightarrow> jobj \<Rightarrow> jobj" where
  "resolve_row rt states countries row =
     (let sp = resolve_code rt states (obj_get row ''state_province_id'');
          co = resolve_code rt countries (obj_get row ''country_id'');
          newRow = obj_set (obj_set row ''state_province'' sp) ''country'' co in
      obj_delete (obj_delete newRow ''state_province_id'') ''country_id'')"

text \<open>The whole step: the two tables from the two lookup results, then \<^verbatim>\<open>result.map\<close>.\<close>

definition resolve_references :: "runtime \<Rightarrow> jobj list \<Rightarrow> jobj list \<Rightarrow> jobj list \<Rightarrow> jobj list" where
  "resolve_references rt state_rows country_rows result =
     (let states = lookup_table rt ''id'' ''name'' state_rows;
          countries = lookup_table rt ''id'' ''iso_code'' country_rows in
      map (resolve_row rt states countries) result)"

section \<open>Lemmas\<close>

text \<open>The value a lookup table holds for a key: that of the last row with that key.\<close>

definition last_match :: "runtime \<Rightarrow> string \<Rightarrow> string \<Rightarrow> jobj list \<Rightarrow> string \<Rightarrow> jval" where
  "last_match rt idk valk rows k =
     (let rs = filter (\<lambda>r. js_to_string rt (obj_get r idk) = k) rows in
      if rs = [] then JUndef else obj_get (last rs) valk)"

lemma obj_get_lookup_table:
  "obj_get (lookup_table rt idk valk rows) k = last_match rt idk valk rows k"
proof (induction rows rule: rev_induct)
  case Nil
  then show ?case by (simp add: lookup_table_def last_match_def obj_get_def)
next
  case (snoc r rows)
  then show ?case
    by (simp add: lookup_table_def last_match_def Let_def)
qed

lemma keys_lookup_table:
  "distinct (map fst (lookup_table rt idk valk rows))"
  unfolding lookup_table_def
proof (induction rows rule: rev_induct)
  case (snoc r rows)
  then show ?case by simp
qed simp

lemma resolve_code_lookup:
  "resolve_code rt (lookup_table rt idk valk rows) k =
     (let rs = filter (\<lambda>r. js_to_string rt (obj_get r idk) = js_to_string rt k) rows in
      if rs = [] then JNull else js_or_null (obj_get (last rs) valk))"
  by (simp add: resolve_code_def obj_get_lookup_table last_match_def js_or_null_def Let_def)

lemma keys_resolve_row:
  "fst ` set (resolve_row rt s c row) =
     insert ''state_province'' (insert ''country'' (fst ` set row - {''state_province_id'', ''country_id''}))"
  by (simp add: resolve_row_def Let_def) blast

lemma distinct_keys_resolve_row:
  "distinct (map fst row) \<Longrightarrow> distinct (map fst (resolve_row rt s c row))"
  by (simp add: resolve_row_def Let_def)

section \<open>Properties\<close>

text \<open>
  C22. Every row of the result is resolved: its \<^verbatim>\<open>state_province\<close> is the name of the last
  state whose id has the same string form as the row's \<^verbatim>\<open>state_province_id\<close>, and
  \<^verbatim>\<open>null\<close> when there is none or the name is falsy; likewise \<^verbatim>\<open>country\<close> with the ISO
  code; the two code columns are gone and every other field is the row's own.
\<close>

theorem resolve_references_row:
  assumes "i < length result"
  shows "obj_get (resolve_references rt srows crows result ! i) ''state_province'' =
           (let rs = filter (\<lambda>s. js_to_string rt (obj_get s ''id'') =
                                  js_to_string rt (obj_get (result ! i) ''state_province_id'')) srows in
            if rs = [] then JNull else js_or_null (obj_get (last rs) ''name'')) \<and>
         obj_get (resolve_references rt srows crows result ! i) ''country'' =
           (let rs = filter (\<lambda>c. js_to_string rt (obj_get c ''id'') =
                                  js_to_string rt (obj_get (result ! i) ''country_id'')) crows in
            if rs = [] then JNull else js_or_null (obj_get (last rs) ''iso_code'')) \<and>
         obj_get (resolve_references rt srows crows result ! i) ''state_province_id'' = JUndef \<and>
         obj_get (resolve_references rt srows crows result ! i) ''country_id'' = JUndef \<and>
         (\<forall>k. k \<notin> {''state_province'', ''country'', ''state_province_id'', ''country_id''} \<longrightarrow>
            obj_get (resolve_references rt srows crows result ! i) k = obj_get (result ! i) k)"
  using assms
  by (simp add: resolve_references_def resolve_row_def resolve_code_lookup del: obj_get_set)
     (simp add: Let_def)

theorem resolve_references_row_witness:
  "obj_get (resolve_references sample_runtime [[(''id'', JNum 1), (''name'', JStr ''Ontario'')]]
      [[(''id'', JNum 2), (''iso_code'', JStr ''CA'')]]
      [[(''id'', JNum 7), (''state_province_id'', JStr ''1''), (''country_id'', JNum 3)]] ! 0) ''state_province'' =
     JStr ''Ontario'' \<and>
   obj_get (resolve_references sample_runtime [[(''id'', JNum 1), (''name'', JStr ''Ontario'')]]
      [[(''id'', JNum 2), (''iso_code'', JStr ''CA'')]]
      [[(''id'', JNum 7), (''state_province_id'', JStr ''1''), (''country_id'', JNum 3)]] ! 0) ''country'' = JNull"
  using resolve_references_row [of 0 "[[(''id'', JNum 7), (''state_province_id'', JStr ''1''), (''country_id'', JNum 3)]]"
      sample_runtime "[[(''id'', JNum 1), (''name'', JStr ''Ontario'')]]" "[[(''id'', JNum 2), (''iso_code'', JStr ''CA'')]]"]
  by (simp add: obj_get_def js_or_null_def show_int_digit digit_char_def del: show_int_nonneg)

text \<open>
  C26. The rewrite keeps one row per input row, replaces the two code columns by the two
  resolved columns in each row's key set, and keeps every row free of duplicate keys.
\<close>

theorem resolve_references_keys:
  "length (resolve_references rt srows crows result) = length result \<and>
   map (\<lambda>r. set (map fst r)) (resolve_references rt srows crows result) =
     map (\<lambda>r. set (map fst r) - {''state_province_id'', ''country_id''} \<union> {''state_province'', ''country''}) result \<and>
   (list_all (\<lambda>r. distinct (map fst r)) result \<longrightarrow>
      list_all (\<lambda>r. distinct (map fst r)) (resolve_references rt srows crows result))"
  by (simp add: resolve_references_def keys_resolve_row list_all_iff distinct_keys_resolve_row)

theorem resolve_references_keys_witness:
  "list_all (\<lambda>r. distinct (map fst r)) [[(''id'', JNum 7), (''country_id'', JNum 3)]] \<and>
   list_all (\<lambda>r. distinct (map fst r))
     (resolve_references sample_runtime [] [] [[(''id'', JNum 7), (''country_id'', JNum 3)]])"
  using resolve_references_keys [of sample_runtime "[]" "[]" "[[(''id'', JNum 7), (''country_id'', JNum 3)]]"]
  by simp

end
