(* ===== verification/PayloadNormalizer.thy ===== *)
theory PayloadNormalizer
  imports JsValue
begin

text \<open>
  The Payload Normalizer: the last step of \<^verbatim>\<open>execute\<close> in \<^verbatim>\<open>src/export/index.js\<close>
  (lines 252--427). For each contact row it normalises nine date fields, parses the JSON
  dashboard ledger (\<^verbatim>\<open>donations__dashboard_data\<close>), copies five ledger scalars onto the
  contact, and splits the ledger into donations, reported income and recurring donations,
  collecting the charity names and currency codes seen and checking, across the whole run,
  that no donation hash repeats. The state of the loop is the record \<open>unser_state\<close>: the
  run-wide arrays of the source plus the three per-contact scratch arrays
  (\<^verbatim>\<open>contact.donations\<close>, \<^verbatim>\<open>contact.recurringDonations\<close>,
  \<^verbatim>\<open>contact.reportedIncome\<close>), which the source keeps on the contact object and deletes
  before the contact is pushed. Every \<^verbatim>\<open>throw\<close> and every \<^verbatim>\<open>TypeError\<close> the code can
  raise ends the run as an \<open>Inl\<close>.
\<close>

section \<open>Records the loop produces\<close>

record donation_row =
  donation_contact_id :: jval
  donation_timestamp :: "string option"
  donation_target :: string
  donation_currency :: jval
  donation_amount :: jval

record income_row =
  income_contact_id :: jval
  income_start_date :: "string option"
  income_end_date :: "string option"
  income_currency :: jval
  income_amount :: jval
  income_pledge_percentage :: jval

record recurring_row =
  recurring_donation_contact_id :: jval
  recurring_donation_start_timestamp :: "string option"
  recurring_donation_end_timestamp :: jval
  recurring_donation_frequency_unit :: jval
  recurring_donation_frequency :: jval
  recurring_donation_target :: string
  recurring_donation_currency :: jval
  recurring_donation_amount :: jval

record unser_state =
  contacts :: "jobj list"
  donations :: "donation_row list"
  reported_income :: "income_row list"
  recurring_donations :: "recurring_row list"
  charities :: "string list"
  donation_currency_codes :: "jval list"
  donation_hashes :: "string list"
  cur_donations :: "donation_row list option"
  cur_recurring :: "recurring_row list option"
  cur_income :: "income_row list option"

definition init_state :: unser_state where
  "init_state =
     \<lparr>contacts = [], donations = [], reported_income = [], recurring_donations = [], charities = [],
      donation_currency_codes = [], donation_hashes = [],
      cur_donations = None, cur_recurring = None, cur_income = None\<rparr>"

text \<open>\<^verbatim>\<open>xs = xs || []; xs.push(x)\<close> on a scratch array that starts as \<^verbatim>\<open>null\<close>.\<close>

definition push_scratch :: "'a \<Rightarrow> 'a list option \<Rightarrow> 'a list option" where
  "push_scratch x xs = Some (case xs of None \<Rightarrow> [x] | Some ys \<Rightarrow> ys @ [x])"

section \<open>Date fields\<close>

definition date_fields :: "string list" where
  "date_fields =
     [''birth_date'', ''dates__joining_date'', ''dates__left_date_former_members_'',
      ''dates__end_date_try_out_givers_'', ''dates__start_date_trying_giving_'',
      ''outreach__date_started'', ''outreach__date_finished'', ''outreach__next_contact_date'',
      ''legacydata__date_old_pledge_form_submitted'']"

text \<open>\<^verbatim>\<open>m = moment(contact[field]); contact[field] = m.isValid() ? m.toISOString() : null\<close>.\<close>

definition normalise_date :: "runtime \<Rightarrow> string \<Rightarrow> jobj \<Rightarrow> jobj" where
  "normalise_date rt field c =
     obj_set c field (case moment_of rt (obj_get c field) of
                        Some t \<Rightarrow> JStr (moment_iso rt t)
                      | None \<Rightarrow> JNull)"

definition normalise_dates :: "runtime \<Rightarrow> jobj \<Rightarrow> jobj" where
  "normalise_dates rt c = fold (normalise_date rt) date_fields c"

section \<open>Donations\<close>

text \<open>\<^verbatim>\<open>contact.id + '-' + md5(JSON.stringify(donation))\<close>.\<close>

definition donation_hash :: "runtime \<Rightarrow> jval \<Rightarrow> jval \<Rightarrow> string" where
  "donation_hash rt cid donation =
     js_to_string rt (js_add rt (js_add rt cid (JStr ''-'')) (JStr (md5 rt (json_stringify rt donation))))"

text \<open>A number result of JavaScript arithmetic: \<open>None\<close> is \<^verbatim>\<open>NaN\<close>.\<close>

definition js_num :: "int option \<Rightarrow> jval" where
  "js_num n = (case n of Some i \<Rightarrow> JNum i | None \<Rightarrow> JNaN)"

text \<open>\<^verbatim>\<open>moment((+donation[0] * 1000) + c).toISOString()\<close>.\<close>

definition donation_time :: "runtime \<Rightarrow> jval \<Rightarrow> nat \<Rightarrow> string option" where
  "donation_time rt d0 c =
     moment_iso_of rt (moment_of rt (js_num (map_option (\<lambda>n. n * 1000 + int c) (js_to_number rt d0))))"

text \<open>
  One iteration of \<^verbatim>\<open>dashboardData.donations.forEach\<close>; the pair threads the counter
  \<^verbatim>\<open>c\<close> of the contact with the loop state.
\<close>

definition donation_step ::
  "runtime \<Rightarrow> jval \<Rightarrow> jval \<Rightarrow> nat \<times> unser_state \<Rightarrow> js_error + nat \<times> unser_state" where
  "donation_step rt cid donation cst =
     (case cst of (c0, st) \<Rightarrow>
      let c = Suc c0 in
      sbind (js_get donation (show_nat 1)) (\<lambda>d1.
      sbind (js_trim_call d1) (\<lambda>charityName.
      let st1 = st\<lparr>charities := push_new charityName (charities st)\<rparr> in
      sbind (js_get donation (show_nat 2)) (\<lambda>code.
      let st2 = st1\<lparr>donation_currency_codes := js_push_new code (donation_currency_codes st1)\<rparr>;
          h = donation_hash rt cid donation in
      if h \<in> set (donation_hashes st2) then Inl (NotUniqueHash h)
      else
      let st3 = st2\<lparr>donation_hashes := donation_hashes st2 @ [h]\<rparr> in
      sbind (js_get donation (show_nat 0)) (\<lambda>d0.
      sbind (js_get donation (show_nat 3)) (\<lambda>d3.
      let d = \<lparr>donation_contact_id = cid, donation_timestamp = donation_time rt d0 c,
               donation_target = charityName, donation_currency = code, donation_amount = d3\<rparr> in
      Inr (c, st3\<lparr>donations := donations st3 @ [d],
                   cur_donations := push_scratch d (cur_donations st3)\<rparr>)))))))"

section \<open>Reported income\<close>

text \<open>
  The pledge percentage of an income entry: the contact's own when truthy, else 10 when
  \<^verbatim>\<open>membershipstatus__giving_what_we_can_member === 1\<close>, else 0.
\<close>

definition pledge_percentage :: "jobj \<Rightarrow> jval" where
  "pledge_percentage contact =
     (let p = obj_get contact ''pledgedamounts__pledge_percentage'' in
      if \<not> js_truthy p then
        (if js_strict_eq (obj_get contact ''membershipstatus__giving_what_we_can_member'') (JNum 1)
         then JNum 10 else JNum 0)
      else p)"

text \<open>
  The period of a year key: \<^verbatim>\<open>moment([year, yearstartmonth + 1, yearstartdate].join('-'),
  'YYYY-M-D')\<close>, then \<^verbatim>\<open>add(contact.contact_id)\<close> for the start, then, on the same moment,
  \<^verbatim>\<open>add(1, 'year').subtract(1, 'day')\<close> for the end.
\<close>

definition income_start :: "runtime \<Rightarrow> jobj \<Rightarrow> jval \<Rightarrow> jval \<Rightarrow> string \<Rightarrow> int option" where
  "income_start rt contact ym yd year =
     moment_add rt (obj_get contact ''contact_id'')
       (moment_parse_ymd rt (js_array_join rt ''-'' [JStr year, js_add rt ym (JNum 1), yd]))"

definition income_step ::
  "runtime \<Rightarrow> jobj \<Rightarrow> jval \<Rightarrow> jval \<Rightarrow> string \<Rightarrow> unser_state \<Rightarrow> js_error + unser_state" where
  "income_step rt contact dash inc year st =
     sbind (js_get dash ''yearstartmonth'') (\<lambda>ym.
     sbind (js_get dash ''yearstartdate'') (\<lambda>yd.
     let m = income_start rt contact ym yd year;
         startDate = moment_iso_of rt m;
         endDate = moment_iso_of rt (map_option (\<lambda>t. moment_subtract_day rt (moment_add_year rt t)) m);
         pp = pledge_percentage contact in
     sbind (js_get inc year) (\<lambda>income.
     sbind (js_get income (show_nat 0)) (\<lambda>cur.
     sbind (js_get income (show_nat 1)) (\<lambda>amt.
     let ri = \<lparr>income_contact_id = obj_get contact ''id'', income_start_date = startDate,
               income_end_date = endDate, income_currency = cur, income_amount = amt,
               income_pledge_percentage = pp\<rparr> in
     Inr (st\<lparr>reported_income := reported_income st @ [ri],
             cur_income := push_scratch ri (cur_income st)\<rparr>))))))"

section \<open>Recurring donations\<close>

text \<open>The object literal \<^verbatim>\<open>rd\<close>.\<close>

definition recurring_record ::
  "runtime \<Rightarrow> jval \<Rightarrow> string \<Rightarrow> jval \<Rightarrow> jval \<Rightarrow> jval \<Rightarrow> jval \<Rightarrow> jval \<Rightarrow> jval \<Rightarrow> recurring_row" where
  "recurring_record rt cid name d0 d1 d2 d3 d5 d6 =
     \<lparr>recurring_donation_contact_id = cid,
      recurring_donation_start_timestamp =
        moment_iso_of rt (moment_of rt (js_num (map_option (\<lambda>n. n * 1000) (js_to_number rt d0)))),
      recurring_donation_end_timestamp = d1, recurring_donation_frequency_unit = d2,
      recurring_donation_frequency = d3, recurring_donation_target = name,
      recurring_donation_currency = d5, recurring_donation_amount = d6\<rparr>"

definition recurring_step :: "runtime \<Rightarrow> jval \<Rightarrow> jval \<Rightarrow> unser_state \<Rightarrow> js_error + unser_state" where
  "recurring_step rt cid donation st =
     sbind (js_get donation (show_nat 4)) (\<lambda>d4.
     sbind (js_trim_call d4) (\<lambda>charityName.
     let st1 = st\<lparr>charities := push_new charityName (charities st)\<rparr> in
     sbind (js_get donation (show_nat 0)) (\<lambda>d0.
     sbind (js_get donation (show_nat 1)) (\<lambda>d1.
     sbind (js_get donation (show_nat 2)) (\<lambda>d2.
     sbind (js_get donation (show_nat 3)) (\<lambda>d3.
     sbind (js_get donation (show_nat 5)) (\<lambda>d5.
     sbind (js_get donation (show_nat 6)) (\<lambda>d6.
     let rd = recurring_record rt cid charityName d0 d1 d2 d3 d5 d6 in
     Inr (st1\<lparr>recurring_donations := recurring_donations st1 @ [rd],
              cur_recurring := push_scratch rd (cur_recurring st1)\<rparr>)))))))))"

section \<open>One contact\<close>

text \<open>\<^verbatim>\<open>x.length > 0\<close>: a numeric comparison with \<open>0\<close>, false on \<^verbatim>\<open>NaN\<close>.\<close>

definition js_positive :: "runtime \<Rightarrow> jval \<Rightarrow> bool" where
  "js_positive rt v = (case js_to_number rt v of Some n \<Rightarrow> 0 < n | None \<Rightarrow> False)"

text \<open>\<^verbatim>\<open>if (xs && xs.length > 0) xs.forEach(...)\<close>: the elements to visit.\<close>

definition nonempty_elements :: "runtime \<Rightarrow> jval \<Rightarrow> js_error + jval list" where
  "nonempty_elements rt xs =
     (if js_truthy xs then
        sbind (js_get xs ''length'') (\<lambda>len. if js_positive rt len then js_elements xs else Inr [])
      else Inr [])"

text \<open>The five ledger scalars copied onto the contact.\<close>

definition copy_scalars :: "jval \<Rightarrow> jobj \<Rightarrow> js_error + jobj" where
  "copy_scalars dash c =
     sbind (js_get dash ''defaultcurrency'') (\<lambda>v1.
     sbind (js_get dash ''yearstartdate'') (\<lambda>v2.
     sbind (js_get dash ''yearstartmonth'') (\<lambda>v3.
     sbind (js_get dash ''lastupdated'') (\<lambda>v4.
     sbind (js_get dash ''public'') (\<lambda>v5.
     Inr (obj_set (obj_set (obj_set (obj_set (obj_set c
            ''donations__defaultcurrency'' v1) ''donations__yearstartdate'' v2)
            ''donations__yearstartmonth'' v3) ''donations__lastupdated'' v4)
            ''donations__public'' v5))))))"

text \<open>The ledger of one contact, once it is known to be present.\<close>

definition unserialise_dashboard ::
  "runtime \<Rightarrow> jval \<Rightarrow> jobj \<Rightarrow> unser_state \<Rightarrow> js_error + jobj \<times> unser_state" where
  "unserialise_dashboard rt raw c st =
     sbind (js_trim_call raw) (\<lambda>text.
     case json_parse rt text of
       None \<Rightarrow> Inl (JsonSyntaxError (js_to_string rt raw))
     | Some dash \<Rightarrow>
     sbind (copy_scalars dash c) (\<lambda>c1.
     let cid = obj_get c1 ''id'' in
     sbind (sbind (js_get dash ''donations'') (nonempty_elements rt)) (\<lambda>ds.
     sbind (foldM (donation_step rt cid) ds (0, st)) (\<lambda>(_, st1).
     sbind (js_get dash ''income'') (\<lambda>inc.
     sbind (if js_truthy inc then sbind (js_keys inc) (\<lambda>years. foldM (income_step rt c1 dash inc) years st1)
            else Inr st1) (\<lambda>st2.
     sbind (sbind (js_get dash ''recurringdonations'') (nonempty_elements rt)) (\<lambda>rs.
     sbind (foldM (recurring_step rt cid) rs st2) (\<lambda>st3.
     Inr (c1, st3)))))))))"

text \<open>The ledger field is absent when falsy or the sentinel \<^verbatim>\<open>'No data'\<close>.\<close>

definition has_dashboard :: "jval \<Rightarrow> bool" where
  "has_dashboard v \<longleftrightarrow> js_truthy v \<and> \<not> js_strict_eq v (JStr ''No data'')"

definition strip_contact :: "jobj \<Rightarrow> jobj" where
  "strip_contact c =
     obj_delete (obj_delete (obj_delete (obj_delete c ''donations__dashboard_data'')
       ''donations'') ''recurringDonations'') ''reportedIncome''"

text \<open>One iteration of the loop over the result rows.\<close>

definition unserialise_contact :: "runtime \<Rightarrow> jobj \<Rightarrow> unser_state \<Rightarrow> js_error + unser_state" where
  "unserialise_contact rt row st =
     (let st0 = st\<lparr>cur_donations := None, cur_recurring := None, cur_income := None\<rparr>;
          c0 = normalise_dates rt row;
          raw = obj_get c0 ''donations__dashboard_data'' in
      sbind (if has_dashboard raw then unserialise_dashboard rt raw c0 st0 else Inr (c0, st0))
        (\<lambda>(c, st1). Inr (st1\<lparr>contacts := contacts st1 @ [strip_contact c],
                               cur_donations := None, cur_recurring := None, cur_income := None\<rparr>)))"

section \<open>The whole step\<close>

record charity_row =
  charity_name :: string
  charity_type :: string

record export_data =
  out_contacts :: "jobj list"
  out_donations :: "donation_row list"
  out_recurring_donations :: "recurring_row list"
  out_reported_income :: "income_row list"
  out_charities :: "charity_row list"
  out_charity_merge_candidates :: "jval list"
  out_donation_currency_codes :: "jval list"

text \<open>
  \<^verbatim>\<open>Array.prototype.sort()\<close> with no comparator: \<^verbatim>\<open>undefined\<close> last, the rest by their
  string forms in code-unit order, stably.
\<close>

definition js_default_sort :: "runtime \<Rightarrow> jval list \<Rightarrow> jval list" where
  "js_default_sort rt xs =
     sort_key (js_to_string rt) (filter (\<lambda>v. v \<noteq> JUndef) xs) @ filter (\<lambda>v. v = JUndef) xs"

definition finish :: "runtime \<Rightarrow> unser_state \<Rightarrow> export_data" where
  "finish rt st =
     \<lparr>out_contacts = contacts st, out_donations = donations st,
      out_recurring_donations = recurring_donations st, out_reported_income = reported_income st,
      out_charities = map (\<lambda>n. \<lparr>charity_name = n, charity_type = ''Unknown''\<rparr>) (charities st),
      out_charity_merge_candidates = [],
      out_donation_currency_codes =
        map (\<lambda>code. JObj [(''currency_code'', code)]) (js_default_sort rt (donation_currency_codes st))\<rparr>"

definition unserialise :: "runtime \<Rightarrow> jobj list \<Rightarrow> js_error + export_data" where
  "unserialise rt rows = sbind (foldM (unserialise_contact rt) rows init_state) (\<lambda>st. Inr (finish rt st))"

section \<open>Specification predicates\<close>

text \<open>
  What the run-wide arrays keep true between contacts: the hashes are pairwise different
  and there is one per donation; the charity list has no duplicates and holds exactly the
  targets of the donations and recurring donations produced; the currency list holds no two
  strictly equal codes and holds exactly the currencies of the donations produced.
\<close>

definition unser_inv :: "unser_state \<Rightarrow> bool" where
  "unser_inv st \<longleftrightarrow>
     distinct (donation_hashes st) \<and> length (donation_hashes st) = length (donations st) \<and>
     distinct (charities st) \<and>
     set (charities st) =
       set (map donation_target (donations st)) \<union> set (map recurring_donation_target (recurring_donations st)) \<and>
     js_distinct (donation_currency_codes st) \<and>
     set (donation_currency_codes st) = set (map donation_currency (donations st))"

text \<open>
  The fields of a contact the step writes: the nine date fields, the ledger, the five
  ledger scalars and the three scratch arrays. Every other field of a pushed contact is the
  field of its row.
\<close>

definition written_fields :: "string list" where
  "written_fields = date_fields @
     [''donations__dashboard_data'', ''donations'', ''recurringDonations'', ''reportedIncome'',
      ''donations__defaultcurrency'', ''donations__yearstartdate'', ''donations__yearstartmonth'',
      ''donations__lastupdated'', ''donations__public'']"

definition contact_of :: "runtime \<Rightarrow> jobj \<Rightarrow> jobj \<Rightarrow> bool" where
  "contact_of rt row c \<longleftrightarrow>
     (\<forall>k. k \<notin> set written_fields \<longrightarrow> obj_get c k = obj_get row k) \<and>
     obj_get c ''donations__dashboard_data'' = JUndef"

text \<open>
  Every donation and every income record produced so far belongs to a contact pushed so far:
  its contact id is the \<^verbatim>\<open>id\<close> of one of them.
\<close>

definition linked :: "unser_state \<Rightarrow> bool" where
  "linked st \<longleftrightarrow>
     (\<forall>d\<in>set (donations st). \<exists>c\<in>set (contacts st). donation_contact_id d = obj_get c ''id'') \<and>
     (\<forall>i\<in>set (reported_income st). \<exists>c\<in>set (contacts st). income_contact_id i = obj_get c ''id'')"

section \<open>Sample ledgers\<close>

text \<open>
  Inputs on which the theorems below are evaluated: the ledger of the scenario of the
  specification (contact 42 giving 50 USD to Oxfam), a ledger reporting income for 2020
  with the fiscal year starting on 1 January, and a runtime whose JSON parser knows one text.
\<close>

definition oxfam_entry :: jval where
  "oxfam_entry = JArr [JNum 1000000000, JStr '' Oxfam '', JStr ''USD'', JNum 50]"

definition oxfam_ledger :: jval where
  "oxfam_ledger = JObj [(''donations'', JArr [oxfam_entry]), (''income'', JObj []),
                        (''recurringdonations'', JArr [])]"

definition income_ledger :: jval where
  "income_ledger = JObj [(''yearstartmonth'', JNum 0), (''yearstartdate'', JNum 1),
     (''donations'', JArr []), (''income'', JObj [(''2020'', JArr [JStr ''USD'', JNum 100])]),
     (''recurringdonations'', JArr [])]"

definition ledger_runtime :: "jval \<Rightarrow> runtime" where
  "ledger_runtime ledger = sample_runtime\<lparr>json_parse := (\<lambda>s. if s = ''{ledger}'' then Some ledger else None)\<rparr>"

definition ledger_row :: "int \<Rightarrow> string \<Rightarrow> jobj" where
  "ledger_row i s = [(''id'', JNum i), (''donations__dashboard_data'', JStr s)]"

section \<open>Shape of each step\<close>

lemma js_get_total: "js_get v k = Inr x \<Longrightarrow> \<exists>y. js_get v k' = Inr y"
  by (cases v) (simp_all add: js_get_def)

lemma donation_step_Inr:
  assumes "donation_step rt cid donation (c, st) = Inr (c', st')"
  obtains name code d0 d3 where "c' = Suc c" and "js_get donation (show_nat 1) = Inr (JStr name)"
    and "js_get donation (show_nat 2) = Inr code"
    and "donation_hash rt cid donation \<notin> set (donation_hashes st)"
    and "st' = st\<lparr>charities := push_new (js_trim name) (charities st),
              donation_currency_codes := js_push_new code (donation_currency_codes st),
              donation_hashes := donation_hashes st @ [donation_hash rt cid donation],
              donations := donations st @
                [\<lparr>donation_contact_id = cid, donation_timestamp = donation_time rt d0 (Suc c),
                  donation_target = js_trim name, donation_currency = code, donation_amount = d3\<rparr>],
              cur_donations := push_scratch
                \<lparr>donation_contact_id = cid, donation_timestamp = donation_time rt d0 (Suc c),
                  donation_target = js_trim name, donation_currency = code, donation_amount = d3\<rparr>
                (cur_donations st)\<rparr>"
  using assms
  by (auto simp: donation_step_def sbind_eq_Inr Let_def split: if_splits)

lemma income_step_Inr:
  assumes "income_step rt contact dash inc year st = Inr st'"
  obtains ri ym yd where "st' = st\<lparr>reported_income := reported_income st @ [ri],
                       cur_income := push_scratch ri (cur_income st)\<rparr>"
    and "income_contact_id ri = obj_get contact ''id''"
    and "income_pledge_percentage ri = pledge_percentage contact"
    and "js_get dash ''yearstartmonth'' = Inr ym" and "js_get dash ''yearstartdate'' = Inr yd"
    and "income_start_date ri = moment_iso_of rt (income_start rt contact ym yd year)"
  using assms by (auto simp: income_step_def sbind_eq_Inr Let_def)

lemma recurring_step_Inr:
  assumes "recurring_step rt cid donation st = Inr st'"
  obtains name d0 d1 d2 d3 d5 d6 where "js_get donation (show_nat 4) = Inr (JStr name)"
    and "st' = st\<lparr>charities := push_new (js_trim name) (charities st),
              recurring_donations := recurring_donations st @
                [recurring_record rt cid (js_trim name) d0 d1 d2 d3 d5 d6],
              cur_recurring := push_scratch (recurring_record rt cid (js_trim name) d0 d1 d2 d3 d5 d6)
                (cur_recurring st)\<rparr>"
  using assms by (auto simp: recurring_step_def sbind_eq_Inr Let_def recurring_record_def)

section \<open>The loop invariant\<close>

lemma unser_inv_init: "unser_inv init_state"
  by (simp add: unser_inv_def init_state_def js_distinct_def)

lemma donation_step_inv:
  "donation_step rt cid donation cs = Inr cs' \<Longrightarrow> unser_inv (snd cs) \<Longrightarrow> unser_inv (snd cs')"
  by (cases cs; cases cs') (auto elim!: donation_step_Inr simp: unser_inv_def)

lemma income_step_inv:
  "income_step rt contact dash inc year st = Inr st' \<Longrightarrow> unser_inv st \<Longrightarrow> unser_inv st'"
  by (erule income_step_Inr) (auto simp: unser_inv_def)

lemma recurring_step_inv:
  "recurring_step rt cid donation st = Inr st' \<Longrightarrow> unser_inv st \<Longrightarrow> unser_inv st'"
  by (erule recurring_step_Inr) (auto simp: unser_inv_def recurring_record_def)

lemma unser_inv_scratch [simp]:
  "unser_inv (st\<lparr>cur_donations := a, cur_recurring := b, cur_income := c\<rparr>) = unser_inv st"
  by (simp add: unser_inv_def)

lemma unser_inv_contacts [simp]: "unser_inv (st\<lparr>contacts := cs\<rparr>) = unser_inv st"
  by (simp add: unser_inv_def)

lemma donation_loop_inv:
  "foldM (donation_step rt cid) ds cs = Inr cs' \<Longrightarrow> unser_inv (snd cs) \<Longrightarrow> unser_inv (snd cs')"
  by (rule foldM_invariant [where P = "\<lambda>cs. unser_inv (snd cs)"]) (auto intro: donation_step_inv)

lemma income_loop_inv:
  "foldM (income_step rt contact dash inc) ys st = Inr st' \<Longrightarrow> unser_inv st \<Longrightarrow> unser_inv st'"
  by (rule foldM_invariant [where P = unser_inv]) (auto intro: income_step_inv)

lemma recurring_loop_inv:
  "foldM (recurring_step rt cid) rs st = Inr st' \<Longrightarrow> unser_inv st \<Longrightarrow> unser_inv st'"
  by (rule foldM_invariant [where P = unser_inv]) (auto intro: recurring_step_inv)

text \<open>A property of the state kept by every step of the three ledger loops is kept by a ledger.\<close>

lemma unserialise_dashboard_preserves:
  assumes run: "unserialise_dashboard rt raw c st = Inr (c', st')"
    and don: "\<And>cid d cs cs'. donation_step rt cid d cs = Inr cs' \<Longrightarrow> P (snd cs) \<Longrightarrow> P (snd cs')"
    and inc: "\<And>con dash i y s s'. income_step rt con dash i y s = Inr s' \<Longrightarrow> P s \<Longrightarrow> P s'"
    and rec: "\<And>cid d s s'. recurring_step rt cid d s = Inr s' \<Longrightarrow> P s \<Longrightarrow> P s'"
    and "P st"
  shows "P st'"
proof -
  from run obtain dash c1 ds k st1 st2 rs where
    d: "foldM (donation_step rt (obj_get c1 ''id'')) ds (0, st) = Inr (k, st1)" and
    i: "st2 = st1 \<or> (\<exists>inc ys. foldM (income_step rt c1 dash inc) ys st1 = Inr st2)" and
    r: "foldM (recurring_step rt (obj_get c1 ''id'')) rs st2 = Inr st'"
    unfolding unserialise_dashboard_def
    by (auto simp: sbind_eq_Inr Let_def split: option.splits if_splits prod.splits) blast+
  have "P (snd (k, st1))"
    by (rule foldM_invariant [where P = "\<lambda>cs. P (snd cs)", OF _ _ d]) (auto intro: don \<open>P st\<close>)
  then have "P st1" by simp
  with i have "P st2"
    by (auto intro: foldM_invariant [where P = P] inc)
  show ?thesis
    by (rule foldM_invariant [where P = P, OF _ \<open>P st2\<close> r]) (auto intro: rec)
qed

lemma unserialise_dashboard_inv:
  "unserialise_dashboard rt raw c st = Inr (c', st') \<Longrightarrow> unser_inv st \<Longrightarrow> unser_inv st'"
  by (erule unserialise_dashboard_preserves) (auto intro: donation_step_inv income_step_inv recurring_step_inv)

lemma unserialise_dashboard_contacts:
  "unserialise_dashboard rt raw c st = Inr (c', st') \<Longrightarrow> contacts st' = contacts st"
  by (erule unserialise_dashboard_preserves [where P = "\<lambda>s. contacts s = contacts st"])
     (auto elim!: donation_step_Inr income_step_Inr recurring_step_Inr)

lemma unserialise_contact_inv:
  "unserialise_contact rt row st = Inr st' \<Longrightarrow> unser_inv st \<Longrightarrow> unser_inv st'"
  unfolding unserialise_contact_def
  by (auto simp: sbind_eq_Inr Let_def split: if_splits prod.splits dest!: unserialise_dashboard_inv)

lemma unserialise_run_inv:
  "foldM (unserialise_contact rt) rows init_state = Inr st \<Longrightarrow> unser_inv st"
  by (rule foldM_invariant [where P = unser_inv])
     (auto intro: unserialise_contact_inv unser_inv_init)

lemma mset_js_default_sort [simp]: "mset (js_default_sort rt xs) = mset xs"
  by (simp add: js_default_sort_def)

lemma obj_get_fold_normalise_date:
  "distinct fs \<Longrightarrow> obj_get (fold (normalise_date rt) fs c) k =
     (if k \<in> set fs then (case moment_of rt (obj_get c k) of Some t \<Rightarrow> JStr (moment_iso rt t) | None \<Rightarrow> JNull)
      else obj_get c k)"
  by (induction fs arbitrary: c) (auto simp: normalise_date_def)

lemma obj_get_normalise_dates:
  "obj_get (normalise_dates rt c) k =
     (if k \<in> set date_fields
      then (case moment_of rt (obj_get c k) of Some t \<Rightarrow> JStr (moment_iso rt t) | None \<Rightarrow> JNull)
      else obj_get c k)"
  unfolding normalise_dates_def by (rule obj_get_fold_normalise_date) (simp add: date_fields_def)

lemma dashboard_not_date_field [simp]: "''donations__dashboard_data'' \<notin> set date_fields"
  by (simp add: date_fields_def)

lemma donation_hash_num: "donation_hash rt (JNum i) d = show_int i @ CHR ''-'' # md5 rt (json_stringify rt d)"
  by (simp add: donation_hash_def)

lemma unserialise_contact_Inl:
  assumes "obj_get row ''donations__dashboard_data'' = JStr s" and "has_dashboard (JStr s)"
    and "json_parse rt (js_trim s) = None"
  shows "unserialise_contact rt row st = Inl (JsonSyntaxError s)"
  using assms
  by (simp add: unserialise_contact_def unserialise_dashboard_def obj_get_normalise_dates js_trim_call_def Let_def)

lemma unserialise_run_Inl:
  assumes "foldM (unserialise_contact rt) pre init_state = Inr st"
    and "unserialise_contact rt row st = Inl e"
  shows "unserialise rt (pre @ row # post) = Inl e"
  using assms by (simp add: unserialise_def foldM_append)

lemmas unserialise_eval = unserialise_def unserialise_contact_def unserialise_dashboard_def
  donation_step_def normalise_dates_def normalise_date_def date_fields_def copy_scalars_def
  nonempty_elements_def js_positive_def js_value_simps finish_def init_state_def
  strip_contact_def donation_time_def js_num_def js_trim_def js_ws_def push_new_def
  push_scratch_def obj_get_def Let_def aset_def adelete_def js_own_keys_def ledger_row_def

lemma array_index_2020: "array_index ''2020'' = Some 2020"
  by (simp add: array_index_def read_nat_def digit_val_def is_digit_def show_nat.simps digit_char_def)

lemma oxfam_run:
  "\<exists>st. foldM (unserialise_contact (ledger_runtime oxfam_ledger)) [ledger_row 42 '' {ledger} ''] init_state = Inr st"
  by (simp add: unserialise_eval ledger_runtime_def oxfam_ledger_def oxfam_entry_def has_dashboard_def
      sample_runtime_def donation_hash_def)

lemma oxfam_unserialise:
  "\<exists>out. unserialise (ledger_runtime oxfam_ledger) [ledger_row 42 '' {ledger} ''] = Inr out"
  using oxfam_run by (auto simp: unserialise_def)

lemma copy_scalars_Inr:
  "copy_scalars dash c = Inr c' \<Longrightarrow> k \<notin> set written_fields \<Longrightarrow> obj_get c' k = obj_get c k"
  by (auto simp: copy_scalars_def sbind_eq_Inr written_fields_def)

lemma unserialise_dashboard_contact:
  "unserialise_dashboard rt raw c st = Inr (c', st') \<Longrightarrow> k \<notin> set written_fields \<Longrightarrow> obj_get c' k = obj_get c k"
  unfolding unserialise_dashboard_def
  by (auto simp: sbind_eq_Inr Let_def split: option.splits prod.splits dest: copy_scalars_Inr)

lemma unserialise_contact_pushes:
  assumes "unserialise_contact rt row st = Inr st'"
  shows "\<exists>c. contacts st' = contacts st @ [c] \<and> contact_of rt row c"
proof -
  let ?c0 = "normalise_dates rt row"
  let ?raw = "obj_get ?c0 ''donations__dashboard_data''"
  let ?st0 = "st\<lparr>cur_donations := None, cur_recurring := None, cur_income := None\<rparr>"
  from assms obtain c st1 where
    d: "(if has_dashboard ?raw then unserialise_dashboard rt ?raw ?c0 ?st0 else Inr (?c0, ?st0)) = Inr (c, st1)"
    and st': "contacts st' = contacts st1 @ [strip_contact c]"
    by (auto simp: unserialise_contact_def sbind_eq_Inr Let_def split: prod.splits)
  from d have "contacts st1 = contacts st" and "\<forall>k. k \<notin> set written_fields \<longrightarrow> obj_get c k = obj_get ?c0 k"
    by (auto split: if_splits dest: unserialise_dashboard_contact unserialise_dashboard_contacts)
  moreover have "k \<notin> set written_fields \<Longrightarrow> obj_get ?c0 k = obj_get row k" for k
    by (simp add: obj_get_normalise_dates written_fields_def)
  ultimately have "contact_of rt row (strip_contact c)"
    by (simp add: contact_of_def strip_contact_def written_fields_def)
  with st' \<open>contacts st1 = contacts st\<close> show ?thesis by auto
qed

lemma unserialise_contacts:
  assumes "unserialise rt rows = Inr out"
  shows "list_all2 (contact_of rt) rows (out_contacts out)"
proof -
  from assms obtain st where run: "foldM (unserialise_contact rt) rows init_state = Inr st"
    and out: "out = finish rt st" by (auto simp: unserialise_def sbind_eq_Inr)
  from foldM_snoc_rel [where g = contacts, OF unserialise_contact_pushes run]
  show ?thesis by (simp add: out finish_def init_state_def)
qed

text \<open>The records a ledger adds carry the id of the contact it returns.\<close>

lemma unserialise_dashboard_links:
  assumes run: "unserialise_dashboard rt raw c st = Inr (c', st')"
  shows "(\<forall>d\<in>set (donations st'). d \<in> set (donations st) \<or> donation_contact_id d = obj_get c' ''id'') \<and>
         (\<forall>i\<in>set (reported_income st'). i \<in> set (reported_income st) \<or> income_contact_id i = obj_get c' ''id'')"
    (is "?P st'")
proof -
  from run obtain dash ds k st1 st2 rs where
    d: "foldM (donation_step rt (obj_get c' ''id'')) ds (0, st) = Inr (k, st1)" and
    i: "st2 = st1 \<or> (\<exists>inc ys. foldM (income_step rt c' dash inc) ys st1 = Inr st2)" and
    r: "foldM (recurring_step rt (obj_get c' ''id'')) rs st2 = Inr st'"
    unfolding unserialise_dashboard_def
    by (auto simp: sbind_eq_Inr Let_def split: option.splits if_splits prod.splits) blast+
  have "?P (snd (k, st1))"
    by (rule foldM_invariant [where P = "\<lambda>cs. ?P (snd cs)", OF _ _ d])
       (auto simp: split_paired_all elim!: donation_step_Inr)
  then have p1: "?P st1" by simp
  have p2: "?P st2" using i
  proof
    assume "\<exists>inc ys. foldM (income_step rt c' dash inc) ys st1 = Inr st2"
    then obtain inc ys where f: "foldM (income_step rt c' dash inc) ys st1 = Inr st2" by blast
    show ?thesis by (rule foldM_invariant [where P = ?P, OF _ p1 f]) (auto elim!: income_step_Inr)
  qed (simp add: p1)
  show ?thesis by (rule foldM_invariant [where P = ?P, OF _ p2 r]) (auto elim!: recurring_step_Inr)
qed

lemma linked_snoc:
  assumes "\<forall>x\<in>set xs. x \<in> set ys \<or> f x = v" and "\<forall>x\<in>set ys. \<exists>c\<in>set cs. f x = g c" and "g c0 = v"
  shows "\<forall>x\<in>set xs. \<exists>c\<in>set (cs @ [c0]). f x = g c"
  using assms by fastforce

lemma linked_init: "linked init_state"
  by (simp add: linked_def init_state_def)

lemma unserialise_contact_linked:
  assumes run: "unserialise_contact rt row st = Inr st'" and l: "linked st"
  shows "linked st'"
proof -
  let ?c0 = "normalise_dates rt row"
  let ?raw = "obj_get ?c0 ''donations__dashboard_data''"
  let ?st0 = "st\<lparr>cur_donations := None, cur_recurring := None, cur_income := None\<rparr>"
  from run obtain c st1 where
    d: "(if has_dashboard ?raw then unserialise_dashboard rt ?raw ?c0 ?st0 else Inr (?c0, ?st0)) = Inr (c, st1)"
    and st': "st' = st1\<lparr>contacts := contacts st1 @ [strip_contact c],
                        cur_donations := None, cur_recurring := None, cur_income := None\<rparr>"
    by (auto simp: unserialise_contact_def sbind_eq_Inr Let_def split: prod.splits)
  have cs: "contacts st1 = contacts st"
    using d by (auto split: if_splits dest: unserialise_dashboard_contacts)
  have new: "(\<forall>x\<in>set (donations st1). x \<in> set (donations st) \<or> donation_contact_id x = obj_get c ''id'') \<and>
             (\<forall>x\<in>set (reported_income st1). x \<in> set (reported_income st) \<or> income_contact_id x = obj_get c ''id'')"
    using d by (auto split: if_splits dest!: unserialise_dashboard_links)
  have s: "obj_get (strip_contact c) ''id'' = obj_get c ''id''" by (simp add: strip_contact_def)
  have a: "\<forall>x\<in>set (donations st1). \<exists>c'\<in>set (contacts st @ [strip_contact c]).
             donation_contact_id x = obj_get c' ''id''"
    using new l s by (intro linked_snoc [where v = "obj_get c ''id''" and ys = "donations st"]) (simp_all add: linked_def)
  have b: "\<forall>x\<in>set (reported_income st1). \<exists>c'\<in>set (contacts st @ [strip_contact c]).
             income_contact_id x = obj_get c' ''id''"
    using new l s by (intro linked_snoc [where v = "obj_get c ''id''" and ys = "reported_income st"]) (simp_all add: linked_def)
  from a b cs show ?thesis unfolding st' linked_def by simp
qed

lemma unserialise_linked:
  assumes "unserialise rt rows = Inr out"
  shows "(\<forall>d\<in>set (out_donations out). \<exists>c\<in>set (out_contacts out). donation_contact_id d = obj_get c ''id'') \<and>
         (\<forall>i\<in>set (out_reported_income out). \<exists>c\<in>set (out_contacts out). income_contact_id i = obj_get c ''id'')"
proof -
  from assms obtain st where run: "foldM (unserialise_contact rt) rows init_state = Inr st"
    and out: "out = finish rt st" by (auto simp: unserialise_def sbind_eq_Inr)
  have "linked st"
    by (rule foldM_invariant [where P = linked, OF _ linked_init run]) (auto intro: unserialise_contact_linked)
  then show ?thesis by (simp add: out finish_def linked_def)
qed

section \<open>Properties of a run\<close>

text \<open>
  C1. Hash uniqueness: in every run that succeeds, the integrity hashes of the point
  contributions are pairwise different, and there is exactly one hash per contribution
  produced.
\<close>

theorem unserialise_hashes_unique:
  assumes "foldM (unserialise_contact rt) rows init_state = Inr st"
  shows "distinct (donation_hashes st) \<and> length (donation_hashes st) = length (donations st)"
  using unserialise_run_inv [OF assms] by (simp add: unser_inv_def)

theorem unserialise_hashes_unique_witness:
  "\<exists>st. foldM (unserialise_contact (ledger_runtime oxfam_ledger)) [ledger_row 42 '' {ledger} ''] init_state = Inr st \<and>
        distinct (donation_hashes st) \<and> length (donation_hashes st) = length (donations st)"
  using oxfam_run unserialise_hashes_unique by blast

text \<open>
  C2. The target-entity registry of a successful run lists each name once, lists exactly
  the targets of the point contributions and recurring commitments produced, and gives
  each the type \<^verbatim>\<open>Unknown\<close>.
\<close>

theorem unserialise_charity_registry:
  assumes "unserialise rt rows = Inr out"
  shows "distinct (map charity_name (out_charities out)) \<and>
         set (map charity_name (out_charities out)) =
           set (map donation_target (out_donations out)) \<union>
           set (map recurring_donation_target (out_recurring_donations out)) \<and>
         (\<forall>c\<in>set (out_charities out). charity_type c = ''Unknown'')"
proof -
  from assms obtain st where "foldM (unserialise_contact rt) rows init_state = Inr st"
    and "out = finish rt st" by (auto simp: unserialise_def sbind_eq_Inr)
  with unserialise_run_inv show ?thesis by (auto simp: finish_def unser_inv_def comp_def)
qed

theorem unserialise_charity_registry_witness:
  "\<exists>out. unserialise (ledger_runtime oxfam_ledger) [ledger_row 42 '' {ledger} ''] = Inr out \<and>
     distinct (map charity_name (out_charities out)) \<and>
     set (map charity_name (out_charities out)) =
       set (map donation_target (out_donations out)) \<union>
       set (map recurring_donation_target (out_recurring_donations out)) \<and>
     (\<forall>c\<in>set (out_charities out). charity_type c = ''Unknown'')"
  using oxfam_unserialise unserialise_charity_registry by blast

text \<open>
  C16. The currency list of a successful run holds one \<^verbatim>\<open>{currency_code}\<close> object per
  currency, no two of them strictly equal, and exactly the currencies of the point
  contributions produced.
\<close>

theorem unserialise_currency_codes:
  assumes "unserialise rt rows = Inr out"
  shows "\<exists>codes. out_donation_currency_codes out = map (\<lambda>c. JObj [(''currency_code'', c)]) codes \<and>
           js_distinct codes \<and> set codes = set (map donation_currency (out_donations out))"
proof -
  from assms obtain st where run: "foldM (unserialise_contact rt) rows init_state = Inr st"
    and out: "out = finish rt st" by (auto simp: unserialise_def sbind_eq_Inr)
  let ?codes = "js_default_sort rt (donation_currency_codes st)"
  have "js_distinct ?codes" "set ?codes = set (donation_currency_codes st)"
    using unserialise_run_inv [OF run] js_distinct_mset [of ?codes "donation_currency_codes st"]
    by (simp_all add: unser_inv_def flip: set_mset_mset)
  with unserialise_run_inv [OF run] show ?thesis
    by (auto simp: out finish_def unser_inv_def)
qed

theorem unserialise_currency_codes_witness:
  "\<exists>out. unserialise (ledger_runtime oxfam_ledger) [ledger_row 42 '' {ledger} ''] = Inr out \<and>
     (\<exists>codes. out_donation_currency_codes out = map (\<lambda>c. JObj [(''currency_code'', c)]) codes \<and>
        js_distinct codes \<and> set codes = set (map donation_currency (out_donations out)))"
  using oxfam_unserialise unserialise_currency_codes by blast

text \<open>
  C17. Hash input: two contacts with different numeric ids never produce the same integrity
  hash, whatever their ledger entries are and whatever \<^verbatim>\<open>md5\<close> returns, since the hash
  text starts with the id and a hyphen.
\<close>

theorem donation_hash_contact_inject:
  assumes "i \<noteq> j"
  shows "donation_hash rt (JNum i) d \<noteq> donation_hash rt (JNum j) d'"
  using assms show_int_sep_inject by (auto simp: donation_hash_num)

theorem donation_hash_contact_inject_witness:
  "(1::int) \<noteq> 2 \<and> donation_hash sample_runtime (JNum 1) oxfam_entry \<noteq> donation_hash sample_runtime (JNum 2) oxfam_entry"
  using donation_hash_contact_inject [of 1 2 sample_runtime oxfam_entry oxfam_entry] by simp

text \<open>
  C18. A repeated entry is fatal: once a ledger entry has been accepted for a contact id, the
  same entry under the same id is refused with \<^verbatim>\<open>NotUniqueHash\<close>, naming its hash.
\<close>

theorem donation_step_duplicate:
  assumes "donation_step rt cid d (c, st) = Inr cs"
  shows "donation_step rt cid d cs = Inl (NotUniqueHash (donation_hash rt cid d))"
proof (cases cs)
  case (Pair c' st')
  from assms [unfolded Pair] show ?thesis
    by (rule donation_step_Inr) (simp add: Pair donation_step_def js_trim_call_def)
qed

theorem donation_step_duplicate_witness:
  "\<exists>cs. donation_step sample_runtime (JNum 42) oxfam_entry (0, init_state) = Inr cs \<and>
        donation_step sample_runtime (JNum 42) oxfam_entry cs =
          Inl (NotUniqueHash (donation_hash sample_runtime (JNum 42) oxfam_entry))"
proof -
  have "\<exists>cs. donation_step sample_runtime (JNum 42) oxfam_entry (0, init_state) = Inr cs"
    by (simp add: donation_step_def oxfam_entry_def init_state_def Let_def js_trim_call_def)
  then obtain cs where "donation_step sample_runtime (JNum 42) oxfam_entry (0, init_state) = Inr cs" ..
  with donation_step_duplicate show ?thesis by blast
qed

text \<open>
  C20. Null propagation: a row whose ledger field is absent, empty or the sentinel
  \<^verbatim>\<open>'No data'\<close> adds no point contribution, recurring commitment, income entry, charity,
  currency or hash; the contact is pushed with its dates normalised and the scratch fields
  removed, and its ledger scalars keep the row's value (absent, not \<^verbatim>\<open>null\<close>, when the row
  does not carry them).
\<close>

theorem unserialise_contact_no_ledger:
  assumes "\<not> has_dashboard (obj_get row ''donations__dashboard_data'')"
  shows "unserialise_contact rt row st =
           Inr (st\<lparr>contacts := contacts st @ [strip_contact (normalise_dates rt row)],
                   cur_donations := None, cur_recurring := None, cur_income := None\<rparr>) \<and>
         obj_get (strip_contact (normalise_dates rt row)) ''donations__defaultcurrency'' =
           obj_get row ''donations__defaultcurrency''"
  using assms by (simp add: unserialise_contact_def obj_get_normalise_dates strip_contact_def date_fields_def)

theorem unserialise_contact_no_ledger_witness:
  "\<not> has_dashboard (obj_get [(''id'', JNum 7)] ''donations__dashboard_data'') \<and>
   unserialise_contact sample_runtime [(''id'', JNum 7)] init_state =
     Inr (init_state\<lparr>contacts := [strip_contact (normalise_dates sample_runtime [(''id'', JNum 7)])]\<rparr>) \<and>
   obj_get (strip_contact (normalise_dates sample_runtime [(''id'', JNum 7)])) ''donations__defaultcurrency'' = JUndef"
  using unserialise_contact_no_ledger [of "[(''id'', JNum 7)]" sample_runtime init_state]
  by (simp add: has_dashboard_def obj_get_def init_state_def)

text \<open>
  C21. Ledger corruption aborts the run: when a contact's ledger is present but does not parse,
  the whole run fails with a \<^verbatim>\<open>JsonSyntaxError\<close>, whatever rows come after it. (The code
  prints the raw ledger text and rethrows the parser's error; the model's error carries the
  printed text.)
\<close>

theorem unserialise_bad_ledger:
  assumes "foldM (unserialise_contact rt) pre init_state = Inr st"
    and "obj_get row ''donations__dashboard_data'' = JStr s" and "has_dashboard (JStr s)"
    and "json_parse rt (js_trim s) = None"
  shows "unserialise rt (pre @ row # post) = Inl (JsonSyntaxError s)"
  using assms unserialise_contact_Inl by (blast intro: unserialise_run_Inl)

theorem unserialise_bad_ledger_witness:
  "unserialise sample_runtime [ledger_row 3 ''{''] = Inl (JsonSyntaxError ''{'')"
  using unserialise_bad_ledger [of sample_runtime "[]" init_state "ledger_row 3 ''{''" "''{''" "[]"]
  by (simp add: ledger_row_def obj_get_def has_dashboard_def sample_runtime_def js_trim_def js_ws_def)

text \<open>
  C30. The counter does not make timestamps distinct: an entry one second later with
  counter \<open>c\<close> gets the same timestamp as an entry with counter \<open>c + 1000\<close>, so a contact
  with more than a thousand entries can get two identical timestamps.
\<close>

theorem donation_time_collision: "donation_time rt (JNum (t + 1)) c = donation_time rt (JNum t) (c + 1000)"
  by (simp add: donation_time_def js_num_def algebra_simps)

text \<open>
  C31. An absent date field is not set to \<^verbatim>\<open>null\<close>: \<^verbatim>\<open>moment(undefined)\<close> is the current
  time, so each of the nine date fields that a row does not carry becomes the time of the run.
\<close>

theorem normalise_dates_absent_now:
  assumes "k \<in> set date_fields" and "obj_get c k = JUndef"
  shows "obj_get (normalise_dates rt c) k = JStr (moment_iso rt (moment_now rt))"
  using assms by (simp add: obj_get_normalise_dates moment_of_def moment_from_def)

theorem normalise_dates_absent_now_witness:
  "obj_get (normalise_dates sample_runtime [(''id'', JNum 7)]) ''birth_date'' = JStr (show_int 1700000000000)"
  using normalise_dates_absent_now [of "''birth_date''" "[(''id'', JNum 7)]" sample_runtime]
  by (simp add: date_fields_def obj_get_def sample_runtime_def)

text \<open>
  C19. The scenario of the specification: contact 42 whose ledger holds the one entry
  \<^verbatim>\<open>[1000000000, " Oxfam ", "USD", 50]\<close> yields, for every runtime, one point contribution
  to \<^verbatim>\<open>Oxfam\<close> (trimmed) of 50 USD stamped \<open>1000000000 \<cdot> 1000 + 1\<close> ms, one charity
  \<^verbatim>\<open>Oxfam\<close> of type \<^verbatim>\<open>Unknown\<close>, and nothing else.
\<close>

theorem unserialise_oxfam:
  assumes "has_dashboard (JStr s)" and "json_parse rt (js_trim s) = Some oxfam_ledger"
  shows "\<exists>out. unserialise rt [ledger_row 42 s] = Inr out \<and>
     out_donations out = [\<lparr>donation_contact_id = JNum 42, donation_timestamp = Some (moment_iso rt 1000000000001),
        donation_target = ''Oxfam'', donation_currency = JStr ''USD'', donation_amount = JNum 50\<rparr>] \<and>
     out_charities out = [\<lparr>charity_name = ''Oxfam'', charity_type = ''Unknown''\<rparr>] \<and>
     out_recurring_donations out = [] \<and> out_reported_income out = []"
  using assms by (simp add: unserialise_eval oxfam_ledger_def oxfam_entry_def)

theorem unserialise_oxfam_witness:
  "\<exists>out. unserialise (ledger_runtime oxfam_ledger) [ledger_row 42 '' {ledger} ''] = Inr out \<and>
     out_donations out = [\<lparr>donation_contact_id = JNum 42, donation_timestamp = Some (show_int 1000000000001),
        donation_target = ''Oxfam'', donation_currency = JStr ''USD'', donation_amount = JNum 50\<rparr>] \<and>
     out_charities out = [\<lparr>charity_name = ''Oxfam'', charity_type = ''Unknown''\<rparr>] \<and>
     out_recurring_donations out = [] \<and> out_reported_income out = []"
  using unserialise_oxfam [of "'' {ledger} ''" "ledger_runtime oxfam_ledger"]
  by (simp add: has_dashboard_def js_trim_def js_ws_def ledger_runtime_def sample_runtime_def)

text \<open>
  C27. The income periods of different contacts are not disambiguated: the start date the
  income loop records for a year is the ledger's anchor date for it (the year, the month
  after \<^verbatim>\<open>yearstartmonth\<close>, \<^verbatim>\<open>yearstartdate\<close>) with no offset, for every contact
  without a \<^verbatim>\<open>contact_id\<close> field, so any two such contacts reporting the same year under the
  same fiscal anchor get the same period start, for every runtime. The contact query selects
  no column \<^verbatim>\<open>contact_id\<close>, the offset \<^verbatim>\<open>contact.contact_id\<close> is \<^verbatim>\<open>undefined\<close>, and
  \<^verbatim>\<open>moment.add(undefined)\<close> adds nothing.
\<close>

theorem income_step_shared_start:
  assumes "obj_get c1 ''contact_id'' = JUndef" and "obj_get c2 ''contact_id'' = JUndef"
    and "income_step rt c1 dash inc year st1 = Inr st1'" and "income_step rt c2 dash inc year st2 = Inr st2'"
  shows "\<exists>ym yd. js_get dash ''yearstartmonth'' = Inr ym \<and> js_get dash ''yearstartdate'' = Inr yd \<and>
           income_start_date (last (reported_income st1')) =
             moment_iso_of rt (moment_parse_ymd rt (js_array_join rt ''-'' [JStr year, js_add rt ym (JNum 1), yd])) \<and>
           income_start_date (last (reported_income st2')) =
             moment_iso_of rt (moment_parse_ymd rt (js_array_join rt ''-'' [JStr year, js_add rt ym (JNum 1), yd]))"
proof -
  have anchor: "moment_add rt JUndef m = m" for m by (simp add: moment_add_def duration_ms_def option.map_ident)
  from assms(3) obtain ri ym yd where "st1' = st1\<lparr>reported_income := reported_income st1 @ [ri],
                       cur_income := push_scratch ri (cur_income st1)\<rparr>"
    and "js_get dash ''yearstartmonth'' = Inr ym" and "js_get dash ''yearstartdate'' = Inr yd"
    and "income_start_date ri = moment_iso_of rt (income_start rt c1 ym yd year)"
    by (rule income_step_Inr)
  moreover from assms(4) obtain ri' ym' yd' where "st2' = st2\<lparr>reported_income := reported_income st2 @ [ri'],
                       cur_income := push_scratch ri' (cur_income st2)\<rparr>"
    and "js_get dash ''yearstartmonth'' = Inr ym'" and "js_get dash ''yearstartdate'' = Inr yd'"
    and "income_start_date ri' = moment_iso_of rt (income_start rt c2 ym' yd' year)"
    by (rule income_step_Inr)
  ultimately show ?thesis using assms(1,2) by (simp add: income_start_def anchor)
qed

theorem income_step_shared_start_witness:
  "\<exists>st1 st2. income_step sample_runtime [(''id'', JNum 1)] income_ledger
        (JObj [(''2020'', JArr [JStr ''USD'', JNum 100])]) ''2020'' init_state = Inr st1 \<and>
     income_step sample_runtime [(''id'', JNum 2)] income_ledger
        (JObj [(''2020'', JArr [JStr ''USD'', JNum 100])]) ''2020'' init_state = Inr st2 \<and>
     income_start_date (last (reported_income st1)) = Some (show_int 1577836800000) \<and>
     income_start_date (last (reported_income st2)) = Some (show_int 1577836800000)"
proof -
  let ?inc = "JObj [(''2020'', JArr [JStr ''USD'', JNum 100])]"
  obtain st1 st2 where
    s1: "income_step sample_runtime [(''id'', JNum 1)] income_ledger ?inc ''2020'' init_state = Inr st1" and
    s2: "income_step sample_runtime [(''id'', JNum 2)] income_ledger ?inc ''2020'' init_state = Inr st2"
    by (simp add: income_step_def income_ledger_def js_get_def obj_get_def array_index_2020 Let_def)
  have "moment_iso_of sample_runtime (moment_parse_ymd sample_runtime
          (js_array_join sample_runtime ''-'' [JStr ''2020'', js_add sample_runtime (JNum 0) (JNum 1), JNum 1])) =
        Some (show_int 1577836800000)"
    by (simp add: js_array_join_def sample_runtime_def moment_iso_of_def show_int_digit digit_char_def
        del: show_int_nonneg)
  with income_step_shared_start [OF _ _ s1 s2] s1 s2 show ?thesis
    by (auto simp: obj_get_def income_ledger_def js_get_def)
qed

end
