(* ===== verification/Orchestrator.thy ===== *)
theory Orchestrator
  imports QueryAssembler ReferenceResolver PayloadNormalizer
begin

text \<open>
  The Extraction Orchestrator of \<^verbatim>\<open>src/export/index.js\<close>: \<^verbatim>\<open>execute\<close> (lines 159--428)
  chains the Schema Discoverer, the Query Assembler, the contact query, the Reference
  Resolver and the Payload Normalizer as one promise chain, and \<^verbatim>\<open>run\<close> (lines 69--139)
  wraps it between opening the connection and releasing it. The database is the record
  \<open>database\<close>: the rows, or the error, that the MySQL driver returns for a query text. A
  rejected promise is an \<open>Inl\<close>; the queries \<^verbatim>\<open>execute\<close> issues together (the column
  queries of the discovery, the two lookup queries) fail with the first failure in the order
  the code issues them.
\<close>

section \<open>Queries\<close>

record database =
  db_query :: "string \<Rightarrow> js_error + jobj list"

text \<open>\<^verbatim>\<open>query(q)\<close> on the CiviCRM connection: the lines joined by newlines, with a semicolon.\<close>

definition run_query :: "database \<Rightarrow> string list \<Rightarrow> js_error + jobj list" where
  "run_query db q = db_query db (query_text q)"

text \<open>The two lookup queries, template literals with their line breaks and indentation.\<close>

definition state_query :: "string list" where
  "state_query = [[CHR 0x0A] @ ''      SELECT id, name'' @ [CHR 0x0A] @
                  ''      FROM civicrm_state_province'' @ [CHR 0x0A] @ ''    '']"

definition country_query :: "string list" where
  "country_query = [[CHR 0x0A] @ ''      SELECT id, iso_code'' @ [CHR 0x0A] @
                    ''      FROM civicrm_country'' @ [CHR 0x0A] @ ''    '']"

section \<open>execute\<close>

text \<open>
  The promise chain of \<^verbatim>\<open>execute(options)\<close>: custom groups, one catalog query per group,
  the table-to-columns object, the contact query, the two lookups, the row rewrite and the
  unserialising step.
\<close>

definition execute_export :: "runtime \<Rightarrow> database \<Rightarrow> jval \<Rightarrow> js_error + export_data" where
  "execute_export rt db limit =
     sbind custom_group_query (\<lambda>q.
     sbind (run_query db q) (\<lambda>custom_tables.
     sbind (mapM (\<lambda>row. run_query db (columns_query rt row)) custom_tables) (\<lambda>results.
     sbind (discover_schema rt custom_tables results) (\<lambda>sc.
     sbind (contact_query rt sc limit) (\<lambda>cq.
     sbind (run_query db cq) (\<lambda>result.
     sbind (run_query db state_query) (\<lambda>states.
     sbind (run_query db country_query) (\<lambda>countries.
     unserialise rt (resolve_references rt states countries result)))))))))"

section \<open>run\<close>

text \<open>What \<^verbatim>\<open>run\<close> does that can be observed, in order.\<close>

datatype run_event = Connected | DataDirCleared | FilesWritten | ErrorLogged js_error | ConnectionDestroyed

text \<open>
  The \<^verbatim>\<open>then\<close> chain of \<^verbatim>\<open>run\<close>: connect (setting the global \<^verbatim>\<open>civicrm\<close>), clear the
  data directory, \<^verbatim>\<open>execute\<close>, write one file per collection. Its arguments are the outcomes
  of the three I/O steps and of \<^verbatim>\<open>execute\<close>. The result of \<^verbatim>\<open>execute\<close> is an object, so
  the \<^verbatim>\<open>if (data)\<close> test always takes its first branch.
\<close>

definition run_chain ::
  "js_error + unit \<Rightarrow> js_error + unit \<Rightarrow> js_error + export_data \<Rightarrow> js_error + unit \<Rightarrow>
   (js_error + export_data) \<times> run_event list" where
  "run_chain conn clear exec write =
     (case conn of
        Inl e \<Rightarrow> (Inl e, [])
      | Inr _ \<Rightarrow>
     (case clear of
        Inl e \<Rightarrow> (Inl e, [Connected])
      | Inr _ \<Rightarrow>
     (case exec of
        Inl e \<Rightarrow> (Inl e, [Connected, DataDirCleared])
      | Inr d \<Rightarrow>
     (case write of
        Inl e \<Rightarrow> (Inl e, [Connected, DataDirCleared])
      | Inr _ \<Rightarrow> (Inr d, [Connected, DataDirCleared, FilesWritten])))))"

text \<open>\<^verbatim>\<open>.catch(error => console.trace(error))\<close>: the promise resolves to \<^verbatim>\<open>undefined\<close>.\<close>

definition run_catch ::
  "(js_error + export_data) \<times> run_event list \<Rightarrow> (js_error + export_data option) \<times> run_event list" where
  "run_catch re =
     (case re of
        (Inl e, evs) \<Rightarrow> (Inr None, evs @ [ErrorLogged e])
      | (Inr d, evs) \<Rightarrow> (Inr (Some d), evs))"

text \<open>
  \<^verbatim>\<open>.finally(() => civicrm.destroy())\<close>: when the connection was never made the global is
  \<^verbatim>\<open>undefined\<close>, the handler throws, and the promise rejects with that \<^verbatim>\<open>TypeError\<close>.
\<close>

definition run_finally ::
  "bool \<Rightarrow> (js_error + export_data option) \<times> run_event list \<Rightarrow> (js_error + export_data option) \<times> run_event list" where
  "run_finally connected re =
     (if connected then (fst re, snd re @ [ConnectionDestroyed])
      else (Inl (TypeError ''Cannot read properties of undefined (reading destroy)''), snd re))"

text \<open>Databases that answer every query with no rows, and with an error.\<close>

definition empty_db :: database where
  "empty_db = \<lparr>db_query = (\<lambda>s. Inr [])\<rparr>"

definition failing_db :: database where
  "failing_db = \<lparr>db_query = (\<lambda>s. Inl (SqlError ''connection lost''))\<rparr>"

text \<open>
  A database holding one contact (in state 1, country 9) and the state 1, Ontario, told
  apart by the first characters of the query text.
\<close>

definition contact_db :: database where
  "contact_db = \<lparr>db_query = (\<lambda>s. if take 15 s = ''SELECT contact.''
        then Inr [[(''id'', JNum 5), (''state_province_id'', JNum 1), (''country_id'', JNum 9)]]
        else if take 19 s = [CHR 0x0A] @ ''      SELECT id, n''
        then Inr [[(''id'', JNum 1), (''name'', JStr ''Ontario'')]] else Inr [])\<rparr>"

definition export_run ::
  "runtime \<Rightarrow> database \<Rightarrow> jval \<Rightarrow> js_error + unit \<Rightarrow> js_error + unit \<Rightarrow> js_error + unit \<Rightarrow>
   (js_error + export_data option) \<times> run_event list" where
  "export_run rt db limit conn clear write =
     run_finally (\<not> isl conn) (run_catch (run_chain conn clear (execute_export rt db limit) write))"

section \<open>Evaluation\<close>

lemma contact_db_export: "\<exists>out. execute_export sample_runtime contact_db JNull = Inr out"
  by (simp add: execute_export_def contact_db_def run_query_def custom_group_query_def fields_of_def
      fields_names_def discover_schema_def contact_query_def query_text_def contact_query_lines_def
      custom_table_fields_def schema_tables_def js_own_keys_def state_query_def country_query_def
      unserialise_eval resolve_references_def resolve_row_def resolve_code_def lookup_table_def
      js_or_null_def has_dashboard_def)

section \<open>Properties of run\<close>

lemmas run_defs = export_run_def run_finally_def run_catch_def run_chain_def

text \<open>
  C23. The connection is released on every path: once the connection is made, whatever
  fails afterwards (clearing the directory, any query, the normaliser, writing a file),
  the run ends by destroying the connection, exactly once.
\<close>

theorem export_run_releases:
  assumes "\<not> isl conn"
  shows "hd (snd (export_run rt db limit conn clear write)) = Connected \<and>
         last (snd (export_run rt db limit conn clear write)) = ConnectionDestroyed \<and>
         count_list (snd (export_run rt db limit conn clear write)) ConnectionDestroyed = 1"
  using assms by (cases conn) (simp_all add: run_defs split: sum.splits)

theorem export_run_releases_witness:
  "\<not> isl (Inr () :: js_error + unit) \<and>
   hd (snd (export_run sample_runtime empty_db JNull (Inr ()) (Inl (SqlError ''EACCES'')) (Inr ()))) = Connected \<and>
   last (snd (export_run sample_runtime empty_db JNull (Inr ()) (Inl (SqlError ''EACCES'')) (Inr ()))) = ConnectionDestroyed \<and>
   count_list (snd (export_run sample_runtime empty_db JNull (Inr ()) (Inl (SqlError ''EACCES'')) (Inr ()))) ConnectionDestroyed = 1"
  using export_run_releases [of "Inr ()" sample_runtime empty_db JNull "Inl (SqlError ''EACCES'')" "Inr ()"] by simp

text \<open>
  C28. A failure after the connection is made is swallowed: when \<^verbatim>\<open>execute\<close> fails (a query
  error, a duplicate hash, a corrupt ledger), \<^verbatim>\<open>run\<close> logs the error, releases the
  connection and resolves to \<^verbatim>\<open>undefined\<close>; its caller cannot tell the run failed.
\<close>

theorem export_run_swallows_errors:
  assumes "conn = Inr ()" and "clear = Inr ()" and "execute_export rt db limit = Inl e"
  shows "export_run rt db limit conn clear write =
           (Inr None, [Connected, DataDirCleared, ErrorLogged e, ConnectionDestroyed])"
  using assms by (simp add: run_defs)

theorem export_run_swallows_errors_witness:
  "execute_export sample_runtime failing_db JNull = Inl (SqlError ''connection lost'') \<and>
   export_run sample_runtime failing_db JNull (Inr ()) (Inr ()) (Inr ()) =
     (Inr None, [Connected, DataDirCleared, ErrorLogged (SqlError ''connection lost''), ConnectionDestroyed])"
proof -
  have "execute_export sample_runtime failing_db JNull = Inl (SqlError ''connection lost'')"
    by (simp add: execute_export_def failing_db_def run_query_def custom_group_query_def fields_of_def fields_names_def)
  with export_run_swallows_errors [OF refl refl this] show ?thesis by simp
qed

text \<open>
  C29. A failed connection is reported as a different error: the connection error is logged
  and the run then rejects with the \<^verbatim>\<open>TypeError\<close> of \<^verbatim>\<open>civicrm.destroy()\<close> on
  \<^verbatim>\<open>undefined\<close>, without anything to release.
\<close>

theorem export_run_connect_failure:
  assumes "conn = Inl e"
  shows "export_run rt db limit conn clear write =
           (Inl (TypeError ''Cannot read properties of undefined (reading destroy)''), [ErrorLogged e])"
  using assms by (simp add: run_defs)

theorem export_run_connect_failure_witness:
  "export_run sample_runtime empty_db JNull (Inl (SqlError ''ECONNREFUSED'')) (Inr ()) (Inr ()) =
     (Inl (TypeError ''Cannot read properties of undefined (reading destroy)''), [ErrorLogged (SqlError ''ECONNREFUSED'')])"
  using export_run_connect_failure [of "Inl (SqlError ''ECONNREFUSED'')" "SqlError ''ECONNREFUSED''" sample_runtime empty_db JNull]
  by simp

end
