(* ===== verification/SqlLiteral.thy ===== *)
theory SqlLiteral
  imports JsValue
begin

text \<open>
  The SQL literals of \<^verbatim>\<open>src/import.js\<close>. Every value the importer sends is written into
  the statement text by the helper \<^verbatim>\<open>value\<close> (lines 306--308): \<^verbatim>\<open>NULL\<close> for a falsy
  input or the string \<^verbatim>\<open>'Invalid date'\<close>, otherwise the input's string form between two
  dollar-quote tags \<^verbatim>\<open>$delimiter$\<close>. Postgres ends a dollar-quoted string at the first
  occurrence of its tag. The lexer \<open>lex_value\<close> reads one literal the way Postgres does
  and returns the rest of the input, so the round trip says both what is read and what is
  left over.
\<close>

section \<open>The helper value\<close>

definition dollar_tag :: string where
  "dollar_tag = ''$delimiter$''"

text \<open>\<^verbatim>\<open>input && input !== 'Invalid date' ? `$delimiter$${input}$delimiter$` : 'NULL'\<close>.\<close>

definition value_literal :: "runtime \<Rightarrow> jval \<Rightarrow> string" where
  "value_literal rt input =
     (if js_truthy input \<and> \<not> js_strict_eq input (JStr ''Invalid date'')
      then dollar_tag @ js_to_string rt input @ dollar_tag else ''NULL'')"

section \<open>Reading a literal\<close>

datatype sqlval = SNull | SText string

text \<open>The text before the first occurrence of a tag, and the text after it.\<close>

fun split_tag :: "string \<Rightarrow> string \<Rightarrow> (string \<times> string) option" where
  "split_tag t [] = (if t = [] then Some ([], []) else None)"
| "split_tag t (c # cs) =
     (if take (length t) (c # cs) = t then Some ([], drop (length t) (c # cs))
      else map_option (\<lambda>(a, b). (c # a, b)) (split_tag t cs))"

text \<open>One literal: the keyword \<^verbatim>\<open>NULL\<close> or a dollar-quoted string, and the rest of the input.\<close>

definition lex_value :: "string \<Rightarrow> (sqlval \<times> string) option" where
  "lex_value s =
     (if take 4 s = ''NULL'' then Some (SNull, drop 4 s)
      else if take (length dollar_tag) s = dollar_tag
      then map_option (\<lambda>(body, rest). (SText body, rest)) (split_tag dollar_tag (drop (length dollar_tag) s))
      else None)"

text \<open>What the code means a value to be in the destination column.\<close>

definition sql_value :: "runtime \<Rightarrow> jval \<Rightarrow> sqlval" where
  "sql_value rt input =
     (if js_truthy input \<and> \<not> js_strict_eq input (JStr ''Invalid date'')
      then SText (js_to_string rt input) else SNull)"

text \<open>
  A string survives the quoting when it holds no tag and does not end with the tag without
  its last character: in that case the closing tag would start inside the string.
\<close>

definition ends_with :: "string \<Rightarrow> string \<Rightarrow> bool" where
  "ends_with u s \<longleftrightarrow> length u \<le> length s \<and> drop (length s - length u) s = u"

definition quotable :: "string \<Rightarrow> bool" where
  "quotable s \<longleftrightarrow> split_tag dollar_tag s = None \<and> \<not> ends_with (butlast dollar_tag) s"

section \<open>Lemmas\<close>

lemma split_tag_None_Cons: "split_tag t (c # cs) = None \<Longrightarrow> split_tag t cs = None"
  by (simp split: if_splits)

lemma ends_with_Cons: "ends_with u cs \<Longrightarrow> ends_with u (c # cs)"
  by (auto simp: ends_with_def Suc_diff_le)

lemma quotable_Cons: "quotable (c # cs) \<Longrightarrow> quotable cs"
  unfolding quotable_def by (auto split: if_splits dest: ends_with_Cons)

text \<open>The only period of the tag shorter than the tag is ten.\<close>

lemma dollar_tag_period:
  assumes "0 < k" "k < length dollar_tag" "s @ take (length dollar_tag - k) dollar_tag = dollar_tag"
    and "length s = k"
  shows "s = butlast dollar_tag"
proof -
  from assms(3,4) have s: "s = take k dollar_tag"
    by (metis append_eq_conv_conj)
  with assms(3) have eq: "take k dollar_tag @ take (length dollar_tag - k) dollar_tag = dollar_tag"
    by simp
  from assms(1,2) have "k = 1 \<or> k = 2 \<or> k = 3 \<or> k = 4 \<or> k = 5 \<or> k = 6 \<or> k = 7 \<or> k = 8 \<or> k = 9 \<or> k = 10"
    by (simp add: dollar_tag_def) presburger
  then have "k = 10" using eq by (elim disjE) (simp_all add: dollar_tag_def)
  with s show ?thesis by (simp add: dollar_tag_def)
qed

lemma split_tag_quoted:
  assumes "quotable s"
  shows "split_tag dollar_tag (s @ dollar_tag @ rest) = Some (s, rest)"
  using assms
proof (induction s)
  case Nil
  then show ?case by (simp add: dollar_tag_def)
next
  case (Cons c cs)
  have "take (length dollar_tag) (c # cs @ dollar_tag @ rest) \<noteq> dollar_tag"
  proof
    assume eq: "take (length dollar_tag) (c # cs @ dollar_tag @ rest) = dollar_tag"
    show False
    proof (cases "length dollar_tag \<le> length (c # cs)")
      case True
      then have "take (length dollar_tag) (c # cs) = dollar_tag"
        using eq by (metis append_Cons take_append diff_is_0_eq take0 append_Nil2)
      then show False using Cons.prems by (auto simp: quotable_def)
    next
      case False
      have "take (length dollar_tag) ((c # cs) @ dollar_tag @ rest) =
            (c # cs) @ take (length dollar_tag - length (c # cs)) dollar_tag"
        using False by (simp add: take_append del: append_Cons)
      with eq have "(c # cs) @ take (length dollar_tag - length (c # cs)) dollar_tag = dollar_tag"
        by simp
      then have "c # cs = butlast dollar_tag"
        using False by (intro dollar_tag_period [of "length (c # cs)"]) auto
      then show False using Cons.prems by (simp add: quotable_def ends_with_def)
    qed
  qed
  with Cons.IH [OF quotable_Cons [OF Cons.prems]] show ?case by simp
qed

lemma dollar_tag_facts [simp]: "take 4 dollar_tag = ''$del''" "length dollar_tag = 11"
  by (simp_all add: dollar_tag_def)

lemma lex_value_quoted:
  "quotable s \<Longrightarrow> lex_value (dollar_tag @ s @ dollar_tag @ rest) = Some (SText s, rest)"
  by (simp add: lex_value_def split_tag_quoted)

lemma lex_value_NULL: "lex_value (''NULL'' @ rest) = Some (SNull, rest)"
  by (simp add: lex_value_def)

section \<open>Properties\<close>

text \<open>
  C7. Round trip of the quoting: for an input whose string form is quotable, Postgres reads
  the literal \<open>value\<close> writes as exactly the value the code means (\<^verbatim>\<open>NULL\<close> for a falsy
  input or \<^verbatim>\<open>'Invalid date'\<close>, the string form otherwise) and continues with the text that
  follows it.
\<close>

theorem value_literal_roundtrip:
  assumes "quotable (js_to_string rt v)"
  shows "lex_value (value_literal rt v @ rest) = Some (sql_value rt v, rest)"
proof (cases "js_truthy v \<and> \<not> js_strict_eq v (JStr ''Invalid date'')")
  case True
  with lex_value_quoted [OF assms] show ?thesis by (simp add: value_literal_def sql_value_def)
next
  case False
  have "value_literal rt v = ''NULL''" unfolding value_literal_def using False by (rule if_not_P)
  moreover have "sql_value rt v = SNull" unfolding sql_value_def using False by (rule if_not_P)
  ultimately show ?thesis using lex_value_NULL [of rest] by simp
qed

theorem value_literal_roundtrip_witness:
  "quotable (js_to_string sample_runtime (JStr ''O'Reilly'')) \<and>
   lex_value (value_literal sample_runtime (JStr ''O'Reilly'') @ '', NULL)'') =
     Some (SText ''O'Reilly'', '', NULL)'')"
proof -
  have q: "quotable (js_to_string sample_runtime (JStr ''O'Reilly''))"
    by (simp add: quotable_def ends_with_def dollar_tag_def)
  from value_literal_roundtrip [OF q, of "'', NULL)''"] q show ?thesis
    by (simp add: sql_value_def)
qed

lemma value_literal_dollar:
  assumes "CHR ''$'' \<in> set s"
  shows "value_literal rt (JStr s) = dollar_tag @ s @ dollar_tag"
proof -
  have "s \<noteq> ''Invalid date''" using assms by auto
  with assms show ?thesis by (auto simp: value_literal_def)
qed

text \<open>
  C36. The quoting is not safe: a string that holds the tag ends the literal there, so the
  text after the tag is read as SQL (one value can become a value and further tuples), and a
  string that ends with \<^verbatim>\<open>$delimiter\<close> is cut short, the closing tag being read inside it:
  in both cases Postgres reads only the quotable part \<open>u\<close> before the tag.
\<close>

theorem value_literal_breaks:
  assumes "quotable u"
  shows "lex_value (value_literal rt (JStr (u @ dollar_tag @ w)) @ rest) = Some (SText u, w @ dollar_tag @ rest) \<and>
         lex_value (value_literal rt (JStr (u @ butlast dollar_tag)) @ rest) = Some (SText u, tl dollar_tag @ rest)"
proof
  have "value_literal rt (JStr (u @ dollar_tag @ w)) = dollar_tag @ u @ dollar_tag @ w @ dollar_tag"
    by (simp add: value_literal_dollar dollar_tag_def)
  then show "lex_value (value_literal rt (JStr (u @ dollar_tag @ w)) @ rest) = Some (SText u, w @ dollar_tag @ rest)"
    using lex_value_quoted [OF assms, of "w @ dollar_tag @ rest"] by simp
next
  have "value_literal rt (JStr (u @ butlast dollar_tag)) = dollar_tag @ u @ dollar_tag @ tl dollar_tag"
    by (simp add: value_literal_dollar dollar_tag_def)
  then show "lex_value (value_literal rt (JStr (u @ butlast dollar_tag)) @ rest) = Some (SText u, tl dollar_tag @ rest)"
    using lex_value_quoted [OF assms, of "tl dollar_tag @ rest"] by simp
qed

theorem value_literal_breaks_witness:
  "lex_value (value_literal sample_runtime (JStr (''a'' @ dollar_tag @ '', NULL), ('')) @ ''x'') =
     Some (SText ''a'', '', NULL), ('' @ dollar_tag @ ''x'') \<and>
   lex_value (value_literal sample_runtime (JStr (''x'' @ butlast dollar_tag)) @ '', NULL'') =
     Some (SText ''x'', tl dollar_tag @ '', NULL'')"
proof -
  have "quotable ''a''" "quotable ''x''" by (simp_all add: quotable_def ends_with_def dollar_tag_def)
  then show ?thesis
    using value_literal_breaks [of "''a''" sample_runtime "'', NULL), (''" "''x''"]
          value_literal_breaks [of "''x''" sample_runtime _ "'', NULL''"]
    by blast
qed

end
