(* ===== verification/PgStore.thy ===== *)
theory PgStore
  imports SqlLiteral
begin

text \<open>
  The destination store the importer writes to: a model of the Postgres statement every
  import function of \<^verbatim>\<open>src/import.js\<close> sends,
  \<^verbatim>\<open>INSERT INTO t(...) VALUES (...), ... ON CONFLICT (key) DO UPDATE SET c = EXCLUDED.c
  RETURNING ...\<close>, where \<open>c\<close> is always a column of the key. It is the library behaviour
  the code relies on, written from the Postgres documentation, not code of the repository.
  A table is its rows with their serial ids and the next value of the id sequence. The rules
  modelled: a row conflicts with a proposed row when their key columns are equal and none of
  them is \<^verbatim>\<open>NULL\<close> (a unique index treats \<^verbatim>\<open>NULL\<close>s as distinct); a conflicting row is
  updated (its key column set to the equal proposed value, so it does not change) and
  returned; a proposed row without conflict is inserted with the next id; one statement may
  not affect the same row twice; a sequence value is drawn for every proposed row, conflict or
  not; an empty \<^verbatim>\<open>VALUES\<close> list is a syntax error; a failing statement changes nothing.
\<close>

section \<open>Tables\<close>

type_synonym row = "sqlval list"

record pg_table =
  tbl_rows :: "(nat \<times> row) list"
  tbl_next :: nat

definition key_of :: "nat list \<Rightarrow> row \<Rightarrow> sqlval list" where
  "key_of ks r = map (\<lambda>i. if i < length r then r ! i else SNull) ks"

definition key_usable :: "sqlval list \<Rightarrow> bool" where
  "key_usable k \<longleftrightarrow> SNull \<notin> set k"

definition conflicts :: "nat list \<Rightarrow> row \<Rightarrow> row \<Rightarrow> bool" where
  "conflicts ks r r' \<longleftrightarrow> key_usable (key_of ks r) \<and> key_of ks r = key_of ks r'"

definition err_twice :: js_error where
  "err_twice = SqlError ''ON CONFLICT DO UPDATE command cannot affect row a second time''"

definition err_empty_values :: js_error where
  "err_empty_values = SqlError ''syntax error at or near ON''"

section \<open>The upsert statement\<close>

text \<open>
  One proposed row, with the ids the statement has affected so far and the rows it has
  returned so far.
\<close>

type_synonym upsert_acc = "nat list \<times> (nat \<times> row) list \<times> pg_table"

definition upsert_row :: "nat list \<Rightarrow> row \<Rightarrow> upsert_acc \<Rightarrow> js_error + upsert_acc" where
  "upsert_row ks r acc =
     (case acc of (aff, ret, t) \<Rightarrow>
      let t1 = t\<lparr>tbl_next := Suc (tbl_next t)\<rparr> in
      (case find (\<lambda>(i, r'). conflicts ks r r') (tbl_rows t) of
         Some (i, r') \<Rightarrow>
           if i \<in> set aff then Inl err_twice else Inr (aff @ [i], ret @ [(i, r')], t1)
       | None \<Rightarrow>
           Inr (aff @ [tbl_next t], ret @ [(tbl_next t, r)],
                t1\<lparr>tbl_rows := tbl_rows t @ [(tbl_next t, r)]\<rparr>)))"

definition upsert_stmt :: "nat list \<Rightarrow> row list \<Rightarrow> pg_table \<Rightarrow> js_error + (nat \<times> row) list \<times> pg_table" where
  "upsert_stmt ks rs t =
     (if rs = [] then Inl err_empty_values
      else (case foldM (upsert_row ks) rs ([], [], t) of
              Inl e \<Rightarrow> Inl e
            | Inr (aff, ret, t') \<Rightarrow> Inr (ret, t')))"

section \<open>The table invariant\<close>

text \<open>
  Ids are distinct and below the next sequence value, and no two rows share a key without
  \<^verbatim>\<open>NULL\<close>s: the unique index the \<^verbatim>\<open>ON CONFLICT\<close> clause names.
\<close>

definition pg_inv :: "nat list \<Rightarrow> pg_table \<Rightarrow> bool" where
  "pg_inv ks t \<longleftrightarrow>
     distinct (map fst (tbl_rows t)) \<and> (\<forall>x\<in>set (tbl_rows t). fst x < tbl_next t) \<and>
     (\<forall>x\<in>set (tbl_rows t). \<forall>y\<in>set (tbl_rows t).
        key_usable (key_of ks (snd x)) \<and> key_of ks (snd x) = key_of ks (snd y) \<longrightarrow> x = y)"

text \<open>What a statement keeps true while it runs, besides the table invariant.\<close>

definition acc_inv :: "nat list \<Rightarrow> upsert_acc \<Rightarrow> bool" where
  "acc_inv ks acc \<longleftrightarrow>
     (case acc of (aff, ret, t) \<Rightarrow>
        pg_inv ks t \<and> aff = map fst ret \<and> distinct aff \<and> set ret \<subseteq> set (tbl_rows t))"

section \<open>Lemmas\<close>

lemma find_unique:
  assumes "x \<in> set xs" and "P x" and "\<forall>y\<in>set xs. P y \<longrightarrow> y = x"
  shows "find P xs = Some x"
  using assms
proof (induction xs)
  case (Cons a xs)
  show ?case
  proof (cases "P a")
    case True
    then have "a = x" using Cons.prems(3) by (meson list.set_intros(1))
    then show ?thesis using True by simp
  next
    case False
    then have "x \<in> set xs" using Cons.prems(1,2) by auto
    moreover have "\<forall>y\<in>set xs. P y \<longrightarrow> y = x" using Cons.prems(3) by auto
    ultimately have "find P xs = Some x" using Cons.IH Cons.prems(2) by blast
    then show ?thesis using False by simp
  qed
qed simp

lemma pg_inv_key_unique:
  "pg_inv ks t \<Longrightarrow> x \<in> set (tbl_rows t) \<Longrightarrow> y \<in> set (tbl_rows t) \<Longrightarrow>
   key_usable (key_of ks (snd x)) \<Longrightarrow> key_of ks (snd x) = key_of ks (snd y) \<Longrightarrow> x = y"
  unfolding pg_inv_def by blast

lemma upsert_row_Inl: "upsert_row ks r acc = Inl e \<Longrightarrow> e = err_twice"
  by (auto simp: upsert_row_def Let_def split: prod.splits option.splits if_splits)

lemma upsert_rows_Inl: "foldM (upsert_row ks) rs acc = Inl e \<Longrightarrow> e = err_twice"
proof (induction rs arbitrary: acc)
  case (Cons r rs)
  then show ?case by (auto simp: sbind_eq_Inl dest: upsert_row_Inl)
qed simp

text \<open>One proposed row appends one returned row, which is in the table afterwards.\<close>

lemma upsert_row_Inr:
  assumes run: "upsert_row ks r (aff, ret, t) = Inr (aff', ret', t')"
  obtains y where "ret' = ret @ [y]" and "aff' = aff @ [fst y]" and "y \<in> set (tbl_rows t')"
    and "\<exists>more. tbl_rows t' = tbl_rows t @ more" and "tbl_next t' = Suc (tbl_next t)"
    and "key_usable (key_of ks r) \<Longrightarrow> key_of ks (snd y) = key_of ks r"
    and "\<not> key_usable (key_of ks r) \<Longrightarrow> y = (tbl_next t, r) \<and> tbl_rows t' = tbl_rows t @ [y]"
    and "y \<in> set (tbl_rows t) \<and> fst y \<notin> set aff \<and> tbl_rows t' = tbl_rows t \<or>
         y = (tbl_next t, r) \<and> tbl_rows t' = tbl_rows t @ [y] \<and>
         (\<forall>x\<in>set (tbl_rows t). \<not> conflicts ks r (snd x))"
proof (cases "find (\<lambda>(i, r'). conflicts ks r r') (tbl_rows t)")
  case None
  with run have "aff' = aff @ [tbl_next t]" "ret' = ret @ [(tbl_next t, r)]"
    "t' = t\<lparr>tbl_next := Suc (tbl_next t), tbl_rows := tbl_rows t @ [(tbl_next t, r)]\<rparr>"
    by (auto simp: upsert_row_def Let_def)
  moreover from None have "\<forall>x\<in>set (tbl_rows t). \<not> conflicts ks r (snd x)"
    by (auto simp: find_None_iff)
  ultimately show ?thesis by (intro that [of "(tbl_next t, r)"]) auto
next
  case (Some p)
  obtain i r' where p: "p = (i, r')" by (cases p)
  with Some have mem: "(i, r') \<in> set (tbl_rows t)" and c: "conflicts ks r r'"
    by (auto simp: find_Some_iff dest!: nth_mem)
  with Some p run have "i \<notin> set aff" "aff' = aff @ [i]" "ret' = ret @ [(i, r')]"
    "t' = t\<lparr>tbl_next := Suc (tbl_next t)\<rparr>"
    by (auto simp: upsert_row_def Let_def split: if_splits)
  with mem c show ?thesis by (intro that [of "(i, r')"]) (auto simp: conflicts_def)
qed

lemma upsert_row_acc_inv:
  assumes run: "upsert_row ks r acc = Inr acc'" and inv: "acc_inv ks acc"
  shows "acc_inv ks acc'"
proof -
  obtain aff ret t where acc: "acc = (aff, ret, t)" by (cases acc)
  obtain aff' ret' t' where acc': "acc' = (aff', ret', t')" by (cases acc')
  from inv acc have pg: "pg_inv ks t" and a: "aff = map fst ret" "distinct aff" "set ret \<subseteq> set (tbl_rows t)"
    by (auto simp: acc_inv_def)
  have fresh: "tbl_next t \<notin> set aff"
  proof
    assume "tbl_next t \<in> set aff"
    then obtain y where "y \<in> set ret" and y: "fst y = tbl_next t" using a(1) by auto
    then have "y \<in> set (tbl_rows t)" using a(3) by blast
    with pg y show False unfolding pg_inv_def by fastforce
  qed
  from run [unfolded acc acc'] show ?thesis
  proof (rule upsert_row_Inr)
    fix y
    assume ret': "ret' = ret @ [y]" and aff': "aff' = aff @ [fst y]" and next': "tbl_next t' = Suc (tbl_next t)"
      and cases: "y \<in> set (tbl_rows t) \<and> fst y \<notin> set aff \<and> tbl_rows t' = tbl_rows t \<or>
         y = (tbl_next t, r) \<and> tbl_rows t' = tbl_rows t @ [y] \<and>
         (\<forall>x\<in>set (tbl_rows t). \<not> conflicts ks r (snd x))"
    from cases show ?thesis
    proof
      assume "y \<in> set (tbl_rows t) \<and> fst y \<notin> set aff \<and> tbl_rows t' = tbl_rows t"
      with pg a ret' aff' next' show ?thesis
        by (auto simp: acc' acc_inv_def pg_inv_def less_Suc_eq)
    next
      assume new: "y = (tbl_next t, r) \<and> tbl_rows t' = tbl_rows t @ [y] \<and>
         (\<forall>x\<in>set (tbl_rows t). \<not> conflicts ks r (snd x))"
      have "pg_inv ks t'"
        using pg new next' unfolding pg_inv_def conflicts_def by (auto simp: less_Suc_eq)
      with new a ret' aff' fresh show ?thesis by (auto simp: acc' acc_inv_def)
    qed
  qed
qed

lemma upsert_rows_acc_inv:
  "foldM (upsert_row ks) rs acc = Inr acc' \<Longrightarrow> acc_inv ks acc \<Longrightarrow> acc_inv ks acc'"
  by (rule foldM_invariant [where P = "acc_inv ks"]) (auto intro: upsert_row_acc_inv)

lemma upsert_rows_prefix:
  "foldM (upsert_row ks) rs acc = Inr acc' \<Longrightarrow>
   \<exists>more. tbl_rows (snd (snd acc')) = tbl_rows (snd (snd acc)) @ more"
  by (rule foldM_invariant [where P = "\<lambda>a. \<exists>more. tbl_rows (snd (snd a)) = tbl_rows (snd (snd acc)) @ more"])
     (auto elim!: upsert_row_Inr simp: split_paired_all)

text \<open>What a statement returns for each proposed row.\<close>

definition returned_for :: "nat list \<Rightarrow> row \<Rightarrow> nat \<times> row \<Rightarrow> bool" where
  "returned_for ks r y \<longleftrightarrow>
     (key_usable (key_of ks r) \<longrightarrow> key_of ks (snd y) = key_of ks r) \<and>
     (\<not> key_usable (key_of ks r) \<longrightarrow> snd y = r)"

lemma upsert_rows_returned:
  "foldM (upsert_row ks) rs acc = Inr acc' \<Longrightarrow>
   \<exists>new. fst (snd acc') = fst (snd acc) @ new \<and> list_all2 (returned_for ks) rs new"
  by (rule foldM_snoc_rel [where g = "\<lambda>a. fst (snd a)"])
     (auto elim!: upsert_row_Inr simp: split_paired_all returned_for_def)

lemma upsert_stmt_Inr:
  assumes "pg_inv ks t" and "upsert_stmt ks rs t = Inr (ret, t')"
  shows "rs \<noteq> [] \<and> pg_inv ks t' \<and> (\<exists>more. tbl_rows t' = tbl_rows t @ more) \<and>
         distinct (map fst ret) \<and> set ret \<subseteq> set (tbl_rows t') \<and> list_all2 (returned_for ks) rs ret"
proof -
  from assms(2) obtain aff where rs: "rs \<noteq> []" and run: "foldM (upsert_row ks) rs ([], [], t) = Inr (aff, ret, t')"
    by (auto simp: upsert_stmt_def split: if_splits sum.splits prod.splits)
  have "acc_inv ks ([], [], t)" using assms(1) by (simp add: acc_inv_def)
  with upsert_rows_acc_inv [OF run] have "acc_inv ks (aff, ret, t')" by blast
  moreover from upsert_rows_prefix [OF run] have "\<exists>more. tbl_rows t' = tbl_rows t @ more" by simp
  moreover from upsert_rows_returned [OF run] have "list_all2 (returned_for ks) rs ret" by simp
  ultimately show ?thesis using rs by (auto simp: acc_inv_def)
qed

text \<open>A statement whose rows all meet rows of the table updates them in order and inserts nothing.\<close>

lemma upsert_rows_existing:
  assumes "pg_inv ks t"
    and "list_all2 (\<lambda>r y. y \<in> set (tbl_rows t) \<and> conflicts ks r (snd y)) rs new"
    and "distinct (aff @ map fst new)"
  shows "foldM (upsert_row ks) rs (aff, acc, t) =
           Inr (aff @ map fst new, acc @ new, t\<lparr>tbl_next := tbl_next t + length rs\<rparr>)"
  using assms
proof (induction rs arbitrary: new aff acc t)
  case Nil
  then show ?case by simp
next
  case (Cons r rs)
  from Cons.prems(2) obtain y new' where new: "new = y # new'" and y: "y \<in> set (tbl_rows t)"
    and c: "conflicts ks r (snd y)"
    and rest: "list_all2 (\<lambda>r y. y \<in> set (tbl_rows t) \<and> conflicts ks r (snd y)) rs new'"
    by (auto simp: list_all2_Cons1)
  have found: "find (\<lambda>(i, r'). conflicts ks r r') (tbl_rows t) = Some y"
  proof (rule find_unique)
    show "y \<in> set (tbl_rows t)" by (fact y)
    show "(\<lambda>(i, r'). conflicts ks r r') y" using c by (cases y) simp
    show "\<forall>z\<in>set (tbl_rows t). (\<lambda>(i, r'). conflicts ks r r') z \<longrightarrow> z = y"
      using c y Cons.prems(1) by (auto simp: conflicts_def dest: pg_inv_key_unique)
  qed
  from Cons.prems(3) new have notin: "fst y \<notin> set aff" by simp
  let ?t1 = "t\<lparr>tbl_next := Suc (tbl_next t)\<rparr>"
  have step: "upsert_row ks r (aff, acc, t) = Inr (aff @ [fst y], acc @ [y], ?t1)"
    using found notin by (cases y) (simp add: upsert_row_def)
  have "pg_inv ks ?t1" using Cons.prems(1) by (auto simp: pg_inv_def less_Suc_eq)
  moreover have "list_all2 (\<lambda>r y. y \<in> set (tbl_rows ?t1) \<and> conflicts ks r (snd y)) rs new'"
    using rest by simp
  moreover have "distinct ((aff @ [fst y]) @ map fst new')" using Cons.prems(3) new by simp
  ultimately have "foldM (upsert_row ks) rs (aff @ [fst y], acc @ [y], ?t1) =
      Inr ((aff @ [fst y]) @ map fst new', (acc @ [y]) @ new', ?t1\<lparr>tbl_next := tbl_next ?t1 + length rs\<rparr>)"
    by (rule Cons.IH)
  then show ?case using step new by simp
qed

lemma upsert_rows_null_count:
  "foldM (upsert_row ks) rs (aff, ret, t) = Inr (aff', ret', t') \<Longrightarrow>
   length (tbl_rows t) + length (filter (\<lambda>r. \<not> key_usable (key_of ks r)) rs) \<le> length (tbl_rows t')"
proof (induction rs arbitrary: aff ret t)
  case (Cons r rs)
  from Cons.prems obtain aff1 ret1 t1 where s: "upsert_row ks r (aff, ret, t) = Inr (aff1, ret1, t1)"
    and rest: "foldM (upsert_row ks) rs (aff1, ret1, t1) = Inr (aff', ret', t')"
    by (auto simp: sbind_eq_Inr)
  from s have "length (tbl_rows t) + (if key_usable (key_of ks r) then 0 else 1) \<le> length (tbl_rows t1)"
    by (rule upsert_row_Inr) auto
  with Cons.IH [OF rest] show ?case by (simp split: if_splits)
qed simp

section \<open>Properties of the upsert statement\<close>

text \<open>An empty table whose sequence starts at 1, and a proposed row with an e-mail key.\<close>

definition empty_table :: pg_table where
  "empty_table = \<lparr>tbl_rows = [], tbl_next = 1\<rparr>"

lemma empty_table_inv: "pg_inv ks empty_table"
  by (simp add: pg_inv_def empty_table_def)

lemma upsert_example:
  "upsert_stmt [0] [[SText ''a@x.org'']] empty_table =
     Inr ([(1, [SText ''a@x.org''])], \<lparr>tbl_rows = [(1, [SText ''a@x.org''])], tbl_next = 2\<rparr>)"
  by (simp add: upsert_stmt_def upsert_row_def empty_table_def)

lemma upsert_null_example:
  "upsert_stmt [0] [[SNull]] empty_table =
     Inr ([(1, [SNull])], \<lparr>tbl_rows = [(1, [SNull])], tbl_next = 2\<rparr>)"
  by (simp add: upsert_stmt_def upsert_row_def empty_table_def)

section \<open>Properties of the statement\<close>

text \<open>
  \<^verbatim>\<open>RETURNING\<close> gives one row per proposed row, in order, whatever the table: each
  carries the key of its proposed row (or is the proposed row itself when its key has a
  \<^verbatim>\<open>NULL\<close>).
\<close>

lemma upsert_stmt_returned:
  assumes "upsert_stmt ks rs t = Inr (ret, t')"
  shows "list_all2 (returned_for ks) rs ret"
proof -
  from assms obtain aff where "foldM (upsert_row ks) rs ([], [], t) = Inr (aff, ret, t')"
    by (auto simp: upsert_stmt_def split: if_splits sum.splits prod.splits)
  from upsert_rows_returned [OF this] show ?thesis by simp
qed

lemma returned_for_key: "returned_for ks r y \<Longrightarrow> key_of ks (snd y) = key_of ks r"
  by (cases "key_usable (key_of ks r)") (simp_all add: returned_for_def)

lemma upsert_stmt_Inl: "upsert_stmt ks rs t = Inl e \<Longrightarrow> e = err_empty_values \<or> e = err_twice"
  by (auto simp: upsert_stmt_def split: if_splits sum.splits prod.splits dest: upsert_rows_Inl)

text \<open>
  Idempotence: when no proposed row has a \<^verbatim>\<open>NULL\<close> in its key, running the same statement
  again on the table it produced returns the same rows and changes no row; only the id
  sequence advances.
\<close>

lemma upsert_stmt_idempotent:
  assumes "pg_inv ks t" and "\<forall>r\<in>set rs. key_usable (key_of ks r)"
    and "upsert_stmt ks rs t = Inr (ret, t')"
  shows "upsert_stmt ks rs t' = Inr (ret, t'\<lparr>tbl_next := tbl_next t' + length rs\<rparr>)"
proof -
  from upsert_stmt_Inr [OF assms(1,3)] have ne: "rs \<noteq> []" and inv: "pg_inv ks t'"
    and d: "distinct (map fst ret)" and sub: "set ret \<subseteq> set (tbl_rows t')"
    and rel: "list_all2 (returned_for ks) rs ret" by auto
  have "list_all2 (\<lambda>r y. y \<in> set (tbl_rows t') \<and> conflicts ks r (snd y)) rs ret"
    using rel sub assms(2)
    by (auto simp: list_all2_conv_all_nth returned_for_def conflicts_def dest!: nth_mem)
  from upsert_rows_existing [OF inv this, of "[]" "[]"] d ne show ?thesis
    by (simp add: upsert_stmt_def)
qed

text \<open>
  A \<^verbatim>\<open>NULL\<close> in the key defeats the upsert: every proposed row whose key has a \<^verbatim>\<open>NULL\<close>
  is inserted as a new row.
\<close>

lemma upsert_stmt_null_key_inserts:
  assumes "upsert_stmt ks rs t = Inr (ret, t')"
  shows "length (tbl_rows t) + length (filter (\<lambda>r. \<not> key_usable (key_of ks r)) rs) \<le> length (tbl_rows t')"
proof -
  from assms obtain aff where "foldM (upsert_row ks) rs ([], [], t) = Inr (aff, ret, t')"
    by (auto simp: upsert_stmt_def split: if_splits sum.splits prod.splits)
  then show ?thesis by (rule upsert_rows_null_count)
qed

text \<open>
  Two proposed rows with the same key without \<^verbatim>\<open>NULL\<close>s make the whole statement fail with
  Postgres' error that a row cannot be affected twice.
\<close>

lemma upsert_stmt_duplicate_key:
  assumes "pg_inv ks t" and "i < j" and "j < length rs"
    and "key_usable (key_of ks (rs ! i))" and "key_of ks (rs ! i) = key_of ks (rs ! j)"
  shows "upsert_stmt ks rs t = Inl err_twice"
proof (cases "upsert_stmt ks rs t")
  case (Inl e)
  with assms(3) show ?thesis
    by (auto simp: upsert_stmt_def split: if_splits sum.splits prod.splits dest: upsert_rows_Inl)
next
  case (Inr p)
  obtain ret t' where p: "p = (ret, t')" by (cases p)
  from upsert_stmt_Inr [OF assms(1) Inr [unfolded p]] have inv: "pg_inv ks t'"
    and d: "distinct (map fst ret)" and sub: "set ret \<subseteq> set (tbl_rows t')"
    and rel: "list_all2 (returned_for ks) rs ret" by auto
  from rel assms(2,3) have len: "i < length ret" "j < length ret" by (auto dest: list_all2_lengthD)
  from rel len assms(2-5) have ki: "key_of ks (snd (ret ! i)) = key_of ks (rs ! i)"
    and kj: "key_of ks (snd (ret ! j)) = key_of ks (rs ! i)"
    by (auto simp: list_all2_conv_all_nth returned_for_def)
  from len sub have "ret ! i \<in> set (tbl_rows t')" "ret ! j \<in> set (tbl_rows t')" by (auto dest!: nth_mem)
  with inv ki kj assms(4) have "ret ! i = ret ! j" by (auto intro: pg_inv_key_unique)
  moreover have "fst (ret ! i) \<noteq> fst (ret ! j)"
    using d len assms(2) by (simp add: distinct_conv_nth)
  ultimately show ?thesis by simp
qed

end
