(* ===== verification/UpsertWriter.thy ===== *)
theory UpsertWriter
  imports Orchestrator PgStore
begin

text \<open>
  The Load/Upsert Writer, \<^verbatim>\<open>src/import.js\<close>, with its configuration \<^verbatim>\<open>src/knexfile.js\<close>.
  \<^verbatim>\<open>run\<close> takes the collections \<^verbatim>\<open>exportData.run\<close> resolves to and writes them to
  Postgres in the order people; profiles, addresses and pledges together; organisations;
  donations; income. Each \<^verbatim>\<open>import*\<close> function sends one \<^verbatim>\<open>INSERT ... ON CONFLICT ... DO
  UPDATE\<close> statement whose values are written into the text by \<^verbatim>\<open>value\<close>
  (\<open>SqlLiteral\<close>); the destination's answer is the statement semantics of \<open>PgStore\<close>. The
  destination is the record \<open>dest_db\<close> of its seven tables; a step returns its result
  and the database after it, and a failed statement leaves its table as it was, while the
  statements that succeeded before it stay committed. The ids the people and organisation
  statements return are kept in \<^verbatim>\<open>importedData\<close>, the record \<open>imported\<close>.
\<close>

section \<open>The destination\<close>

record dest_db =
  person_tbl :: pg_table
  profile_tbl :: pg_table
  address_tbl :: pg_table
  pledge_tbl :: pg_table
  organization_tbl :: pg_table
  donation_tbl :: pg_table
  income_tbl :: pg_table

text \<open>The conflict targets of the statements, as column positions of their \<^verbatim>\<open>VALUES\<close> tuples.\<close>

definition person_key :: "nat list" where "person_key = [0]"
definition profile_key :: "nat list" where "profile_key = [0]"
definition address_key :: "nat list" where "address_key = [0, 1, 4, 5]"
definition organization_key :: "nat list" where "organization_key = [0]"
definition donation_key :: "nat list" where "donation_key = [0, 1, 2, 3]"
definition income_key :: "nat list" where "income_key = [0, 1, 2, 4]"

section \<open>Sending a statement\<close>

text \<open>
  knex's Postgres client rewrites the text of a raw statement before sending it
  (\<^verbatim>\<open>positionBindings\<close>): every \<^verbatim>\<open>?\<close> with the run of backslashes before it is
  replaced by \<^verbatim>\<open>$1\<close>, \<^verbatim>\<open>$2\<close>, ... in order when the run has even length, and by a bare
  \<^verbatim>\<open>?\<close> when it has odd length; other backslashes stay. The argument \<open>bs\<close> is the run of
  backslashes read and not yet written.
\<close>

fun position_bindings :: "nat \<Rightarrow> string \<Rightarrow> string \<Rightarrow> string \<times> nat" where
  "position_bindings n bs [] = (bs, n)"
| "position_bindings n bs (c # cs) =
     (if c = CHR 0x5C then position_bindings n (bs @ [c]) cs
      else if c = CHR ''?'' then
        (if odd (length bs) then apfst (Cons (CHR ''?'')) (position_bindings n [] cs)
         else apfst (append (CHR ''$'' # show_nat (Suc n))) (position_bindings (Suc n) [] cs))
      else apfst (append (bs @ [c])) (position_bindings n [] cs))"

text \<open>
  The statements' own text holds no \<^verbatim>\<open>?\<close> and no backslash, and every literal ends with
  \<^verbatim>\<open>$\<close> or \<^verbatim>\<open>L\<close>, so rewriting the whole text is rewriting its literals in order, the
  counter running on from one literal to the next.
\<close>

fun bind_literals :: "nat \<Rightarrow> string list \<Rightarrow> string list \<times> nat" where
  "bind_literals n [] = ([], n)"
| "bind_literals n (s # ss) =
     (case position_bindings n [] s of (s', m) \<Rightarrow> apfst (Cons s') (bind_literals m ss))"

fun bind_tuples :: "nat \<Rightarrow> string list list \<Rightarrow> string list list \<times> nat" where
  "bind_tuples n [] = ([], n)"
| "bind_tuples n (t # ts) =
     (case bind_literals n t of (t', m) \<Rightarrow> apfst (Cons t') (bind_tuples m ts))"

text \<open>
  Postgres reads a literal as the code means it when it is exactly one \<^verbatim>\<open>NULL\<close> or one
  dollar-quoted string; otherwise (see \<open>value_literal_breaks\<close>) the text is other SQL than
  the code's statement.
\<close>

definition decode_literal :: "string \<Rightarrow> sqlval option" where
  "decode_literal s = (case lex_value s of Some (v, []) \<Rightarrow> Some v | _ \<Rightarrow> None)"

definition read_tuples :: "string list list \<Rightarrow> row list option" where
  "read_tuples tuples = omap (omap decode_literal) tuples"

text \<open>
  A value the importer sends unchanged: knex finds no \<^verbatim>\<open>?\<close> in it to rewrite, and
  Postgres reads its literal back whole.
\<close>

definition plain :: "string \<Rightarrow> bool" where
  "plain s \<longleftrightarrow> quotable s \<and> CHR ''?'' \<notin> set s"

text \<open>
  \<^verbatim>\<open>knex.raw(...)\<close> of an upsert on one table: the outcome of the statement the code means,
  or \<open>None\<close> when a value has broken out of its quoting.
\<close>

definition send_upsert ::
  "nat list \<Rightarrow> string list list \<Rightarrow> pg_table \<Rightarrow> (js_error + (nat \<times> row) list \<times> pg_table) option" where
  "send_upsert ks tuples t =
     map_option (\<lambda>rows. upsert_stmt ks rows t) (read_tuples (fst (bind_tuples 0 tuples)))"

text \<open>The statements the importer can send, and the server they go to.\<close>

datatype stmt = PersonStmt | ProfileStmt | AddressStmt | PledgeStmt | OrganizationStmt | DonationStmt | IncomeStmt

text \<open>
  What Postgres does with a statement whose text a value has altered is whatever SQL the text
  now is, on any table; the model leaves it to the parameter \<open>altered\<close>, given the statement
  and its literals as sent. Every theorem holds for every server unless it says otherwise.
\<close>

record server =
  altered :: "stmt \<Rightarrow> string list list \<Rightarrow> dest_db \<Rightarrow> (js_error + (nat \<times> row) list) \<times> dest_db"

text \<open>A column value as the driver returns it to JavaScript.\<close>

primrec sql_to_js :: "sqlval \<Rightarrow> jval" where
  "sql_to_js SNull = JNull"
| "sql_to_js (SText s) = JStr s"

section \<open>Steps on the destination\<close>

text \<open>A step: its result and the destination after it.\<close>

type_synonym 'a dstep = "dest_db \<Rightarrow> (js_error + 'a) \<times> dest_db"

definition dbind :: "'a dstep \<Rightarrow> ('a \<Rightarrow> 'b dstep) \<Rightarrow> 'b dstep" where
  "dbind m f db = (case m db of (Inl e, db') \<Rightarrow> (Inl e, db') | (Inr a, db') \<Rightarrow> f a db')"

text \<open>One statement on one table of the destination.\<close>

definition on_table ::
  "server \<Rightarrow> stmt \<Rightarrow> (dest_db \<Rightarrow> pg_table) \<Rightarrow> (pg_table \<Rightarrow> dest_db \<Rightarrow> dest_db) \<Rightarrow> nat list \<Rightarrow>
   string list list \<Rightarrow> ((nat \<times> row) list) dstep" where
  "on_table pg st get put ks tuples db =
     (case send_upsert ks tuples (get db) of
        None \<Rightarrow> altered pg st (fst (bind_tuples 0 tuples)) db
      | Some (Inl e) \<Rightarrow> (Inl e, db)
      | Some (Inr (ret, t')) \<Rightarrow> (Inr ret, put t' db))"

section \<open>importedData\<close>

record imported =
  people_ids :: "jobj option"
  organization_ids :: "jobj option"

text \<open>\<^verbatim>\<open>rows.forEach((row, index) => map[keys[index]] = row.id)\<close>.\<close>

definition id_map :: "string list \<Rightarrow> (nat \<times> row) list \<Rightarrow> jobj" where
  "id_map keys rows = fold (\<lambda>(k, r) m. obj_set m k (JNum (int (fst r)))) (zip keys rows) []"

text \<open>
  \<^verbatim>\<open>importedData.people.idbyEntityID[k]\<close>: a \<^verbatim>\<open>TypeError\<close> while \<^verbatim>\<open>importedData.people\<close>
  is still \<^verbatim>\<open>false\<close>.
\<close>

definition person_id_of :: "runtime \<Rightarrow> imported \<Rightarrow> jval \<Rightarrow> js_error + jval" where
  "person_id_of rt imp k =
     (case people_ids imp of
        None \<Rightarrow> Inl (TypeError ''Cannot read properties of undefined (reading idbyEntityID)'')
      | Some m \<Rightarrow> Inr (obj_get m (js_to_string rt k)))"

section \<open>The import functions\<close>

text \<open>\<^verbatim>\<open>importPeople\<close>: one tuple per contact, the count check, then the id map.\<close>

definition import_people :: "server \<Rightarrow> runtime \<Rightarrow> jobj list \<Rightarrow> jobj dstep" where
  "import_people pg rt people =
     dbind (on_table pg PersonStmt person_tbl (\<lambda>t db. db\<lparr>person_tbl := t\<rparr>) person_key
              (map (\<lambda>p. [value_literal rt (obj_get p ''email'')]) people))
       (\<lambda>rows db. if length rows \<noteq> length people
                  then (Inl (RangeError ''Mismatch between number of people and number of inserted rows''), db)
                  else (Inr (id_map (map (\<lambda>p. js_to_string rt (obj_get p ''id'')) people) rows), db))"

text \<open>\<^verbatim>\<open>moment(v).format('YYYY-MM-DD')\<close>, \<^verbatim>\<open>'Invalid date'\<close> for an invalid moment.\<close>

definition format_ymd :: "runtime \<Rightarrow> jval \<Rightarrow> jval" where
  "format_ymd rt v =
     JStr (case moment_utc_of rt v of Some t \<Rightarrow> moment_format_ymd rt t | None \<Rightarrow> ''Invalid date'')"

text \<open>\<^verbatim>\<open>moment(v).toISOString()\<close>: \<^verbatim>\<open>null\<close> for an invalid moment.\<close>

definition iso_of :: "runtime \<Rightarrow> jval \<Rightarrow> jval" where
  "iso_of rt v = (case moment_utc_of rt v of Some t \<Rightarrow> JStr (moment_iso rt t) | None \<Rightarrow> JNull)"

definition profile_tuple :: "runtime \<Rightarrow> imported \<Rightarrow> jobj \<Rightarrow> js_error + string list" where
  "profile_tuple rt imp p =
     sbind (person_id_of rt imp (obj_get p ''id'')) (\<lambda>pid.
     Inr [value_literal rt pid, value_literal rt (obj_get p ''first_name''),
          value_literal rt (obj_get p ''last_name''), value_literal rt (format_ymd rt (obj_get p ''birth_date''))])"

definition import_profiles :: "server \<Rightarrow> runtime \<Rightarrow> imported \<Rightarrow> jobj list \<Rightarrow> ((nat \<times> row) list) dstep" where
  "import_profiles pg rt imp people db =
     (case mapM (profile_tuple rt imp) people of
        Inl e \<Rightarrow> (Inl e, db)
      | Inr tuples \<Rightarrow> on_table pg ProfileStmt profile_tbl (\<lambda>t db. db\<lparr>profile_tbl := t\<rparr>) profile_key tuples db)"

definition address_tuple :: "runtime \<Rightarrow> imported \<Rightarrow> jobj \<Rightarrow> js_error + string list" where
  "address_tuple rt imp p =
     sbind (person_id_of rt imp (obj_get p ''id'')) (\<lambda>pid.
     Inr (map (value_literal rt)
          [pid, obj_get p ''street_address'', obj_get p ''supplemental_address_1'',
           obj_get p ''supplemental_address_2'', obj_get p ''city'', obj_get p ''postal_code'',
           obj_get p ''state_province'', obj_get p ''country'']))"

definition import_addresses :: "server \<Rightarrow> runtime \<Rightarrow> imported \<Rightarrow> jobj list \<Rightarrow> ((nat \<times> row) list) dstep" where
  "import_addresses pg rt imp people db =
     (case mapM (address_tuple rt imp) people of
        Inl e \<Rightarrow> (Inl e, db)
      | Inr tuples \<Rightarrow> on_table pg AddressStmt address_tbl (\<lambda>t db. db\<lparr>address_tbl := t\<rparr>) address_key tuples db)"

text \<open>
  \<^verbatim>\<open>importPledges\<close> builds the statement for the contacts whose pledge percentage is
  positive, but neither returns nor awaits the \<^verbatim>\<open>knex.raw\<close> builder, which runs only when
  it is awaited: the statement is never sent, and the promise resolves at once. The function
  takes the server like the others and sends it nothing.
\<close>

definition pledge_tuples :: "runtime \<Rightarrow> imported \<Rightarrow> jobj list \<Rightarrow> js_error + string list list" where
  "pledge_tuples rt imp people =
     mapM (\<lambda>p. sbind (person_id_of rt imp (obj_get p ''id'')) (\<lambda>pid.
                Inr [value_literal rt pid, value_literal rt (iso_of rt (obj_get p ''dates__joining_date'')),
                     value_literal rt (obj_get p ''pledgedamounts__pledge_percentage'')]))
          (filter (\<lambda>p. js_positive rt (obj_get p ''pledgedamounts__pledge_percentage'')) people)"

definition import_pledges :: "server \<Rightarrow> runtime \<Rightarrow> imported \<Rightarrow> jobj list \<Rightarrow> unit dstep" where
  "import_pledges pg rt imp people db = (Inr (), db)"

text \<open>\<^verbatim>\<open>importOrganizations\<close>: one tuple per charity name; the map from name to id.\<close>

definition import_organizations :: "server \<Rightarrow> runtime \<Rightarrow> charity_row list \<Rightarrow> jobj dstep" where
  "import_organizations pg rt orgs =
     dbind (on_table pg OrganizationStmt organization_tbl (\<lambda>t db. db\<lparr>organization_tbl := t\<rparr>) organization_key
              (map (\<lambda>c. [value_literal rt (JStr (charity_name c))]) orgs))
       (\<lambda>rows db. (Inr (id_map (map (\<lambda>r. js_to_string rt (sql_to_js (hd (snd r)))) rows) rows), db))"

definition organization_id_of :: "imported \<Rightarrow> string \<Rightarrow> js_error + jval" where
  "organization_id_of imp name =
     (case organization_ids imp of
        None \<Rightarrow> Inl (TypeError ''Cannot read properties of undefined (reading idByName)'')
      | Some m \<Rightarrow> Inr (obj_get m name))"

text \<open>
  \<^verbatim>\<open>importDonations\<close>; the copy of the statement it writes to \<^verbatim>\<open>w.sql\<close> is I/O. The
  statement passes through \<^verbatim>\<open>toSQL().sql\<close> and \<^verbatim>\<open>knex.raw\<close> again; the model rewrites
  its \<^verbatim>\<open>?\<close> once, when it is run (knex versions that also rewrite in \<^verbatim>\<open>toSQL\<close> differ
  only on a backslash-escaped \<^verbatim>\<open>?\<close>).
\<close>

definition donation_tuple :: "runtime \<Rightarrow> imported \<Rightarrow> donation_row \<Rightarrow> js_error + string list" where
  "donation_tuple rt imp d =
     sbind (person_id_of rt imp (donation_contact_id d)) (\<lambda>pid.
     sbind (organization_id_of imp (donation_target d)) (\<lambda>oid.
     Inr (map (value_literal rt)
          [pid, oid, iso_of rt (case donation_timestamp d of Some s \<Rightarrow> JStr s | None \<Rightarrow> JNull),
           donation_amount d, donation_currency d])))"

definition import_donations :: "server \<Rightarrow> runtime \<Rightarrow> imported \<Rightarrow> donation_row list \<Rightarrow> ((nat \<times> row) list) dstep" where
  "import_donations pg rt imp ds db =
     (case mapM (donation_tuple rt imp) ds of
        Inl e \<Rightarrow> (Inl e, db)
      | Inr tuples \<Rightarrow> on_table pg DonationStmt donation_tbl (\<lambda>t db. db\<lparr>donation_tbl := t\<rparr>) donation_key tuples db)"

definition income_tuple :: "runtime \<Rightarrow> imported \<Rightarrow> income_row \<Rightarrow> js_error + string list" where
  "income_tuple rt imp i =
     sbind (person_id_of rt imp (income_contact_id i)) (\<lambda>pid.
     Inr (map (value_literal rt)
          [pid, iso_of rt (case income_start_date i of Some s \<Rightarrow> JStr s | None \<Rightarrow> JNull),
           iso_of rt (case income_end_date i of Some s \<Rightarrow> JStr s | None \<Rightarrow> JNull),
           income_amount i, income_currency i]))"

definition import_income :: "server \<Rightarrow> runtime \<Rightarrow> imported \<Rightarrow> income_row list \<Rightarrow> ((nat \<times> row) list) dstep" where
  "import_income pg rt imp is db =
     (case mapM (income_tuple rt imp) is of
        Inl e \<Rightarrow> (Inl e, db)
      | Inr tuples \<Rightarrow> on_table pg IncomeStmt income_tbl (\<lambda>t db. db\<lparr>income_tbl := t\<rparr>) income_key tuples db)"


section \<open>run\<close>

text \<open>What the import's \<^verbatim>\<open>run\<close> does that can be observed, in order.\<close>

datatype import_event = ImportErrorLogged js_error | KnexDestroyed

text \<open>
  \<^verbatim>\<open>Promise.all\<close> over profiles, addresses and pledges: the three statements are all
  started and each commits on its own; the promise rejects with a failure of them, taken
  here in the order the code lists them.
\<close>

definition import_people_parts :: "server \<Rightarrow> runtime \<Rightarrow> imported \<Rightarrow> jobj list \<Rightarrow> unit dstep" where
  "import_people_parts pg rt imp people db =
     (case import_profiles pg rt imp people db of
        (r1, db1) \<Rightarrow>
     (case import_addresses pg rt imp people db1 of
        (r2, db2) \<Rightarrow>
     (case import_pledges pg rt imp people db2 of
        (r3, db3) \<Rightarrow>
     (case (r1, r2, r3) of
        (Inl e, _, _) \<Rightarrow> (Inl e, db3)
      | (_, Inl e, _) \<Rightarrow> (Inl e, db3)
      | (_, _, Inl e) \<Rightarrow> (Inl e, db3)
      | _ \<Rightarrow> (Inr (), db3)))))"

text \<open>
  The \<^verbatim>\<open>then\<close> chain of \<^verbatim>\<open>run\<close> on the data \<^verbatim>\<open>exportData.run\<close> resolved to: that
  promise resolves to \<^verbatim>\<open>undefined\<close> (\<open>None\<close>) when the export failed, and reading
  \<^verbatim>\<open>data.contacts\<close> then throws.
\<close>

definition import_chain :: "server \<Rightarrow> runtime \<Rightarrow> export_data option \<Rightarrow> unit dstep" where
  "import_chain pg rt data =
     (case data of
        None \<Rightarrow> (\<lambda>db. (Inl (TypeError ''Cannot read properties of undefined (reading contacts)''), db))
      | Some d \<Rightarrow>
          dbind (import_people pg rt (out_contacts d)) (\<lambda>pids.
          let imp = \<lparr>people_ids = Some pids, organization_ids = None\<rparr> in
          dbind (import_people_parts pg rt imp (out_contacts d)) (\<lambda>_.
          dbind (import_organizations pg rt (out_charities d)) (\<lambda>oids.
          let imp' = imp\<lparr>organization_ids := Some oids\<rparr> in
          dbind (import_donations pg rt imp' (out_donations d)) (\<lambda>_.
          dbind (import_income pg rt imp' (out_reported_income d)) (\<lambda>_ db. (Inr (), db)))))))"

text \<open>
  \<^verbatim>\<open>run\<close>: the export's outcome, the chain, \<^verbatim>\<open>.catch(err => console.error(err))\<close> and
  \<^verbatim>\<open>.then(() => knex.destroy())\<close>. A rejected export is caught by the same handler.
\<close>

definition import_run :: "server \<Rightarrow> runtime \<Rightarrow> js_error + export_data option \<Rightarrow> dest_db \<Rightarrow> dest_db \<times> import_event list" where
  "import_run pg rt exported db =
     (let (r, db') = (case exported of
                        Inl e \<Rightarrow> (Inl e, db)
                      | Inr data \<Rightarrow> import_chain pg rt data db) in
      (db', (case r of Inl e \<Rightarrow> [ImportErrorLogged e] | Inr _ \<Rightarrow> []) @ [KnexDestroyed]))"

section \<open>knexfile\<close>

text \<open>
  The exported configurations, as objects; \<open>url\<close> is \<^verbatim>\<open>process.env.DATABASE_URL\<close>.
  \<^verbatim>\<open>Object.assign({}, defaultConfig, {pool})\<close> keeps the default's keys in order and
  appends \<^verbatim>\<open>pool\<close>.
\<close>

definition default_config :: "jval \<Rightarrow> jobj" where
  "default_config url =
     [(''client'', JStr ''pg''), (''connection'', url),
      (''migrations'', JObj [(''tableName'', JStr ''knex.knex_migrations'')]),
      (''searchPath'', JStr ''public, people, organizations, pledges'')]"

definition pool_config :: jval where
  "pool_config = JObj [(''min'', JNum 2), (''max'', JNum 10)]"

definition knexfile :: "jval \<Rightarrow> jobj" where
  "knexfile url =
     [(''development'', JObj (obj_set (default_config url) ''pool'' pool_config)),
      (''staging'', JObj (obj_set (default_config url) ''pool'' pool_config)),
      (''production'', JObj (obj_set (default_config url) ''pool'' pool_config))]"

text \<open>
  The members \<^verbatim>\<open>Object.prototype\<close> gives every object: reading one of these names from
  the exported object yields an inherited method, not a configuration.
\<close>

definition object_prototype_member :: "string \<Rightarrow> bool" where
  "object_prototype_member k \<longleftrightarrow>
     k \<in> set [''constructor'', ''__defineGetter__'', ''__defineSetter__'', ''hasOwnProperty'',
              ''__lookupGetter__'', ''__lookupSetter__'', ''isPrototypeOf'', ''propertyIsEnumerable'',
              ''toString'', ''valueOf'', ''__proto__'', ''toLocaleString'']"

text \<open>
  \<^verbatim>\<open>require('./knexfile')[process.env.NODE_ENV || 'development']\<close>: the configuration
  handed to \<^verbatim>\<open>knex\<close>, \<open>None\<close> where the name is an inherited member.
\<close>

definition knex_config :: "runtime \<Rightarrow> jval \<Rightarrow> jval \<Rightarrow> jval option" where
  "knex_config rt url node_env =
     (let k = js_to_string rt (if js_truthy node_env then node_env else JStr ''development'') in
      if object_prototype_member k \<and> k \<notin> fst ` set (knexfile url) then None
      else Some (obj_get (knexfile url) k))"

section \<open>Examples\<close>

text \<open>A destination whose seven tables are empty, and one contact with an email.\<close>

definition empty_dest :: dest_db where
  "empty_dest = \<lparr>person_tbl = empty_table, profile_tbl = empty_table, address_tbl = empty_table,
     pledge_tbl = empty_table, organization_tbl = empty_table, donation_tbl = empty_table,
     income_tbl = empty_table\<rparr>"

definition ann :: jobj where
  "ann = [(''id'', JNum 7), (''email'', JStr ''ann@x.org'')]"

definition ann_twin :: jobj where
  "ann_twin = [(''id'', JNum 8), (''email'', JStr ''ann@x.org'')]"

text \<open>A server that rejects every statement a value has altered, as a syntax error.\<close>

definition rejecting_server :: server where
  "rejecting_server = \<lparr>altered = (\<lambda>st tuples db. (Inl (SqlError ''syntax error''), db))\<rparr>"

definition no_email :: jobj where
  "no_email = [(''id'', JNum 9), (''email'', JStr '''')]"

text \<open>The ids a people and an organizations import of \<open>ann\<close> and Oxfam produce.\<close>

definition oxfam_ids :: imported where
  "oxfam_ids = \<lparr>people_ids = Some [(''7'', JNum 1)], organization_ids = Some [(''Oxfam'', JNum 1)]\<rparr>"

text \<open>A gift of amount \<open>0\<close> from that contact to Oxfam.\<close>

definition zero_gift :: donation_row where
  "zero_gift = \<lparr>donation_contact_id = JNum 7, donation_timestamp = None, donation_target = ''Oxfam'',
                donation_currency = JStr ''USD'', donation_amount = JNum 0\<rparr>"

section \<open>Lemmas\<close>

subsection \<open>knex's rewrite\<close>

lemma position_bindings_plain: "CHR ''?'' \<notin> set s \<Longrightarrow> position_bindings n bs s = (bs @ s, n)"
  by (induction s arbitrary: bs) auto

lemma position_bindings_append:
  "CHR ''?'' \<notin> set w \<Longrightarrow> fst (position_bindings n bs (s @ w)) = fst (position_bindings n bs s) @ w"
  by (induction n bs s rule: position_bindings.induct) (auto simp: position_bindings_plain)

text \<open>A value holding a \<^verbatim>\<open>?\<close> never comes out of the rewrite as it went in.\<close>

lemma position_bindings_changes:
  "CHR ''?'' \<in> set s \<Longrightarrow> set bs \<subseteq> {CHR 0x5C} \<Longrightarrow> fst (position_bindings n bs s) \<noteq> bs @ s"
proof (induction n bs s rule: position_bindings.induct)
  case (2 n bs c cs)
  show ?case
  proof (cases "c = CHR 0x5C")
    case True
    with "2.IH"(1) "2.prems" show ?thesis by auto
  next
    case c: False
    show ?thesis
    proof (cases "c = CHR ''?''")
      case True
      have hd: "bs \<noteq> [] \<Longrightarrow> hd bs = CHR 0x5C" using "2.prems"(2) by (cases bs) auto
      show ?thesis
      proof (cases "odd (length bs)")
        case True
        then have "bs \<noteq> []" by auto
        with hd c \<open>c = CHR ''?''\<close> True show ?thesis by (cases bs) auto
      next
        case False
        with hd c \<open>c = CHR ''?''\<close> show ?thesis by (cases bs) auto
      qed
    next
      case False
      with c "2.prems"(1) have "CHR ''?'' \<in> set cs" by auto
      with "2.IH"(4) [OF c False] c False show ?thesis by simp
    qed
  qed
qed simp

lemma bind_literals_plain: "\<forall>s\<in>set ss. CHR ''?'' \<notin> set s \<Longrightarrow> bind_literals n ss = (ss, n)"
  by (induction ss arbitrary: n) (simp_all add: position_bindings_plain)

lemma bind_tuples_plain:
  "\<forall>t\<in>set ts. \<forall>s\<in>set t. CHR ''?'' \<notin> set s \<Longrightarrow> bind_tuples n ts = (ts, n)"
  by (induction ts arbitrary: n) (simp_all add: bind_literals_plain)

lemma length_bind_tuples: "length (fst (bind_tuples n ts)) = length ts"
  by (induction ts arbitrary: n) (auto split: prod.split)

subsection \<open>Reading the literals\<close>

lemma value_literal_qmark: "CHR ''?'' \<notin> set (js_to_string rt v) \<Longrightarrow> CHR ''?'' \<notin> set (value_literal rt v)"
  by (simp add: value_literal_def dollar_tag_def)

lemma decode_value_literal:
  assumes "quotable (js_to_string rt v)"
  shows "decode_literal (value_literal rt v) = Some (sql_value rt v)"
proof (cases "js_truthy v \<and> \<not> js_strict_eq v (JStr ''Invalid date'')")
  case True
  with lex_value_quoted [OF assms, of "[]"] show ?thesis
    by (simp add: decode_literal_def value_literal_def sql_value_def)
next
  case False
  have "value_literal rt v = ''NULL''" unfolding value_literal_def using False by (rule if_not_P)
  moreover have "sql_value rt v = SNull" unfolding sql_value_def using False by (rule if_not_P)
  ultimately show ?thesis using lex_value_NULL [of "[]"] by (simp add: decode_literal_def)
qed

lemma decode_value_literal_falsy:
  "\<not> js_truthy v \<Longrightarrow> decode_literal (value_literal rt v) = Some SNull"
  using lex_value_NULL [of "[]"] by (simp add: decode_literal_def value_literal_def)

lemma read_tuples_Some:
  "read_tuples ts = Some rows \<longleftrightarrow> list_all2 (list_all2 (\<lambda>s v. decode_literal s = Some v)) ts rows"
  by (simp add: read_tuples_def omap_Some_iff)

lemma send_upsert_unchanged:
  "\<forall>t\<in>set ts. \<forall>s\<in>set t. CHR ''?'' \<notin> set s \<Longrightarrow>
   send_upsert ks ts tbl = map_option (\<lambda>rows. upsert_stmt ks rows tbl) (read_tuples ts)"
  by (simp add: send_upsert_def bind_tuples_plain)

text \<open>For plain values the text the code sends means the rows the code intends.\<close>

lemma send_upsert_values:
  assumes "\<forall>vs\<in>set vss. \<forall>v\<in>set vs. plain (js_to_string rt v)"
  shows "send_upsert ks (map (map (value_literal rt)) vss) t = Some (upsert_stmt ks (map (map (sql_value rt)) vss) t)"
proof -
  have "\<forall>tu\<in>set (map (map (value_literal rt)) vss). \<forall>s\<in>set tu. CHR ''?'' \<notin> set s"
    using assms by (fastforce simp: plain_def dest: value_literal_qmark)
  moreover have "read_tuples (map (map (value_literal rt)) vss) = Some (map (map (sql_value rt)) vss)"
    unfolding read_tuples_def using assms
    by (intro omap_map_comp omap_map_comp) (auto simp: plain_def intro: decode_value_literal)
  ultimately show ?thesis by (simp add: send_upsert_unchanged)
qed

lemma send_upsert_length:
  assumes "send_upsert ks tuples t = Some (Inr (ret, t'))"
  shows "length ret = length tuples"
proof -
  from assms obtain rows where r: "read_tuples (fst (bind_tuples 0 tuples)) = Some rows"
    and u: "upsert_stmt ks rows t = Inr (ret, t')" by (auto simp: send_upsert_def)
  from r have "length rows = length tuples"
    by (auto simp: read_tuples_Some length_bind_tuples dest!: list_all2_lengthD)
  with upsert_stmt_returned [OF u] show ?thesis by (auto dest: list_all2_lengthD)
qed

lemma send_upsert_empty: "send_upsert ks [] t = Some (Inl err_empty_values)"
  by (simp add: send_upsert_def read_tuples_def upsert_stmt_def)

subsection \<open>Steps\<close>

lemma dbind_Inl: "m db = (Inl e, db') \<Longrightarrow> dbind m f db = (Inl e, db')"
  and dbind_Inr: "m db = (Inr a, db') \<Longrightarrow> dbind m f db = f a db'"
  by (simp_all add: dbind_def)

text \<open>A part of the destination no later step writes is what the first step left.\<close>

lemma dbind_keeps:
  "(\<And>a d. g (snd (f a d)) = g d) \<Longrightarrow> g (snd (dbind m f db)) = g (snd (m db))"
  by (simp add: dbind_def split: prod.splits sum.splits)

lemma dbind_keeps_all:
  "(\<And>d. g (snd (m d)) = g d) \<Longrightarrow> (\<And>a d. g (snd (f a d)) = g d) \<Longrightarrow> g (snd (dbind m f db)) = g db"
  by (simp add: dbind_keeps)

text \<open>
  A statement keeps a part of the destination its table is not in, unless a value has altered
  it and the altered SQL writes that part.
\<close>

lemma on_table_keeps:
  "(\<And>t d. g (put t d) = g d) \<Longrightarrow> \<forall>s tu d. g (snd (altered pg s tu d)) = g d \<Longrightarrow>
   g (snd (on_table pg st get put ks tuples db)) = g db"
  by (simp add: on_table_def split: option.splits sum.splits prod.splits)

lemma on_table_Some:
  "send_upsert ks tuples (get db) = Some r \<Longrightarrow>
   on_table pg st get put ks tuples db = (case r of Inl e \<Rightarrow> (Inl e, db) | Inr (ret, t') \<Rightarrow> (Inr ret, put t' db))"
  by (simp add: on_table_def)

lemma import_pledges_keeps [simp]: "snd (import_pledges pg rt imp ps db) = db"
  by (simp add: import_pledges_def)

lemma import_keeps_person:
  assumes "\<forall>s tu d. person_tbl (snd (altered pg s tu d)) = person_tbl d"
  shows "person_tbl (snd (import_profiles pg rt imp ps db)) = person_tbl db"
    and "person_tbl (snd (import_addresses pg rt imp ps db)) = person_tbl db"
    and "person_tbl (snd (import_organizations pg rt cs db)) = person_tbl db"
    and "person_tbl (snd (import_donations pg rt imp ds db)) = person_tbl db"
    and "person_tbl (snd (import_income pg rt imp is db)) = person_tbl db"
    and "person_tbl (snd (import_people_parts pg rt imp ps db)) = person_tbl db"
  using assms by (simp_all add: import_profiles_def import_addresses_def import_organizations_def
      import_donations_def import_income_def import_people_parts_def dbind_keeps on_table_keeps
      case_prod_beta split: sum.split)

lemma import_keeps_pledges:
  assumes "\<forall>s tu d. pledge_tbl (snd (altered pg s tu d)) = pledge_tbl d"
  shows "pledge_tbl (snd (import_people pg rt ps db)) = pledge_tbl db"
    and "pledge_tbl (snd (import_profiles pg rt imp ps db)) = pledge_tbl db"
    and "pledge_tbl (snd (import_addresses pg rt imp ps db)) = pledge_tbl db"
    and "pledge_tbl (snd (import_organizations pg rt cs db)) = pledge_tbl db"
    and "pledge_tbl (snd (import_donations pg rt imp ds db)) = pledge_tbl db"
    and "pledge_tbl (snd (import_income pg rt imp is db)) = pledge_tbl db"
    and "pledge_tbl (snd (import_people_parts pg rt imp ps db)) = pledge_tbl db"
  using assms by (simp_all add: import_people_def import_profiles_def import_addresses_def
      import_organizations_def import_donations_def import_income_def import_people_parts_def
      dbind_keeps on_table_keeps case_prod_beta split: sum.split)

subsection \<open>The id maps\<close>

lemma obj_get_fold_set_other:
  "k \<notin> fst ` set ps \<Longrightarrow> obj_get (fold (\<lambda>(k, r) m. obj_set m k (v r)) ps m0) k = obj_get m0 k"
  by (induction ps arbitrary: m0) auto

lemma obj_get_fold_set:
  "distinct (map fst ps) \<Longrightarrow> (k, r) \<in> set ps \<Longrightarrow>
   obj_get (fold (\<lambda>(k, r) m. obj_set m k (v r)) ps m0) k = v r"
proof (induction ps arbitrary: m0)
  case (Cons p ps)
  obtain k' r' where p: "p = (k', r')" by (cases p)
  show ?case
  proof (cases "k = k'")
    case True
    with Cons.prems p have "r = r'" and "k \<notin> fst ` set ps" by (auto simp: image_iff)
    with True p show ?thesis by (simp add: obj_get_fold_set_other)
  next
    case False
    with Cons p show ?thesis by simp
  qed
qed simp

lemma obj_get_id_map:
  assumes "distinct keys" and "length rows = length keys" and "i < length keys"
  shows "obj_get (id_map keys rows) (keys ! i) = JNum (int (fst (rows ! i)))"
proof -
  have "(keys ! i, rows ! i) \<in> set (zip keys rows)"
    using assms(2,3) by (metis in_set_zip fst_conv snd_conv)
  moreover have "distinct (map fst (zip keys rows))" using assms(1,2) by simp
  ultimately show ?thesis unfolding id_map_def by (rule obj_get_fold_set [rotated])
qed


subsection \<open>importPeople\<close>

lemma people_tuples:
  "map (\<lambda>p. [value_literal rt (obj_get p ''email'')]) people =
   map (map (value_literal rt)) (map (\<lambda>p. [obj_get p ''email'']) people)"
  by simp

lemma send_people:
  assumes "\<forall>p\<in>set people. plain (js_to_string rt (obj_get p ''email''))"
  shows "send_upsert person_key (map (\<lambda>p. [value_literal rt (obj_get p ''email'')]) people) t =
         Some (upsert_stmt person_key (map (\<lambda>p. [sql_value rt (obj_get p ''email'')]) people) t)"
  unfolding people_tuples using assms by (subst send_upsert_values) (auto simp: comp_def)

text \<open>With plain emails the people import is the upsert of the emails, then the id map.\<close>

lemma import_people_plain:
  assumes "\<forall>p\<in>set people. plain (js_to_string rt (obj_get p ''email''))"
  shows "import_people pg rt people db =
    (case upsert_stmt person_key (map (\<lambda>p. [sql_value rt (obj_get p ''email'')]) people) (person_tbl db) of
       Inl e \<Rightarrow> (Inl e, db)
     | Inr (ret, t') \<Rightarrow> (Inr (id_map (map (\<lambda>p. js_to_string rt (obj_get p ''id'')) people) ret), db\<lparr>person_tbl := t'\<rparr>))"
proof (cases "upsert_stmt person_key (map (\<lambda>p. [sql_value rt (obj_get p ''email'')]) people) (person_tbl db)")
  case (Inl e)
  then show ?thesis by (simp add: import_people_def dbind_def on_table_def send_people [OF assms])
next
  case (Inr r)
  obtain ret t' where r: "r = (ret, t')" by (cases r)
  have "length ret = length people"
    using upsert_stmt_returned [OF Inr [unfolded r]] by (auto dest: list_all2_lengthD)
  with Inr r show ?thesis by (simp add: import_people_def dbind_def on_table_def send_people [OF assms])
qed

lemma key_of_person [simp]: "key_of person_key [v] = [v]"
  by (simp add: key_of_def person_key_def)

text \<open>
  C9. The count check of \<^verbatim>\<open>importPeople\<close> never fires on plain emails: the import then
  either succeeds or fails with an error of Postgres, leaving the destination unchanged; the
  \<^verbatim>\<open>RangeError\<close> the specification calls a fatal integrity error cannot be raised, since
  \<^verbatim>\<open>RETURNING\<close> gives one row per tuple sent whatever the keys are, and contacts sharing an
  email are not detected by it.
\<close>

theorem import_people_count_check_unreachable:
  assumes "\<forall>p\<in>set people. plain (js_to_string rt (obj_get p ''email''))"
  shows "(\<exists>ids db'. import_people pg rt people db = (Inr ids, db')) \<or>
         (\<exists>m. import_people pg rt people db = (Inl (SqlError m), db))"
proof (cases "upsert_stmt person_key (map (\<lambda>p. [sql_value rt (obj_get p ''email'')]) people) (person_tbl db)")
  case (Inl e)
  then have "\<exists>m. e = SqlError m"
    by (auto dest!: upsert_stmt_Inl simp: err_empty_values_def err_twice_def)
  with Inl show ?thesis by (auto simp: import_people_plain [OF assms])
next
  case (Inr r)
  then show ?thesis by (cases r) (simp add: import_people_plain [OF assms])
qed

lemma import_people_row:
  assumes run: "import_people pg rt people db = (Inr ids, db')"
    and inv: "pg_inv person_key (person_tbl db)"
    and q: "\<forall>p\<in>set people. plain (js_to_string rt (obj_get p ''email''))"
    and d: "distinct (map (\<lambda>p. js_to_string rt (obj_get p ''id'')) people)"
    and p: "p \<in> set people"
  shows "\<exists>j r. obj_get ids (js_to_string rt (obj_get p ''id'')) = JNum (int j) \<and>
               (j, r) \<in> set (tbl_rows (person_tbl db')) \<and> key_of person_key r = [sql_value rt (obj_get p ''email'')]"
proof -
  from run obtain ret t' where
    s: "upsert_stmt person_key (map (\<lambda>p. [sql_value rt (obj_get p ''email'')]) people) (person_tbl db) = Inr (ret, t')"
    and db': "db' = db\<lparr>person_tbl := t'\<rparr>"
    and ids: "ids = id_map (map (\<lambda>p. js_to_string rt (obj_get p ''id'')) people) ret"
    by (auto simp: import_people_plain [OF q] split: sum.splits)
  from upsert_stmt_Inr [OF inv s] have sub: "set ret \<subseteq> set (tbl_rows t')"
    and rel: "list_all2 (returned_for person_key) (map (\<lambda>p. [sql_value rt (obj_get p ''email'')]) people) ret"
    by auto
  from p obtain i where i: "i < length people" "people ! i = p" by (auto simp: in_set_conv_nth)
  have len: "length ret = length people" using rel by (auto dest: list_all2_lengthD)
  have "key_of person_key (snd (ret ! i)) = [sql_value rt (obj_get p ''email'')]"
    using returned_for_key [OF list_all2_nthD [OF rel]] i by simp
  moreover have "ret ! i \<in> set (tbl_rows t')" using sub i(1) len by (metis nth_mem subsetD)
  moreover have "obj_get ids (js_to_string rt (obj_get p ''id'')) = JNum (int (fst (ret ! i)))"
    using obj_get_id_map [OF d, of ret i] i len by (simp add: ids)
  ultimately show ?thesis by (intro exI [of _ "fst (ret ! i)"] exI [of _ "snd (ret ! i)"]) (simp add: db')
qed

text \<open>
  C5. The id map links each contact to its person row: after a successful import, for a
  destination satisfying the unique index and contacts with distinct ids and plain emails (no
  \<^verbatim>\<open>?\<close> for knex to rewrite, nothing that breaks the quoting), \<^verbatim>\<open>idbyEntityID\<close> sends the
  id of every contact to the id of a person row whose email is the contact's email as the code
  sends it (\<^verbatim>\<open>NULL\<close> for a falsy one).
\<close>

theorem import_people_ids:
  assumes run: "import_people pg rt people db = (Inr ids, db')"
    and inv: "pg_inv person_key (person_tbl db)"
    and q: "\<forall>p\<in>set people. plain (js_to_string rt (obj_get p ''email''))"
    and d: "distinct (map (\<lambda>p. js_to_string rt (obj_get p ''id'')) people)"
  shows "\<forall>p\<in>set people. \<exists>j r. obj_get ids (js_to_string rt (obj_get p ''id'')) = JNum (int j) \<and>
               (j, r) \<in> set (tbl_rows (person_tbl db')) \<and> key_of person_key r = [sql_value rt (obj_get p ''email'')]"
  using import_people_row [OF run inv q d] by blast

text \<open>
  C6. Re-running the people import is harmless when every contact has a plain email: on the
  destination the first run produced, the second returns the same id map and changes no
  person row; only the id sequence advances, by one value per contact.
\<close>

theorem import_people_rerun:
  assumes run: "import_people pg rt people db = (Inr ids, db')"
    and inv: "pg_inv person_key (person_tbl db)"
    and q: "\<forall>p\<in>set people. plain (js_to_string rt (obj_get p ''email''))"
    and e: "\<forall>p\<in>set people. sql_value rt (obj_get p ''email'') \<noteq> SNull"
  shows "import_people pg rt people db' =
           (Inr ids, db'\<lparr>person_tbl := person_tbl db'\<lparr>tbl_next := tbl_next (person_tbl db') + length people\<rparr>\<rparr>)"
proof -
  from run obtain ret t' where
    s: "upsert_stmt person_key (map (\<lambda>p. [sql_value rt (obj_get p ''email'')]) people) (person_tbl db) = Inr (ret, t')"
    and db': "db' = db\<lparr>person_tbl := t'\<rparr>"
    and ids: "ids = id_map (map (\<lambda>p. js_to_string rt (obj_get p ''id'')) people) ret"
    by (auto simp: import_people_plain [OF q] split: sum.splits)
  have u: "\<forall>r\<in>set (map (\<lambda>p. [sql_value rt (obj_get p ''email'')]) people). key_usable (key_of person_key r)"
    using e by (auto simp: key_usable_def)
  from upsert_stmt_idempotent [OF inv u s] db' ids show ?thesis
    by (simp add: import_people_plain [OF q])
qed

text \<open>
  C12. A contact without an email defeats the upsert: each successful people import of plain
  emails adds a new person row for every contact whose email is falsy, so each run of the
  importer duplicates them (the specification asks that a re-run create no duplicate rows).
\<close>

theorem import_people_null_email:
  assumes run: "import_people pg rt people db = (Inr ids, db')"
    and q: "\<forall>p\<in>set people. plain (js_to_string rt (obj_get p ''email''))"
  shows "length (tbl_rows (person_tbl db)) + length (filter (\<lambda>p. \<not> js_truthy (obj_get p ''email'')) people)
           \<le> length (tbl_rows (person_tbl db'))"
proof -
  from run obtain ret t' where
    s: "upsert_stmt person_key (map (\<lambda>p. [sql_value rt (obj_get p ''email'')]) people) (person_tbl db) = Inr (ret, t')"
    and db': "db' = db\<lparr>person_tbl := t'\<rparr>"
    by (auto simp: import_people_plain [OF q] split: sum.splits)
  have "length (filter (\<lambda>p. \<not> js_truthy (obj_get p ''email'')) people) \<le>
        length (filter (\<lambda>r. \<not> key_usable (key_of person_key r)) (map (\<lambda>p. [sql_value rt (obj_get p ''email'')]) people))"
    by (rule list_all2_filter_length [where R = "\<lambda>p r. r = [sql_value rt (obj_get p ''email'')]"])
       (auto simp: list_all2_map2 list_all2_refl sql_value_def key_usable_def intro: list_all2_refl)
  with upsert_stmt_null_key_inserts [OF s] db' show ?thesis by simp
qed

text \<open>
  C13. Two contacts with the same plain email make the people import fail with Postgres'
  error that a row cannot be affected twice, writing nothing: the importer cannot load a source
  where two contacts share an email.
\<close>

theorem import_people_duplicate_email:
  assumes inv: "pg_inv person_key (person_tbl db)"
    and q: "\<forall>p\<in>set people. plain (js_to_string rt (obj_get p ''email''))"
    and ij: "i < j" "j < length people"
    and same: "obj_get (people ! i) ''email'' = obj_get (people ! j) ''email''"
    and e: "sql_value rt (obj_get (people ! i) ''email'') \<noteq> SNull"
  shows "import_people pg rt people db = (Inl err_twice, db)"
proof -
  have "upsert_stmt person_key (map (\<lambda>p. [sql_value rt (obj_get p ''email'')]) people) (person_tbl db) = Inl err_twice"
    using ij same e by (intro upsert_stmt_duplicate_key [OF inv, of i j]) (simp_all add: key_usable_def)
  then show ?thesis by (simp add: import_people_plain [OF q])
qed

subsection \<open>Values knex rewrites\<close>

lemma split_tag_Some: "split_tag t u = Some (a, b) \<Longrightarrow> u = a @ t @ b"
  by (induction t u arbitrary: a b rule: split_tag.induct)
     (auto split: if_splits, metis append_take_drop_id)

lemma qmark_truthy:
  assumes q: "CHR ''?'' \<in> set (js_to_string rt v)"
  shows "js_truthy v \<and> \<not> js_strict_eq v (JStr ''Invalid date'')"
  using q
proof (cases v)
  case (JNum i)
  moreover have "CHR ''?'' \<notin> set (show_int i)"
    using show_nat_digits [of "CHR ''?''"] by (auto simp: show_int_def is_digit_def less_eq_char_def)
  ultimately show ?thesis using q by simp
qed (auto split: if_splits)

text \<open>
  C37. A value holding a \<^verbatim>\<open>?\<close> is not stored as the code wrote it: whatever the count of
  \<^verbatim>\<open>?\<close> knex has rewritten before it, the literal \<^verbatim>\<open>value\<close> writes for such a value no
  longer reads back as that value once knex's \<^verbatim>\<open>positionBindings\<close> has rewritten it (each
  \<^verbatim>\<open>?\<close> becomes \<^verbatim>\<open>$n\<close>, or loses the backslashes before it); an email \<^verbatim>\<open>a?b@x.org\<close> is
  stored as \<^verbatim>\<open>a$1b@x.org\<close>.
\<close>

theorem knex_rewrite_alters:
  assumes "CHR ''?'' \<in> set (js_to_string rt v)"
  shows "decode_literal (fst (position_bindings n [] (value_literal rt v))) \<noteq> Some (sql_value rt v)"
proof
  let ?s = "js_to_string rt v"
  let ?x = "fst (position_bindings n [] ?s)"
  from qmark_truthy [OF assms] have lit: "value_literal rt v = dollar_tag @ ?s @ dollar_tag"
    and sv: "sql_value rt v = SText ?s" by (simp_all add: value_literal_def sql_value_def)
  have tag: "CHR ''?'' \<notin> set dollar_tag" by (simp add: dollar_tag_def)
  have "fst (position_bindings n [] (dollar_tag @ ?s @ dollar_tag)) =
        dollar_tag @ fst (position_bindings n [] (?s @ dollar_tag))"
    by (simp add: dollar_tag_def)
  also have "\<dots> = dollar_tag @ ?x @ dollar_tag" using tag by (simp add: position_bindings_append)
  finally have rw: "fst (position_bindings n [] (value_literal rt v)) = dollar_tag @ ?x @ dollar_tag"
    by (simp add: lit)
  assume "decode_literal (fst (position_bindings n [] (value_literal rt v))) = Some (sql_value rt v)"
  then have "split_tag dollar_tag (?x @ dollar_tag) = Some (?s, [])"
    by (auto simp: rw sv decode_literal_def lex_value_def take_append drop_append
        split: option.splits prod.splits list.splits if_splits)
  from split_tag_Some [OF this] have "?x = ?s" by simp
  with position_bindings_changes [OF assms, of "[]" n] show False by simp
qed


subsection \<open>Evaluation\<close>

lemmas import_eval = import_people_def dbind_def on_table_def send_upsert_def read_tuples_def decode_literal_def
  value_literal_def lex_value_def dollar_tag_def upsert_stmt_def upsert_row_def empty_dest_def
  empty_table_def person_key_def key_of_def conflicts_def key_usable_def id_map_def sql_value_def obj_get_def aset_def

lemma import_ann:
  "import_people rejecting_server sample_runtime [ann] empty_dest =
     (Inr [(''7'', JNum 1)], empty_dest\<lparr>person_tbl := \<lparr>tbl_rows = [(1, [SText ''ann@x.org''])], tbl_next = 2\<rparr>\<rparr>)"
  by (simp add: import_eval ann_def show_int_digit digit_char_def del: show_int_nonneg)

lemma plain_email: "plain ''ann@x.org''"
  by (simp add: plain_def quotable_def ends_with_def dollar_tag_def)

lemma plain_ann: "\<forall>p\<in>set [ann, ann_twin]. plain (js_to_string sample_runtime (obj_get p ''email''))"
  by (simp add: ann_def ann_twin_def obj_get_def plain_email)

lemma empty_dest_inv: "pg_inv person_key (person_tbl empty_dest)"
  by (simp add: empty_dest_def empty_table_inv)

theorem import_people_count_check_unreachable_witness:
  "\<exists>ids db'. import_people rejecting_server sample_runtime [ann] empty_dest = (Inr ids, db')"
proof -
  have "(\<exists>ids db'. import_people rejecting_server sample_runtime [ann] empty_dest = (Inr ids, db')) \<or>
        (\<exists>m. import_people rejecting_server sample_runtime [ann] empty_dest = (Inl (SqlError m), empty_dest))"
    using plain_ann by (intro import_people_count_check_unreachable) simp
  then show ?thesis by (simp add: import_ann)
qed

theorem import_people_ids_witness:
  "\<exists>j r. obj_get [(''7'', JNum 1)] ''7'' = JNum (int j) \<and>
         (j, r) \<in> set [(1, [SText ''ann@x.org''])] \<and> key_of person_key r = [SText ''ann@x.org'']"
proof -
  have "\<forall>p\<in>set [ann]. \<exists>j r. obj_get [(''7'', JNum 1)] (js_to_string sample_runtime (obj_get p ''id'')) = JNum (int j) \<and>
         (j, r) \<in> set [(1, [SText ''ann@x.org''])] \<and> key_of person_key r = [sql_value sample_runtime (obj_get p ''email'')]"
    using import_people_ids [OF import_ann empty_dest_inv] plain_ann by simp
  then show ?thesis by (simp add: ann_def obj_get_def sql_value_def)
qed

theorem import_people_rerun_witness:
  "import_people rejecting_server sample_runtime [ann]
       (empty_dest\<lparr>person_tbl := \<lparr>tbl_rows = [(1, [SText ''ann@x.org''])], tbl_next = 2\<rparr>\<rparr>) =
     (Inr [(''7'', JNum 1)], empty_dest\<lparr>person_tbl := \<lparr>tbl_rows = [(1, [SText ''ann@x.org''])], tbl_next = 3\<rparr>\<rparr>)"
proof -
  have "\<forall>p\<in>set [ann]. sql_value sample_runtime (obj_get p ''email'') \<noteq> SNull"
    by (simp add: ann_def obj_get_def sql_value_def)
  then show ?thesis using import_people_rerun [OF import_ann empty_dest_inv] plain_ann by simp
qed

lemma import_no_email:
  "import_people rejecting_server sample_runtime [no_email] empty_dest =
     (Inr [(''9'', JNum 1)], empty_dest\<lparr>person_tbl := \<lparr>tbl_rows = [(1, [SNull])], tbl_next = 2\<rparr>\<rparr>)"
  and import_no_email_again:
  "import_people rejecting_server sample_runtime [no_email] (empty_dest\<lparr>person_tbl := \<lparr>tbl_rows = [(1, [SNull])], tbl_next = 2\<rparr>\<rparr>) =
     (Inr [(''9'', JNum 2)], empty_dest\<lparr>person_tbl := \<lparr>tbl_rows = [(1, [SNull]), (2, [SNull])], tbl_next = 3\<rparr>\<rparr>)"
  by (simp_all add: import_eval no_email_def show_int_digit digit_char_def del: show_int_nonneg)

theorem import_people_null_email_witness:
  "length (tbl_rows \<lparr>tbl_rows = [(1, [SNull])], tbl_next = 2\<rparr>) + 1 \<le>
     length (tbl_rows \<lparr>tbl_rows = [(1::nat, [SNull]), (2, [SNull])], tbl_next = 3\<rparr>)"
proof -
  have "\<forall>p\<in>set [no_email]. plain (js_to_string sample_runtime (obj_get p ''email''))"
    by (simp add: no_email_def obj_get_def plain_def quotable_def ends_with_def dollar_tag_def)
  then show ?thesis using import_people_null_email [OF import_no_email_again] by (simp add: no_email_def obj_get_def)
qed

theorem import_people_duplicate_email_witness:
  "import_people rejecting_server sample_runtime [ann, ann_twin] empty_dest = (Inl err_twice, empty_dest)"
  using import_people_duplicate_email [OF empty_dest_inv plain_ann, of 0 1]
  by (simp add: ann_def ann_twin_def obj_get_def sql_value_def)

theorem knex_rewrite_alters_witness:
  "decode_literal (fst (position_bindings 0 [] (value_literal sample_runtime (JStr ''a?b@x.org''))))
     \<noteq> Some (SText ''a?b@x.org'')"
  using knex_rewrite_alters [where rt = sample_runtime and v = "JStr ''a?b@x.org''" and n = 0]
  by (simp add: sql_value_def)

subsection \<open>run\<close>

lemma import_chain_keeps_pledges:
  assumes "\<forall>s tu d. pledge_tbl (snd (altered pg s tu d)) = pledge_tbl d"
  shows "pledge_tbl (snd (import_chain pg rt data db)) = pledge_tbl db"
  using assms by (cases data) (simp_all add: import_chain_def Let_def dbind_keeps_all import_keeps_pledges)

lemma import_chain_after_people:
  assumes "\<forall>s tu d. person_tbl (snd (altered pg s tu d)) = person_tbl d"
  shows "person_tbl (snd (import_chain pg rt (Some d) db)) = person_tbl (snd (import_people pg rt (out_contacts d) db))"
  using assms by (simp add: import_chain_def Let_def dbind_keeps dbind_keeps_all import_keeps_person)

lemma import_run_db:
  "fst (import_run pg rt exported db) = (case exported of Inl e \<Rightarrow> db | Inr data \<Rightarrow> snd (import_chain pg rt data db))"
  by (simp add: import_run_def case_prod_beta split: sum.split)

lemma rejecting_server_frame:
  "\<forall>s tu d. g (snd (altered rejecting_server s tu d)) = g d"
  by (simp add: rejecting_server_def)

text \<open>
  C10. The importer itself never writes a pledge: whatever the export produced and whatever
  the destination holds, a run leaves the pledge table as it was, since
  \<^verbatim>\<open>importPledges\<close> builds its statement and never sends it; the only way a pledge changes
  is a statement some value has altered (SQL the server runs from an injected value), which
  the hypothesis excludes.
\<close>

theorem import_run_pledges_unwritten:
  assumes "\<forall>s tu d. pledge_tbl (snd (altered pg s tu d)) = pledge_tbl d"
  shows "pledge_tbl (fst (import_run pg rt exported db)) = pledge_tbl db"
  using assms by (simp add: import_run_db import_chain_keeps_pledges split: sum.split)

theorem import_run_pledges_unwritten_witness:
  "pledge_tbl (fst (import_run rejecting_server sample_runtime (Inl (TypeError ''x'')) empty_dest)) = empty_table"
  using import_run_pledges_unwritten [OF rejecting_server_frame] by (simp add: empty_dest_def)

text \<open>
  C14. No atomicity: the person rows the people step wrote stay in the destination whatever
  fails after it (a profile, an address, an organisation, a donation or an income statement),
  while the specification asks a failed run to commit nothing. Only a statement altered by a
  value could still touch the person table, which the hypothesis excludes.
\<close>

theorem import_run_partial_commit:
  assumes "\<forall>s tu d. person_tbl (snd (altered pg s tu d)) = person_tbl d"
  shows "person_tbl (fst (import_run pg rt (Inr (Some d)) db)) = person_tbl (snd (import_people pg rt (out_contacts d) db))"
  using assms by (simp add: import_run_db import_chain_after_people)

theorem import_run_partial_commit_witness:
  "person_tbl (fst (import_run rejecting_server sample_runtime
     (Inr (Some \<lparr>out_contacts = [ann], out_donations = [], out_recurring_donations = [], out_reported_income = [],
                 out_charities = [], out_charity_merge_candidates = [], out_donation_currency_codes = []\<rparr>))
     empty_dest)) = \<lparr>tbl_rows = [(1, [SText ''ann@x.org''])], tbl_next = 2\<rparr>"
  using import_run_partial_commit [OF rejecting_server_frame] by (simp add: import_ann)

text \<open>
  C11. The destination connection is released on every path: the run always ends by
  destroying the knex pool, once, after logging at most one error; no failure reaches the
  caller.
\<close>

theorem import_run_releases:
  "last (snd (import_run pg rt exported db)) = KnexDestroyed \<and>
   count_list (snd (import_run pg rt exported db)) KnexDestroyed = 1 \<and>
   length (snd (import_run pg rt exported db)) \<le> 2"
  by (simp add: import_run_def case_prod_beta split: sum.split)

text \<open>
  C39. An export with no contacts imports nothing: the people statement has an empty
  \<^verbatim>\<open>VALUES\<close> list, Postgres rejects it, and the run logs the syntax error, skips every
  later collection and releases the pool.
\<close>

theorem import_run_no_contacts:
  assumes "out_contacts d = []"
  shows "import_run pg rt (Inr (Some d)) db = (db, [ImportErrorLogged err_empty_values, KnexDestroyed])"
proof -
  have "import_people pg rt [] db = (Inl err_empty_values, db)"
    by (simp add: import_people_def dbind_def on_table_Some [OF send_upsert_empty])
  with assms show ?thesis by (simp add: import_run_def import_chain_def dbind_Inl)
qed

theorem import_run_no_contacts_witness:
  "import_run rejecting_server sample_runtime
     (Inr (Some \<lparr>out_contacts = [], out_donations = [], out_recurring_donations = [], out_reported_income = [],
                 out_charities = [], out_charity_merge_candidates = [], out_donation_currency_codes = []\<rparr>))
     empty_dest = (empty_dest, [ImportErrorLogged err_empty_values, KnexDestroyed])"
  by (rule import_run_no_contacts) simp

subsection \<open>importDonations\<close>

lemma donation_tuple_Inr:
  "donation_tuple rt imp d = Inr tup \<Longrightarrow> length tup = 5 \<and> tup ! 3 = value_literal rt (donation_amount d)"
  by (auto simp: donation_tuple_def sbind_eq_Inr)

lemma import_donations_sent:
  assumes run: "import_donations pg rt imp ds db = (Inr ret, db')"
    and lit: "\<forall>d\<in>set ds. \<forall>tup. donation_tuple rt imp d = Inr tup \<longrightarrow>
                (\<forall>s\<in>set tup. CHR ''?'' \<notin> set s \<and> decode_literal s \<noteq> None)"
  obtains tuples rows t' where "list_all2 (\<lambda>d tup. donation_tuple rt imp d = Inr tup) ds tuples"
    and "list_all2 (list_all2 (\<lambda>s v. decode_literal s = Some v)) tuples rows"
    and "upsert_stmt donation_key rows (donation_tbl db) = Inr (ret, t')" and "db' = db\<lparr>donation_tbl := t'\<rparr>"
proof -
  from run obtain tuples where m: "mapM (donation_tuple rt imp) ds = Inr tuples"
    by (auto simp: import_donations_def split: sum.splits)
  then have t: "list_all2 (\<lambda>d tup. donation_tuple rt imp d = Inr tup) ds tuples" by (simp add: mapM_Inr_iff)
  have ok: "\<forall>tu\<in>set tuples. \<forall>s\<in>set tu. CHR ''?'' \<notin> set s \<and> decode_literal s \<noteq> None"
    using list_all2_set_right [OF t] lit by fastforce
  then obtain rows where r: "read_tuples tuples = Some rows"
    by (cases "read_tuples tuples") (fastforce simp: read_tuples_def omap_None_iff)+
  from ok have "send_upsert donation_key tuples (donation_tbl db) = Some (upsert_stmt donation_key rows (donation_tbl db))"
    by (simp add: send_upsert_unchanged r)
  with run m obtain t' where "upsert_stmt donation_key rows (donation_tbl db) = Inr (ret, t')" "db' = db\<lparr>donation_tbl := t'\<rparr>"
    by (auto simp: import_donations_def on_table_Some split: sum.splits)
  with t r that show ?thesis by (simp add: read_tuples_Some)
qed

lemma donation_null_amount:
  assumes "donation_tuple rt imp d = Inr tup" and "list_all2 (\<lambda>s v. decode_literal s = Some v) tup r"
    and "\<not> js_truthy (donation_amount d)"
  shows "\<not> key_usable (key_of donation_key r)"
proof -
  from donation_tuple_Inr [OF assms(1)] have len: "length tup = 5"
    and amt: "tup ! 3 = value_literal rt (donation_amount d)" by auto
  from assms(2) len have "length r = 5" by (simp add: list_all2_lengthD)
  moreover from list_all2_nthD [OF assms(2), of 3] len amt assms(3) have "r ! 3 = SNull"
    by (simp add: decode_value_literal_falsy)
  ultimately show ?thesis by (simp add: key_usable_def key_of_def donation_key_def)
qed

text \<open>
  C38. A donation of amount \<open>0\<close> (or any falsy amount) is written as \<^verbatim>\<open>NULL\<close> by
  \<^verbatim>\<open>value\<close>, so its conflict key has a \<^verbatim>\<open>NULL\<close>: each successful donations import whose
  literals reach Postgres as written (no \<^verbatim>\<open>?\<close> for knex to rewrite, each one a literal)
  adds a new row for every such donation, and re-running the importer duplicates them.
\<close>

theorem import_donations_falsy_amount:
  assumes run: "import_donations pg rt imp ds db = (Inr ret, db')"
    and lit: "\<forall>d\<in>set ds. \<forall>tup. donation_tuple rt imp d = Inr tup \<longrightarrow>
                (\<forall>s\<in>set tup. CHR ''?'' \<notin> set s \<and> decode_literal s \<noteq> None)"
  shows "length (tbl_rows (donation_tbl db)) + length (filter (\<lambda>d. \<not> js_truthy (donation_amount d)) ds)
           \<le> length (tbl_rows (donation_tbl db'))"
proof -
  from run lit obtain tuples rows t' where t: "list_all2 (\<lambda>d tup. donation_tuple rt imp d = Inr tup) ds tuples"
    and dec: "list_all2 (list_all2 (\<lambda>s v. decode_literal s = Some v)) tuples rows"
    and s: "upsert_stmt donation_key rows (donation_tbl db) = Inr (ret, t')" and db': "db' = db\<lparr>donation_tbl := t'\<rparr>"
    by (rule import_donations_sent)
  have "list_all2 (\<lambda>d r. \<exists>tup. donation_tuple rt imp d = Inr tup \<and> list_all2 (\<lambda>s v. decode_literal s = Some v) tup r) ds rows"
    using t dec by (rule list_all2_trans [rotated 1]) blast
  then have "length (filter (\<lambda>d. \<not> js_truthy (donation_amount d)) ds) \<le>
             length (filter (\<lambda>r. \<not> key_usable (key_of donation_key r)) rows)"
    by (rule list_all2_filter_length) (metis donation_null_amount)
  with upsert_stmt_null_key_inserts [OF s] db' show ?thesis by simp
qed

lemma import_zero_gift:
  "import_donations rejecting_server sample_runtime oxfam_ids [zero_gift] empty_dest =
     (Inr [(1, [SText ''1'', SText ''1'', SNull, SNull, SText ''USD''])],
      empty_dest\<lparr>donation_tbl := \<lparr>tbl_rows = [(1, [SText ''1'', SText ''1'', SNull, SNull, SText ''USD''])], tbl_next = 2\<rparr>\<rparr>)"
  by (simp add: import_eval import_donations_def donation_tuple_def person_id_of_def organization_id_of_def
      iso_of_def js_value_simps donation_key_def oxfam_ids_def zero_gift_def
      show_int_digit digit_char_def del: show_int_nonneg)

theorem import_donations_falsy_amount_witness:
  "length (tbl_rows (donation_tbl empty_dest)) + 1 \<le>
     length [(1::nat, [SText ''1'', SText ''1'', SNull, SNull, SText ''USD''])]"
proof -
  have "\<forall>d\<in>set [zero_gift]. \<forall>tup. donation_tuple sample_runtime oxfam_ids d = Inr tup \<longrightarrow>
          (\<forall>s\<in>set tup. CHR ''?'' \<notin> set s \<and> decode_literal s \<noteq> None)"
    by (simp add: donation_tuple_def person_id_of_def organization_id_of_def iso_of_def js_value_simps
        oxfam_ids_def zero_gift_def decode_literal_def value_literal_def lex_value_def dollar_tag_def
        obj_get_def sql_value_def show_int_digit digit_char_def del: show_int_nonneg)
  then show ?thesis using import_donations_falsy_amount [OF import_zero_gift] by (simp add: zero_gift_def)
qed

end
