(* ===== verification/Spec2Isabelle.thy ===== *)
theory Spec2Isabelle
  imports UpsertWriter
begin

text \<open>
  \<^bold>\<open>A verification model of parfit-loader.\<close>

  The program migrates contact data from a CiviCRM (MySQL) database into a Postgres schema in
  two halves. \<^verbatim>\<open>src/export/index.js\<close> extracts: \<^verbatim>\<open>run\<close> opens the connection, clears the
  data directory and calls \<^verbatim>\<open>execute\<close>, which (1) reads the custom groups and, per group,
  the catalog columns of its custom-value table (the Schema Discoverer); (2) assembles one
  wide contact query that left-joins every custom table under namespaced column aliases
  (the Query Assembler: \<^verbatim>\<open>fields\<close>, \<^verbatim>\<open>custom_table_fields\<close>,
  \<^verbatim>\<open>custom_table_column_namespace\<close>, \<^verbatim>\<open>custom_table_name\<close>, \<^verbatim>\<open>query\<close>); (3) resolves
  state and country codes against two lookup tables (the Reference Resolver); and (4) splits
  the JSON ``dashboard'' ledger of each contact into donations, reported income and recurring
  donations, collecting the charity names and currency codes seen, with a run-wide check that
  every donation's hash is unique (the Payload Normalizer). \<^verbatim>\<open>src/import.js\<close> loads the
  result into Postgres by upserts, in the order people, then profiles, addresses and pledges,
  then organisations, then donations and income, mapping source ids to destination ids.
  \<^verbatim>\<open>src/knexfile.js\<close> holds the connection configuration per environment.

  \<^bold>\<open>Theories.\<close>
  \<^item> \<open>Prelude\<close>: errors as values (\<open>sbind\<close>, the loop combinators \<open>foldM\<close> and
    \<open>mapM\<close> with their invariant and totality rules), decimal printing and reading of
    numbers with the round trip \<open>read_nat (show_nat n) = n\<close>, the push-if-absent idiom
    \<open>push_new\<close> and first-occurrence deduplication \<open>dedup\<close>, and JavaScript-ordered
    association lists (\<open>aset\<close>, \<open>adelete\<close>).
  \<^item> \<open>JsValue\<close>: the JavaScript semantics the code relies on: \<open>js_split\<close>/\<open>js_join\<close>
    (with both round trips), \<open>replace_first\<close>, \<open>js_trim\<close>, \<open>isNaN\<close> on strings as the
    \<^emph>\<open>StringNumericLiteral\<close> grammar (\<open>js_numeric_string\<close>), the value type \<open>jval\<close>,
    truthiness, \<open>===\<close>, \<open>String(v)\<close>, the binary \<open>+\<close>, property access
    \<open>js_get\<close> (a \<^verbatim>\<open>TypeError\<close> on \<^verbatim>\<open>null\<close>/\<^verbatim>\<open>undefined\<close>), \<^verbatim>\<open>Object.keys\<close> with
    array-index keys first. The libraries the code only calls (JSON, md5, moment's calendar
    and parsing) are the record \<open>runtime\<close>; every theorem holds for every runtime unless
    it names \<open>sample_runtime\<close>, the concrete instance its witness evaluates.
  \<^item> \<open>QueryAssembler\<close>: \<open>fields\<close>, \<open>custom_table_name\<close>,
    \<open>custom_table_column_namespace\<close> (with \<open>semantic_column\<close>),
    \<open>custom_table_fields\<close>, \<open>query_text\<close>, the discovery loop \<open>discover_schema\<close>
    and the contact query \<open>contact_query\<close>, all from \<^verbatim>\<open>src/export/index.js\<close>. The
    discovery loop is shown equal to its specification \<open>schema_spec\<close> (one key per table
    name in listing order, the last catalog result for a name winning) when there is one result
    per custom table, the results taken in the order the queries are queued (the
    \<^verbatim>\<open>bluebird-queue\<close> library's order is assumed, not modelled).

  \<^item> \<open>PayloadNormalizer\<close>: the unserialising step of \<^verbatim>\<open>execute\<close> (lines 252--427). The
    JavaScript state (the arrays \<^verbatim>\<open>contacts\<close>, \<^verbatim>\<open>donations\<close>, \<^verbatim>\<open>charities\<close>,
    \<^verbatim>\<open>donationCurrencyCodes\<close>, \<^verbatim>\<open>donationHashes\<close>, ... and the per-contact scratch
    arrays) is the record \<open>unser_state\<close>; each \<^verbatim>\<open>forEach\<close> body is a step
    (\<open>donation_step\<close>, \<open>income_step\<close>, \<open>recurring_step\<close>) run by \<open>foldM\<close>, which stops
    at the first \<open>Inl\<close> as a \<^verbatim>\<open>throw\<close> leaves the loop; \<open>unserialise_contact\<close> is the
    body of the row loop and \<open>unserialise\<close> the whole step with the final maps
    (\<open>finish\<close>). Its lemmas show the loop invariant \<open>unser_inv\<close> (hashes distinct and one
    per donation, the charity registry exact and duplicate-free, the currency registry free of
    strictly equal codes) preserved by every step and hence true after every successful run;
    that different contact ids never share a hash; that a repeated entry is fatal; the
    specification's Oxfam scenario for every runtime; null propagation; and that an
    unparseable ledger aborts the run. Three theorems record where the code departs from the
    specification: the income-period offset is always zero, an absent date becomes the current
    time, and the per-contact counter does not keep timestamps apart beyond 1000 entries.

  \<^item> \<open>ReferenceResolver\<close>: the lookup step of \<^verbatim>\<open>execute\<close> (lines 218--251): the lookup
    objects as association lists built by \<open>lookup_table\<close> (string keys, the last row with a
    key wins), \<^verbatim>\<open>|| null\<close> as \<open>js_or_null\<close>, the row rewrite \<open>resolve_row\<close> and the step
    \<open>resolve_references\<close>. Its lemmas give the value of every resolved field and the key
    set of every resolved row.
  \<^item> \<open>Orchestrator\<close>: \<^verbatim>\<open>execute\<close> as \<open>execute_export\<close>, one error-threading chain over a
    \<open>database\<close> (the rows or the error the driver returns for a query text), and \<^verbatim>\<open>run\<close> as
    \<open>export_run\<close>, the \<^verbatim>\<open>then\<close> chain, \<^verbatim>\<open>catch\<close> and \<^verbatim>\<open>finally\<close> written out as
    a trace of \<open>run_event\<close>s with the I/O outcomes (connect, clear the directory, write the
    files) as parameters. Its theorems show that the connection is released exactly once on
    every path once it is made, that every later failure is swallowed, and that a failed
    connection is reported as the \<^verbatim>\<open>TypeError\<close> of the \<^verbatim>\<open>finally\<close> handler.

  \<^item> \<open>SqlLiteral\<close>: the helper \<^verbatim>\<open>value\<close> of \<^verbatim>\<open>src/import.js\<close> (lines 306--308) as
    \<open>value_literal\<close>, and a lexer \<open>lex_value\<close> that reads one literal the way Postgres
    does (the keyword \<^verbatim>\<open>NULL\<close> or a dollar-quoted string, which ends at the first
    \<^verbatim>\<open>$delimiter$\<close>). Its theorems give the round trip for quotable strings and the two
    ways a string breaks the quoting.
  \<^item> \<open>PgStore\<close>: the destination, not code of the repository: the semantics of one
    \<^verbatim>\<open>INSERT ... ON CONFLICT (key) DO UPDATE ... RETURNING\<close> statement over a table of
    rows with serial ids (\<open>upsert_stmt\<close>), written from the Postgres documentation: keys
    with a \<^verbatim>\<open>NULL\<close> never conflict, a conflicting row is returned unchanged, a row may not
    be affected twice, every proposed row draws a sequence value, an empty \<^verbatim>\<open>VALUES\<close> list
    is a syntax error, a failing statement writes nothing. Its lemmas: the unique-index
    invariant \<open>pg_inv\<close> is kept, one row is returned per proposed row, a re-run without
    \<^verbatim>\<open>NULL\<close> keys changes nothing, \<^verbatim>\<open>NULL\<close> keys insert, duplicate keys fail.
  \<^item> \<open>UpsertWriter\<close>: \<^verbatim>\<open>src/import.js\<close> and \<^verbatim>\<open>src/knexfile.js\<close>. The destination is the
    record \<open>dest_db\<close> of seven tables. Sending a statement follows the path its text
    takes: knex's \<^verbatim>\<open>positionBindings\<close> (the pg dialect of \<^verbatim>\<open>knex.raw\<close>) rewrites every
    \<^verbatim>\<open>?\<close> of the text into \<^verbatim>\<open>$1\<close>, \<^verbatim>\<open>$2\<close>, ... and drops the backslashes before it
    (\<open>position_bindings\<close>, threaded through the literals by \<open>bind_literals\<close> and
    \<open>bind_tuples\<close>); Postgres then reads each literal (\<open>decode_literal\<close>) and runs the upsert
    (\<open>upsert_stmt\<close>), together \<open>send_upsert\<close>. When a value has changed the statement
    (a literal no longer reads as one \<^verbatim>\<open>NULL\<close> or one quoted string) what the server does is
    the parameter \<open>server\<close> (\<open>altered\<close>: an error, or SQL an injected value carries), so
    every theorem holds for every server unless it says otherwise; \<open>rejecting_server\<close> is
    the instance the witnesses use. An import step (\<open>on_table\<close> per statement) is a function
    from the destination to its result and the destination after it, composed by \<open>dbind\<close>.
    \<open>import_people\<close> .. \<open>import_income\<close> are \<^verbatim>\<open>importPeople\<close> .. \<^verbatim>\<open>importIncome\<close>,
    \<^verbatim>\<open>importedData\<close> is the record \<open>imported\<close>, \<^verbatim>\<open>run\<close> is \<open>import_run\<close>
    (the chain \<open>import_chain\<close>, \<^verbatim>\<open>Promise.all\<close> as \<open>import_people_parts\<close>, then
    \<^verbatim>\<open>catch\<close> and \<^verbatim>\<open>knex.destroy()\<close> as a trace of \<open>import_event\<close>s), and the
    configuration lookup of line 5 is \<open>knex_config\<close>. A value is \<open>plain\<close> when it holds
    no \<^verbatim>\<open>?\<close> and does not break the quoting; such values reach Postgres as written
    (\<open>send_upsert_values\<close>), and the theorems about what an import stores assume it of the
    values they follow. Its theorems: any value holding a \<^verbatim>\<open>?\<close> is stored altered
    (\<open>knex_rewrite_alters\<close>); on plain emails the count check of \<^verbatim>\<open>importPeople\<close>
    cannot fire, the id map links every contact to its person row, a re-run of the people
    import changes nothing when every contact has an email, while contacts without one are
    duplicated by every run, and two contacts with one email make the import fail; donations
    of amount 0 are duplicated by every run; unless an altered statement writes them, the
    pledges are never written and the people written stay when a later step fails; the pool is
    always released; an export without contacts imports nothing.

  This theory states what spans the components: \<open>execute_contacts_resolved\<close> follows a
  successful \<^verbatim>\<open>execute\<close> through the contact query, the resolver and the normaliser;
  \<open>pipeline_ids_linked\<close> follows the export's donations and income records into the
  importer and shows that each finds its person id (from the normaliser's invariant that every
  record carries the id of an exported contact, \<open>unserialise_linked\<close>);
  \<open>pipeline_export_failure\<close> follows a failed export into the importer.

  No loop of the model needs fuel: every loop of the code runs over a finite list (the rows,
  a ledger's entries, an object's keys, the query results, the tuples of a statement and
  the characters of a literal), so
  each is \<open>foldM\<close>, \<open>mapM\<close> or \<open>fold\<close> over that list, and every function of the model
  is total.

  \<^bold>\<open>Not modelled.\<close> The database drivers, the file system (the data directory, the copy
  of the donations statement written to \<^verbatim>\<open>w.sql\<close>), console output and the progress bar
  (pure I/O); \<^verbatim>\<open>dotenv\<close> and the command-line arguments (\<^verbatim>\<open>ROW_LIMIT\<close>) beyond their
  values; the libraries behind \<open>runtime\<close>; the columns an \<^verbatim>\<open>ON CONFLICT DO UPDATE\<close>
  statement sets besides the key (the code sets only key columns, so the model keeps the
  stored row). The timing of the three statements under \<^verbatim>\<open>Promise.all\<close> is taken in the
  order the code lists them. A charity named \<^verbatim>\<open>__proto__\<close> (which would set the
  prototype of \<^verbatim>\<open>idByName\<close>) is read as an ordinary key. Strings are byte strings and
  numbers are integers or NaN (see \<open>JsValue\<close>).
\<close>

section \<open>A source for the whole pipeline\<close>

text \<open>
  A CiviCRM database holding one contact, 42, with an email and the specification's Oxfam
  ledger; the runtime \<open>ledger_runtime oxfam_ledger\<close> parses that ledger.
\<close>

definition oxfam_db :: database where
  "oxfam_db = \<lparr>db_query = (\<lambda>s. if take 15 s = ''SELECT contact.''
        then Inr [[(''id'', JNum 42), (''email'', JStr ''ann@x.org''), (''donations__dashboard_data'', JStr '' {ledger} '')]]
        else Inr [])\<rparr>"

section \<open>Properties across components\<close>

text \<open>
  C3. Extraction end to end: when \<^verbatim>\<open>execute\<close> succeeds, its contacts are, one for one and in
  order, the rows the database returned for the assembled contact query, each carrying the
  state name and country code resolved from the two lookup results, without the two code
  columns and without the ledger field.
\<close>

theorem execute_contacts_resolved:
  assumes "execute_export rt db limit = Inr out"
  shows "\<exists>sc q rows states countries.
           contact_query rt sc limit = Inr q \<and> run_query db q = Inr rows \<and>
           run_query db state_query = Inr states \<and> run_query db country_query = Inr countries \<and>
           list_all2 (\<lambda>row c.
              obj_get c ''state_province'' =
                resolve_code rt (lookup_table rt ''id'' ''name'' states) (obj_get row ''state_province_id'') \<and>
              obj_get c ''country'' =
                resolve_code rt (lookup_table rt ''id'' ''iso_code'' countries) (obj_get row ''country_id'') \<and>
              obj_get c ''state_province_id'' = JUndef \<and> obj_get c ''country_id'' = JUndef \<and>
              obj_get c ''donations__dashboard_data'' = JUndef) rows (out_contacts out)"
proof -
  from assms obtain sc q rows states countries where
    q: "contact_query rt sc limit = Inr q" and r: "run_query db q = Inr rows" and
    s: "run_query db state_query = Inr states" and c: "run_query db country_query = Inr countries" and
    u: "unserialise rt (resolve_references rt states countries rows) = Inr out"
    unfolding execute_export_def by (auto simp: sbind_eq_Inr)
  have "list_all2 (contact_of rt) (resolve_references rt states countries rows) (out_contacts out)"
    by (rule unserialise_contacts [OF u])
  then have "list_all2 (\<lambda>row. contact_of rt (resolve_row rt (lookup_table rt ''id'' ''name'' states)
               (lookup_table rt ''id'' ''iso_code'' countries) row)) rows (out_contacts out)"
    by (simp add: resolve_references_def list_all2_map1)
  then have "list_all2 (\<lambda>row c.
              obj_get c ''state_province'' =
                resolve_code rt (lookup_table rt ''id'' ''name'' states) (obj_get row ''state_province_id'') \<and>
              obj_get c ''country'' =
                resolve_code rt (lookup_table rt ''id'' ''iso_code'' countries) (obj_get row ''country_id'') \<and>
              obj_get c ''state_province_id'' = JUndef \<and> obj_get c ''country_id'' = JUndef \<and>
              obj_get c ''donations__dashboard_data'' = JUndef) rows (out_contacts out)"
    by (rule list_all2_mono) (simp add: contact_of_def written_fields_def date_fields_def resolve_row_def Let_def)
  with q r s c show ?thesis by blast
qed

theorem execute_contacts_resolved_witness:
  "\<exists>out. execute_export sample_runtime contact_db JNull = Inr out \<and>
     (\<exists>sc q rows states countries.
        contact_query sample_runtime sc JNull = Inr q \<and> run_query contact_db q = Inr rows \<and>
        run_query contact_db state_query = Inr states \<and> run_query contact_db country_query = Inr countries \<and>
        list_all2 (\<lambda>row c.
           obj_get c ''state_province'' =
             resolve_code sample_runtime (lookup_table sample_runtime ''id'' ''name'' states) (obj_get row ''state_province_id'') \<and>
           obj_get c ''country'' =
             resolve_code sample_runtime (lookup_table sample_runtime ''id'' ''iso_code'' countries) (obj_get row ''country_id'') \<and>
           obj_get c ''state_province_id'' = JUndef \<and> obj_get c ''country_id'' = JUndef \<and>
           obj_get c ''donations__dashboard_data'' = JUndef) rows (out_contacts out))"
proof -
  obtain out where "execute_export sample_runtime contact_db JNull = Inr out"
    using contact_db_export by blast
  with execute_contacts_resolved [OF this] show ?thesis by blast
qed


lemmas export_eval = execute_export_def run_query_def custom_group_query_def fields_of_def
  fields_names_def discover_schema_def contact_query_def query_text_def contact_query_lines_def
  custom_table_fields_def schema_tables_def js_own_keys_def state_query_def country_query_def
  unserialise_eval resolve_references_def resolve_row_def resolve_code_def lookup_table_def
  js_or_null_def has_dashboard_def ledger_runtime_def oxfam_ledger_def oxfam_entry_def
  sample_runtime_def donation_hash_def

lemma oxfam_pipeline:
  "\<exists>out ids db'. execute_export (ledger_runtime oxfam_ledger) oxfam_db JNull = Inr out \<and>
     import_people rejecting_server (ledger_runtime oxfam_ledger) (out_contacts out) empty_dest = (Inr ids, db') \<and>
     (\<forall>p\<in>set (out_contacts out). plain (js_to_string (ledger_runtime oxfam_ledger) (obj_get p ''email''))) \<and>
     distinct (map (\<lambda>p. js_to_string (ledger_runtime oxfam_ledger) (obj_get p ''id'')) (out_contacts out)) \<and>
     out_donations out \<noteq> []"
  by (simp add: export_eval oxfam_db_def import_eval plain_def quotable_def ends_with_def)

text \<open>
  C4. Identifier linkage across the two halves: when \<^verbatim>\<open>execute\<close> succeeds and the people
  import of its contacts succeeds (on a destination satisfying the unique index, with
  distinct contact ids and plain emails: no \<^verbatim>\<open>?\<close> for knex to rewrite and
  nothing that breaks the quoting), every donation and every income record the
  export produced finds its person in \<^verbatim>\<open>idbyEntityID\<close>: the lookup the donation and income
  imports make yields the id of a person row, never \<^verbatim>\<open>undefined\<close>.
\<close>

theorem pipeline_ids_linked:
  assumes exp: "execute_export rt src limit = Inr out"
    and ppl: "import_people pg rt (out_contacts out) db = (Inr ids, db')"
    and inv: "pg_inv person_key (person_tbl db)"
    and q: "\<forall>p\<in>set (out_contacts out). plain (js_to_string rt (obj_get p ''email''))"
    and d: "distinct (map (\<lambda>p. js_to_string rt (obj_get p ''id'')) (out_contacts out))"
  shows "(\<forall>x\<in>set (out_donations out). \<exists>j r.
            person_id_of rt \<lparr>people_ids = Some ids, organization_ids = oids\<rparr> (donation_contact_id x) = Inr (JNum (int j)) \<and>
            (j, r) \<in> set (tbl_rows (person_tbl db'))) \<and>
         (\<forall>x\<in>set (out_reported_income out). \<exists>j r.
            person_id_of rt \<lparr>people_ids = Some ids, organization_ids = oids\<rparr> (income_contact_id x) = Inr (JNum (int j)) \<and>
            (j, r) \<in> set (tbl_rows (person_tbl db')))"
proof -
  from exp obtain rows where u: "unserialise rt rows = Inr out"
    unfolding execute_export_def by (auto simp: sbind_eq_Inr)
  have row: "c \<in> set (out_contacts out) \<Longrightarrow>
      \<exists>j r. obj_get ids (js_to_string rt (obj_get c ''id'')) = JNum (int j) \<and> (j, r) \<in> set (tbl_rows (person_tbl db'))" for c
    using import_people_row [OF ppl inv q d, of c] by blast
  from unserialise_linked [OF u] row show ?thesis by (fastforce simp: person_id_of_def)
qed

theorem pipeline_ids_linked_witness:
  "\<exists>out ids db' x j r. execute_export (ledger_runtime oxfam_ledger) oxfam_db JNull = Inr out \<and>
     import_people rejecting_server (ledger_runtime oxfam_ledger) (out_contacts out) empty_dest = (Inr ids, db') \<and>
     x \<in> set (out_donations out) \<and>
     person_id_of (ledger_runtime oxfam_ledger) \<lparr>people_ids = Some ids, organization_ids = None\<rparr>
       (donation_contact_id x) = Inr (JNum (int j)) \<and> (j, r) \<in> set (tbl_rows (person_tbl db'))"
proof -
  obtain out ids db' where e: "execute_export (ledger_runtime oxfam_ledger) oxfam_db JNull = Inr out"
    and p: "import_people rejecting_server (ledger_runtime oxfam_ledger) (out_contacts out) empty_dest = (Inr ids, db')"
    and q: "\<forall>p\<in>set (out_contacts out). plain (js_to_string (ledger_runtime oxfam_ledger) (obj_get p ''email''))"
    and d: "distinct (map (\<lambda>p. js_to_string (ledger_runtime oxfam_ledger) (obj_get p ''id'')) (out_contacts out))"
    and n: "out_donations out \<noteq> []"
    using oxfam_pipeline by blast
  have inv: "pg_inv person_key (person_tbl empty_dest)" by (simp add: empty_dest_def empty_table_inv)
  from n obtain x where x: "x \<in> set (out_donations out)" by (cases "out_donations out") auto
  from pipeline_ids_linked [OF e p inv q d, of None] x e p show ?thesis by blast
qed

text \<open>
  C15. A failed export reaches the importer as \<^verbatim>\<open>undefined\<close>: when \<^verbatim>\<open>execute\<close> fails
  after the connection is made, the export logs its error and resolves to \<^verbatim>\<open>undefined\<close>;
  the import then fails reading \<^verbatim>\<open>data.contacts\<close>, logs that \<^verbatim>\<open>TypeError\<close> instead of
  the cause, writes nothing and releases its pool; no error reaches the process.
\<close>

theorem pipeline_export_failure:
  assumes "execute_export rt src limit = Inl e"
  shows "import_run pg rt (fst (export_run rt src limit (Inr ()) (Inr ()) write)) db =
           (db, [ImportErrorLogged (TypeError ''Cannot read properties of undefined (reading contacts)''), KnexDestroyed])"
  using assms by (simp add: run_defs import_run_def import_chain_def)

theorem pipeline_export_failure_witness:
  "import_run rejecting_server sample_runtime (fst (export_run sample_runtime failing_db JNull (Inr ()) (Inr ()) (Inr ()))) empty_dest =
     (empty_dest, [ImportErrorLogged (TypeError ''Cannot read properties of undefined (reading contacts)''), KnexDestroyed])"
proof -
  have "execute_export sample_runtime failing_db JNull = Inl (SqlError ''connection lost'')"
    by (simp add: execute_export_def failing_db_def run_query_def custom_group_query_def fields_of_def fields_names_def)
  then show ?thesis by (rule pipeline_export_failure)
qed

end
